theory Spec2Isabelle
  imports Complex_Main "HOL-Library.Sublist" "HOL-Library.AList"
begin

chapter \<open>The regtest fixture generator: model and verified properties\<close>

text \<open>
  A shallow embedding of the generation engine of the regtest fixture generator
  (\<^verbatim>\<open>generate.py\<close>, \<^verbatim>\<open>generator/dashd_manager.py\<close>,
  \<^verbatim>\<open>generator/wallet_export.py\<close>).  Python integers are \<^typ>\<open>int\<close>,
  strings are \<^typ>\<open>string\<close>, an exception is a value of the datatype of exceptions
  and a function that can raise returns a sum, \<open>Inl\<close> carrying the exception.
  Mutation of \<^verbatim>\<open>self\<close> is explicit state passing.  The node, reached only through
  \<^verbatim>\<open>rpc.call\<close>, is an opaque state with an arbitrary transition function.
  Output by \<^verbatim>\<open>print\<close> is not modelled.
\<close>

section \<open>The boundary scheduler\<close>

text \<open>
  \<^verbatim>\<open>range(start, stop, step)\<close> for a positive step: \<open>start, start + step, ...\<close> below
  \<open>stop\<close>.  The only call passes the step 5000; for a step that is not positive (where
  Python counts down or raises) the model gives the empty list.
\<close>

function py_range :: "int \<Rightarrow> int \<Rightarrow> int \<Rightarrow> int list" where
  "py_range start stop step =
     (if 0 < step \<and> start < stop then start # py_range (start + step) stop step else [])"
  by pat_completeness auto
termination
  by (relation "measure (\<lambda>(start, stop, step). nat (stop - start))") auto

declare py_range.simps [simp del]

text \<open>
  The loop of \<^verbatim>\<open>_calculate_batch_boundaries\<close> over the range, with the list
  \<^verbatim>\<open>boundaries\<close> it appends to as accumulator.
\<close>

fun boundaries_loop :: "int \<Rightarrow> int \<Rightarrow> int list \<Rightarrow> int list \<Rightarrow> int list" where
  "boundaries_loop current_height target [] boundaries = boundaries"
| "boundaries_loop current_height target (boundary # rest) boundaries =
     (let height = boundary - 1
      in boundaries_loop current_height target rest
           (if height > current_height \<and> height < target
            then boundaries @ [height] else boundaries))"

text \<open>
  \<^verbatim>\<open>WalletSyncGenerator._calculate_batch_boundaries\<close>; Python's \<^verbatim>\<open>//\<close> is
  floor division, as \<open>div\<close> on \<^typ>\<open>int\<close>.
\<close>

definition calculate_batch_boundaries :: "int \<Rightarrow> int \<Rightarrow> int list" where
  "calculate_batch_boundaries current_height target =
     (let first_boundary = ((current_height div 5000) + 1) * 5000
      in boundaries_loop current_height target
           (py_range first_boundary (target + 1) 5000) [])"

section \<open>Python values\<close>

text \<open>
  The exceptions the code raises or meets.  \<^verbatim>\<open>generator/errors.py\<close> is not among the
  sources at hand: the five classes imported from it are taken as distinct classes, none
  a subclass of another of the five except of \<^verbatim>\<open>GeneratorError\<close>, as the order of
  the handlers in \<^verbatim>\<open>main\<close> suggests.  \<open>OtherException\<close> stands for any further
  subclass of \<^verbatim>\<open>Exception\<close> (an \<^verbatim>\<open>OSError\<close>, say); \<^verbatim>\<open>KeyboardInterrupt\<close> is the
  one modelled exception that is not a subclass of \<^verbatim>\<open>Exception\<close>.
\<close>

datatype py_exception =
    DashdConnectionError string
  | RPCError string
  | GeneratorError string
  | ConfigError string
  | InsufficientFundsError string
  | KeyboardInterrupt
  | KeyError string
  | TypeError
  | AttributeError
  | OverflowError
  | NotImplementedError
  | OtherException string

fun is_Exception :: "py_exception \<Rightarrow> bool" where
  "is_Exception KeyboardInterrupt = False"
| "is_Exception _ = True"

text \<open>\<^verbatim>\<open>str(e)\<close> of an exception raised with one message argument.\<close>

fun str_of_exception :: "py_exception \<Rightarrow> string" where
  "str_of_exception (DashdConnectionError m) = m"
| "str_of_exception (RPCError m) = m"
| "str_of_exception (GeneratorError m) = m"
| "str_of_exception (ConfigError m) = m"
| "str_of_exception (InsufficientFundsError m) = m"
| "str_of_exception (KeyError k) = k"
| "str_of_exception (OtherException m) = m"
| "str_of_exception _ = []"

text \<open>
  Parsed JSON, the results of \<^verbatim>\<open>rpc.call\<close>.  A JSON number is carried as an exact
  rational: Python's split into \<^verbatim>\<open>int\<close> and \<^verbatim>\<open>float\<close> and the rounding of
  floats are not modelled.  A dictionary is an association list, looked up from the left.
\<close>

datatype json =
    JNull
  | JBool bool
  | JNum rat
  | JStr string
  | JList "json list"
  | JDict "(string \<times> json) list"

text \<open>\<^verbatim>\<open>d[key]\<close>, \<^verbatim>\<open>d.get(key, default)\<close> and \<^verbatim>\<open>for x in v\<close> on a parsed value.\<close>

fun py_getitem :: "json \<Rightarrow> string \<Rightarrow> py_exception + json" where
  "py_getitem (JDict kvs) key =
     (case map_of kvs key of None \<Rightarrow> Inl (KeyError key) | Some v \<Rightarrow> Inr v)"
| "py_getitem _ key = Inl TypeError"

fun py_get :: "json \<Rightarrow> string \<Rightarrow> json \<Rightarrow> py_exception + json" where
  "py_get (JDict kvs) key dflt =
     (case map_of kvs key of None \<Rightarrow> Inr dflt | Some v \<Rightarrow> Inr v)"
| "py_get _ key dflt = Inl AttributeError"

fun py_iter :: "json \<Rightarrow> py_exception + json list" where
  "py_iter (JList xs) = Inr xs"
| "py_iter (JDict kvs) = Inr (map (\<lambda>kv. JStr (fst kv)) kvs)"
| "py_iter (JStr s) = Inr (map (\<lambda>c. JStr [c]) s)"
| "py_iter _ = Inl TypeError"

text \<open>\<^verbatim>\<open>len(v)\<close>.\<close>

fun py_len :: "json \<Rightarrow> py_exception + int" where
  "py_len (JList xs) = Inr (int (length xs))"
| "py_len (JDict kvs) = Inr (int (length kvs))"
| "py_len (JStr s) = Inr (int (length s))"
| "py_len _ = Inl TypeError"

text \<open>
  A number as Python's arithmetic reads it (\<^verbatim>\<open>True\<close> and \<^verbatim>\<open>False\<close> count as 1
  and 0); anything else makes \<^verbatim>\<open>+\<close> with a number raise \<^verbatim>\<open>TypeError\<close>.
\<close>

fun py_number :: "json \<Rightarrow> py_exception + rat" where
  "py_number (JNum r) = Inr r"
| "py_number (JBool b) = Inr (if b then 1 else 0)"
| "py_number _ = Inl TypeError"

text \<open>
  \<^verbatim>\<open>sum(values)\<close>: from 0, adding from the left; the first value that is not a number
  raises.
\<close>

fun py_sum_from :: "rat \<Rightarrow> json list \<Rightarrow> py_exception + rat" where
  "py_sum_from acc [] = Inr acc"
| "py_sum_from acc (v # vs) =
     (case py_number v of Inl e \<Rightarrow> Inl e | Inr r \<Rightarrow> py_sum_from (acc + r) vs)"

definition py_sum :: "json list \<Rightarrow> py_exception + rat" where
  "py_sum vs = py_sum_from 0 vs"

text \<open>A height read from a response: an integral number, anything else a \<^verbatim>\<open>TypeError\<close>
  (the arithmetic on heights and \<^verbatim>\<open>range\<close> need an \<^verbatim>\<open>int\<close>).\<close>

fun py_int :: "json \<Rightarrow> py_exception + int" where
  "py_int (JNum r) = (if r = of_int \<lfloor>r\<rfloor> then Inr \<lfloor>r\<rfloor> else Inl TypeError)"
| "py_int _ = Inl TypeError"

text \<open>\<^verbatim>\<open>str(n)\<close> of an integer, for the messages and command lines.\<close>

fun str_nat :: "nat \<Rightarrow> string" where
  "str_nat n = (if n < 10 then [''0123456789'' ! n]
                else str_nat (n div 10) @ [''0123456789'' ! (n mod 10)])"

declare str_nat.simps [simp del]

definition str_int :: "int \<Rightarrow> string" where
  "str_int i = (if i < 0 then CHR ''-'' # str_nat (nat (- i)) else str_nat (nat i))"

text \<open>\<^verbatim>\<open>s.lower()\<close> on the ASCII letters; other bytes are left as they are.\<close>

definition lower_char :: "char \<Rightarrow> char" where
  "lower_char c =
     (case map_of (zip ''ABCDEFGHIJKLMNOPQRSTUVWXYZ'' ''abcdefghijklmnopqrstuvwxyz'') c of
        Some l \<Rightarrow> l
      | None \<Rightarrow> c)"

definition lower :: "string \<Rightarrow> string" where
  "lower s = map lower_char s"

text \<open>Paths are strings; \<^verbatim>\<open>p / name\<close>, \<^verbatim>\<open>p.parent\<close> and \<^verbatim>\<open>p.is_absolute()\<close>
  of POSIX paths without trailing or doubled slashes.\<close>

type_synonym path = string

definition path_join :: "path \<Rightarrow> string \<Rightarrow> path" where
  "path_join p name = (if p = ''/'' then p @ name else p @ ''/'' @ name)"

definition path_parent :: "path \<Rightarrow> path" where
  "path_parent p =
     (if CHR ''/'' \<notin> set p then ''.''
      else let d = rev (tl (dropWhile (\<lambda>c. c \<noteq> CHR ''/'') (rev p)))
           in if d = [] then ''/'' else d)"

definition is_absolute :: "path \<Rightarrow> bool" where
  "is_absolute p = (case p of [] \<Rightarrow> False | c # _ \<Rightarrow> c = CHR ''/'')"

text \<open>Whether \<open>p\<close> is the directory \<open>d\<close> or lies below it.\<close>

definition under :: "path \<Rightarrow> path \<Rightarrow> bool" where
  "under d p = (p = d \<or> prefix (path_join d []) p)"

section \<open>The node behind the command client\<close>

text \<open>
  \<^verbatim>\<open>generator/rpc_client.py\<close> is not among the sources at hand.  A call
  \<^verbatim>\<open>rpc.call(name, *args, wallet=w)\<close> of a client is a request to an opaque
  environment of type \<open>'e\<close>: an arbitrary function from the client, the request and the
  environment's state to a parsed result or a raised exception and the environment's next
  state.
\<close>

record DashRPCClient =
  client_dashcli_path :: string
  datadir :: "string option"
  client_rpc_port :: "int option"

datatype rpc_request = Request string "json list" "string option"

type_synonym 'e node_rpc =
  "DashRPCClient \<Rightarrow> rpc_request \<Rightarrow> 'e \<Rightarrow> (py_exception + json) \<times> 'e"

section \<open>The operating system under the process manager\<close>

text \<open>What the manager does to the operating system, in the order it does it.\<close>

datatype os_action =
    ProbePort int
  | Mkdtemp path
  | Mkdir path
  | Popen "string list" path
  | AtexitRegister
  | Poll nat
  | ReadStderr nat
  | Probe
  | Sleep
  | Terminate nat
  | WaitTimeout nat
  | Kill nat
  | Wait nat
  | Rmtree path
  | Copytree path path

text \<open>
  How \<^verbatim>\<open>terminate(); wait(timeout=10)\<close> ends: the process exits in time, the wait
  times out, or one of the two calls raises.  How \<^verbatim>\<open>shutil.rmtree(d, ignore_errors=True)\<close>
  ends: the tree is gone, a failed removal was ignored, or something other than a failed
  removal was raised.
\<close>

datatype wait_outcome = Exited | TimeoutExpired | WaitRaised py_exception

datatype rmtree_outcome = Removed | NotRemoved | RmtreeRaised py_exception

text \<open>
  The operating system as the manager meets it.  The first group of fields is its scripted
  behaviour, which the model never changes: what the file system says of an executable,
  which ports can be bound, the directory \<^verbatim>\<open>mkdtemp\<close> makes, the process id
  \<^verbatim>\<open>Popen\<close> returns (none when it raises \<^verbatim>\<open>FileNotFoundError\<close>), the exit code
  \<^verbatim>\<open>poll\<close> reports and the time a liveness call takes, both as functions of the clock
  in milliseconds, and how stopping and removing end.  The second group is its state: the
  clock, the directories that exist, the processes that run, the exit hooks registered, and
  the log of the actions taken.
\<close>

record os_world =
  is_executable_file :: "path \<Rightarrow> bool"
  which :: "string \<Rightarrow> path option"
  port_free :: "int \<Rightarrow> bool"
  mkdtemp_result :: path
  popen_result :: "nat option"
  exit_code_at :: "nat \<Rightarrow> int option"
  stderr_output :: string
  latency_at :: "nat \<Rightarrow> nat"
  graceful_stop :: wait_outcome
  kill_raises :: "py_exception option"
  rmtree_result :: "path \<Rightarrow> rmtree_outcome"
  clock :: nat
  dirs :: "path set"
  running :: "nat set"
  atexit_hooks :: nat
  actions :: "os_action list"

definition log_action :: "os_action \<Rightarrow> os_world \<Rightarrow> os_world" where
  "log_action a w = w\<lparr>actions := actions w @ [a]\<rparr>"

text \<open>
  \<^verbatim>\<open>shutil.rmtree(d, ignore_errors=True)\<close> inside \<^verbatim>\<open>try ... except Exception\<close>, as
  \<^verbatim>\<open>stop\<close>, \<^verbatim>\<open>generate\<close> and \<^verbatim>\<open>_export_data\<close> call it: an exception that is
  an \<^verbatim>\<open>Exception\<close> is swallowed, any other comes out.
\<close>

definition rmtree_ignore_errors :: "path \<Rightarrow> os_world \<Rightarrow> py_exception option \<times> os_world" where
  "rmtree_ignore_errors d w =
     (case rmtree_result w d of
        Removed \<Rightarrow>
          (None, (log_action (Rmtree d) w)\<lparr>dirs := Set.filter (\<lambda>p. \<not> under d p) (dirs w)\<rparr>)
      | NotRemoved \<Rightarrow> (None, log_action (Rmtree d) w)
      | RmtreeRaised e \<Rightarrow>
          (if is_Exception e then None else Some e, log_action (Rmtree d) w))"

text \<open>\<^verbatim>\<open>str(p)\<close> of a path that may be \<^verbatim>\<open>None\<close>.\<close>

definition str_of_path :: "path option \<Rightarrow> string" where
  "str_of_path p = (case p of None \<Rightarrow> ''None'' | Some d \<Rightarrow> d)"

section \<open>The process lifecycle manager\<close>

text \<open>The fields of \<^verbatim>\<open>DashdManager\<close>; \<^verbatim>\<open>process\<close> holds the process id of the
  \<^verbatim>\<open>Popen\<close> object.\<close>

record DashdManager =
  dashd_executable :: string
  requested_port :: "int option"
  extra_args :: "string list"
  actual_port :: "int option"
  p2p_port :: "int option"
  temp_dir :: "path option"
  process :: "nat option"
  should_cleanup :: bool

text \<open>\<^verbatim>\<open>DashdManager.__init__\<close>.\<close>

definition DashdManager_init :: "string \<Rightarrow> int option \<Rightarrow> string list \<Rightarrow> DashdManager" where
  "DashdManager_init executable rpc_port_arg extra =
     \<lparr>dashd_executable = executable, requested_port = rpc_port_arg, extra_args = extra,
      actual_port = None, p2p_port = None, temp_dir = None, process = None,
      should_cleanup = True\<rparr>"

text \<open>
  \<^verbatim>\<open>is_port_available\<close>: binding raises \<^verbatim>\<open>OSError\<close> (answer \<^verbatim>\<open>False\<close>) when the
  port is taken, and \<^verbatim>\<open>OverflowError\<close>, which is not caught, for a number that is no
  port.
\<close>

definition is_port_available :: "int \<Rightarrow> os_world \<Rightarrow> (py_exception + bool) \<times> os_world" where
  "is_port_available port w =
     (if port < 0 \<or> 65535 < port then (Inl OverflowError, log_action (ProbePort port) w)
      else (Inr (port_free w port), log_action (ProbePort port) w))"

fun find_free_port_loop :: "int list \<Rightarrow> os_world \<Rightarrow> (py_exception + int option) \<times> os_world" where
  "find_free_port_loop [] w = (Inr None, w)"
| "find_free_port_loop (port # rest) w =
     (case is_port_available port w of
        (Inl e, w') \<Rightarrow> (Inl e, w')
      | (Inr True, w') \<Rightarrow> (Inr (Some port), w')
      | (Inr False, w') \<Rightarrow> find_free_port_loop rest w')"

definition find_free_port :: "int \<Rightarrow> int \<Rightarrow> os_world \<Rightarrow> (py_exception + int) \<times> os_world" where
  "find_free_port start_port max_attempts w =
     (case find_free_port_loop (py_range start_port (start_port + max_attempts) 1) w of
        (Inl e, w') \<Rightarrow> (Inl e, w')
      | (Inr (Some port), w') \<Rightarrow> (Inr port, w')
      | (Inr None, w') \<Rightarrow>
          (Inl (DashdConnectionError
                 (''No free RPC port found in range '' @ str_int start_port @ ''-''
                    @ str_int (start_port + max_attempts - 1))), w'))"

definition verify_dashd_executable :: "DashdManager \<Rightarrow> os_world \<Rightarrow> bool" where
  "verify_dashd_executable self w =
     (if is_absolute (dashd_executable self) then is_executable_file w (dashd_executable self)
      else which w (dashd_executable self) \<noteq> None)"

text \<open>
  \<^verbatim>\<open>DashdManager.stop\<close>.  The \<^verbatim>\<open>finally\<close> clause clears the handle on every path;
  an exception raised by \<^verbatim>\<open>kill(); wait()\<close> inside the handler of the timeout, or one
  that is no \<^verbatim>\<open>Exception\<close>, leaves \<^verbatim>\<open>stop\<close> before the directory is looked at.
\<close>

definition stop_process :: "DashdManager \<Rightarrow> os_world \<Rightarrow> py_exception option \<times> DashdManager \<times> os_world" where
  "stop_process self w =
     (case process self of
        None \<Rightarrow> (None, self, w)
      | Some pid \<Rightarrow>
          (let w1 = log_action (WaitTimeout pid) (log_action (Terminate pid) w);
               cleared = self\<lparr>process := None\<rparr>
           in case graceful_stop w of
                Exited \<Rightarrow> (None, cleared, w1\<lparr>running := running w1 - {pid}\<rparr>)
              | TimeoutExpired \<Rightarrow>
                  (let w2 = log_action (Wait pid) (log_action (Kill pid) w1)
                   in case kill_raises w of
                        None \<Rightarrow> (None, cleared, w2\<lparr>running := running w2 - {pid}\<rparr>)
                      | Some e \<Rightarrow> (Some e, cleared, w2))
              | WaitRaised e \<Rightarrow>
                  (if is_Exception e then None else Some e, cleared, w1)))"

definition cleanup_temp_dir :: "DashdManager \<Rightarrow> os_world \<Rightarrow> py_exception option \<times> DashdManager \<times> os_world" where
  "cleanup_temp_dir self w =
     (case temp_dir self of
        None \<Rightarrow> (None, self, w)
      | Some d \<Rightarrow>
          (if should_cleanup self
           then (case rmtree_ignore_errors d w of
                   (Some e, w') \<Rightarrow> (Some e, self, w')
                 | (None, w') \<Rightarrow> (None, self\<lparr>temp_dir := None\<rparr>, w'))
           else (None, self, w)))"

definition stop :: "DashdManager \<Rightarrow> os_world \<Rightarrow> (py_exception + unit) \<times> DashdManager \<times> os_world" where
  "stop self w =
     (case stop_process self w of
        (Some e, self', w') \<Rightarrow> (Inl e, self', w')
      | (None, self', w') \<Rightarrow>
          (case cleanup_temp_dir self' w' of
             (Some e, self'', w'') \<Rightarrow> (Inl e, self'', w'')
           | (None, self'', w'') \<Rightarrow> (Inr (), self'', w'')))"

text \<open>
  One liveness check of the readiness poll:
  \<^verbatim>\<open>self.process and self.process.poll() is not None\<close>.  A process found exited is
  gone from the running processes.
\<close>

definition poll_process :: "DashdManager \<Rightarrow> os_world \<Rightarrow> (nat \<times> int) option \<times> os_world" where
  "poll_process self w =
     (case process self of
        None \<Rightarrow> (None, w)
      | Some pid \<Rightarrow>
          (case exit_code_at w (clock w) of
             None \<Rightarrow> (None, log_action (Poll pid) w)
           | Some code \<Rightarrow>
               (Some (pid, code), (log_action (Poll pid) w)\<lparr>running := running w - {pid}\<rparr>)))"

lemma clock_poll_process [simp]: "clock (snd (poll_process self w)) = clock w"
  by (simp add: poll_process_def log_action_def split: option.splits)

text \<open>
  The readiness poll of \<^verbatim>\<open>_wait_for_ready\<close>.  \<open>deadline\<close> is the start time plus the
  timeout.  Each round reads the clock, polls the process, then tries the liveness call;
  a failed call is followed by \<^verbatim>\<open>time.sleep(0.5)\<close>.  A process found exited ends the
  poll with \<^verbatim>\<open>False\<close> after its error output was read (and printed).  The clock
  advances by the time the call takes and by the 500 milliseconds of the sleep.  A call
  that raises what is no \<^verbatim>\<open>Exception\<close> leaves the loop with it.
\<close>

function wait_loop ::
  "'e node_rpc \<Rightarrow> DashRPCClient \<Rightarrow> DashdManager \<Rightarrow> nat \<Rightarrow> os_world \<times> 'e
    \<Rightarrow> (py_exception + bool) \<times> os_world \<times> 'e" where
  "wait_loop answers client self deadline (w, env) =
     (if clock w < deadline then
        (case poll_process self w of
           (Some (pid, code), w1) \<Rightarrow> (Inr False, log_action (ReadStderr pid) w1, env)
         | (None, w1) \<Rightarrow>
             (case answers client (Request ''getblockcount'' [] None) env of
                (r, env') \<Rightarrow>
                  (let w2 = (log_action Probe w1)\<lparr>clock := clock w1 + latency_at w1 (clock w1)\<rparr>
                   in case r of
                        Inr v \<Rightarrow> (Inr True, w2, env')
                      | Inl e \<Rightarrow>
                          (if is_Exception e
                           then wait_loop answers client self deadline
                                  ((log_action Sleep w2)\<lparr>clock := clock w2 + 500\<rparr>, env')
                           else (Inl e, w2, env')))))
      else (Inr False, w, env))"
  by pat_completeness auto
termination
proof (relation "measure (\<lambda>(answers, client, self, deadline, w, env). deadline - clock w)")
  show "wf (measure (\<lambda>(answers, client, self, deadline, w, env). deadline - clock w))" by simp
next
  fix answers :: "'e node_rpc" and client self deadline w and env :: 'e
    and x1 w1 r env' w2 e
  assume lt: "clock w < deadline" and poll: "(x1, w1) = poll_process self w"
    and w2: "w2 = (log_action Probe w1)\<lparr>clock := clock w1 + latency_at w1 (clock w1)\<rparr>"
  from poll have "clock w1 = clock w"
    by (metis clock_poll_process snd_conv)
  with lt w2 show "((answers, client, self, deadline, (log_action Sleep w2)\<lparr>clock := clock w2 + 500\<rparr>, env'),
                    (answers, client, self, deadline, w, env))
                   \<in> measure (\<lambda>(answers, client, self, deadline, w, env). deadline - clock w)"
    by (simp add: log_action_def)
qed

declare wait_loop.simps [simp del]

text \<open>\<^verbatim>\<open>_wait_for_ready\<close>: the client of this instance, then the poll.\<close>

definition wait_for_ready ::
  "'e node_rpc \<Rightarrow> DashdManager \<Rightarrow> nat \<Rightarrow> os_world \<times> 'e
    \<Rightarrow> (py_exception + bool) \<times> os_world \<times> 'e" where
  "wait_for_ready answers self timeout_seconds we =
     (let dashcli = (if is_absolute (dashd_executable self)
                     then path_join (path_parent (dashd_executable self)) ''dash-cli''
                     else ''dash-cli'');
          client = \<lparr>client_dashcli_path = dashcli,
                    datadir = Some (str_of_path (temp_dir self)),
                    client_rpc_port = actual_port self\<rparr>
      in wait_loop answers client self (clock (fst we) + 1000 * timeout_seconds) we)"

text \<open>The port for the control interface, as \<^verbatim>\<open>start\<close> determines it: a requested
  port that is not zero must be free, otherwise the first free port from 19998.\<close>

definition resolve_rpc_port :: "DashdManager \<Rightarrow> os_world \<Rightarrow> (py_exception + int) \<times> os_world" where
  "resolve_rpc_port self w =
     (case requested_port self of
        None \<Rightarrow> find_free_port 19998 20 w
      | Some port \<Rightarrow>
          (if port = 0 then find_free_port 19998 20 w
           else (case is_port_available port w of
                   (Inl e, w') \<Rightarrow> (Inl e, w')
                 | (Inr False, w') \<Rightarrow>
                     (Inl (DashdConnectionError
                            (''Requested RPC port '' @ str_int port @ '' is not available'')), w')
                 | (Inr True, w') \<Rightarrow> (Inr port, w'))))"

definition dashd_command :: "DashdManager \<Rightarrow> string list" where
  "dashd_command self =
     [dashd_executable self,
      ''-regtest'',
      ''-datadir='' @ str_of_path (temp_dir self),
      ''-port='' @ (case p2p_port self of None \<Rightarrow> ''None'' | Some p \<Rightarrow> str_int p),
      ''-rpcport='' @ (case actual_port self of None \<Rightarrow> ''None'' | Some p \<Rightarrow> str_int p),
      ''-server=1'',
      ''-daemon=0'',
      ''-fallbackfee=0.00001'',
      ''-rpcbind=127.0.0.1'',
      ''-rpcallowip=127.0.0.1'',
      ''-listen=1'',
      ''-txindex=0'',
      ''-addressindex=0'',
      ''-spentindex=0'',
      ''-timestampindex=0''] @ extra_args self"

definition startup_failed :: py_exception where
  "startup_failed =
     DashdConnectionError ''dashd failed to start within 30 seconds. Check dashd installation.''"

text \<open>
  The end of \<^verbatim>\<open>start\<close>, once the process is launched: wait for readiness; when the
  poll answers \<^verbatim>\<open>False\<close>, stop and raise.
\<close>

definition await_ready ::
  "'e node_rpc \<Rightarrow> DashdManager \<Rightarrow> os_world \<times> 'e
    \<Rightarrow> (py_exception + int option \<times> path option) \<times> DashdManager \<times> os_world \<times> 'e" where
  "await_ready answers self we =
     (case wait_for_ready answers self 30 we of
        (Inl e, w', env') \<Rightarrow> (Inl e, self, w', env')
      | (Inr True, w', env') \<Rightarrow>
          (Inr (actual_port self, temp_dir self), self, w', env')
      | (Inr False, w', env') \<Rightarrow>
          (case stop self w' of
             (Inl e, self', w'') \<Rightarrow> (Inl e, self', w'', env')
           | (Inr u, self', w'') \<Rightarrow> (Inl startup_failed, self', w'', env')))"

text \<open>
  \<^verbatim>\<open>DashdManager.start\<close>.  \<^verbatim>\<open>mkdtemp\<close> and \<^verbatim>\<open>mkdir\<close> are taken to succeed;
  \<^verbatim>\<open>Popen\<close> succeeds or raises \<^verbatim>\<open>FileNotFoundError\<close>.
\<close>

definition launch ::
  "'e node_rpc \<Rightarrow> bool \<Rightarrow> DashdManager \<Rightarrow> os_world \<times> 'e
    \<Rightarrow> (py_exception + int option \<times> path option) \<times> DashdManager \<times> os_world \<times> 'e" where
  "launch answers keep_temp_arg self we =
     (let w = fst we; env = snd we;
          d = mkdtemp_result w;
          w1 = (log_action (Mkdtemp d) w)\<lparr>dirs := insert d (dirs w)\<rparr>;
          self1 = self\<lparr>temp_dir := Some d, should_cleanup := \<not> keep_temp_arg\<rparr>;
          regtest_dir = path_join d ''regtest'';
          w2 = (log_action (Mkdir regtest_dir) w1)\<lparr>dirs := insert regtest_dir (dirs w1)\<rparr>;
          cmd = dashd_command self1;
          w3 = log_action (Popen cmd d) w2
      in case popen_result w of
           None \<Rightarrow>
             (Inl (DashdConnectionError
                    (''Failed to execute dashd: '' @ dashd_executable self
                       @ [CHR 0x0A] @ ''Please check the path or install Dash Core'')),
              self1, w3, env)
         | Some pid \<Rightarrow>
             await_ready answers (self1\<lparr>process := Some pid\<rparr>)
               ((log_action AtexitRegister w3)
                  \<lparr>running := insert pid (running w3), atexit_hooks := atexit_hooks w3 + 1\<rparr>,
                env))"

definition start ::
  "'e node_rpc \<Rightarrow> bool \<Rightarrow> DashdManager \<Rightarrow> os_world \<times> 'e
    \<Rightarrow> (py_exception + int option \<times> path option) \<times> DashdManager \<times> os_world \<times> 'e" where
  "start answers keep_temp_arg self we =
     (let w = fst we; env = snd we
      in if \<not> verify_dashd_executable self w
         then (Inl (DashdConnectionError
                     (''dashd executable not found or not runnable: '' @ dashd_executable self
                        @ [CHR 0x0A]
                        @ ''Please ensure dashd is installed and accessible, or use --dashd-path to specify location'')),
               self, w, env)
         else (case resolve_rpc_port self w of
                 (Inl e, w1) \<Rightarrow> (Inl e, self, w1, env)
               | (Inr port, w1) \<Rightarrow>
                   (case find_free_port (port + 1) 20 w1 of
                      (Inl e, w2) \<Rightarrow> (Inl e, self\<lparr>actual_port := Some port\<rparr>, w2, env)
                    | (Inr p2p, w2) \<Rightarrow>
                        launch answers keep_temp_arg
                          (self\<lparr>actual_port := Some port, p2p_port := Some p2p\<rparr>) (w2, env))))"

section \<open>The generator object and its environment\<close>

record Config =
  target_blocks :: int
  dashcli_path :: string
  config_dashd_executable :: string
  auto_start_dashd :: bool
  dashd_datadir :: "string option"
  dashd_wallet :: string
  rpc_port :: "int option"
  output_base :: string
  extra_dashd_args :: "string list"

text \<open>One entry of \<^verbatim>\<open>self.wallets\<close>: a dictionary with these seven keys; an entry of
  its \<^verbatim>\<open>addresses\<close> is the pair of \<^verbatim>\<open>address\<close> and \<^verbatim>\<open>index\<close>.\<close>

record wallet_record =
  wallet_name :: string
  mnemonic :: json
  addresses :: "(json \<times> int) list"
  tier :: string
  transactions :: "json list"
  utxos :: "json list"
  balance :: json

text \<open>The dictionary \<^verbatim>\<open>self.stats\<close>.\<close>

record stats_record =
  blocks_generated :: int
  transactions_created :: int
  coinbase_rewards :: int
  utxo_replenishments :: int

text \<open>
  What the run leaves behind for the proofs: every request sent through the generator's
  client, in order, and, each time the code reads \<^verbatim>\<open>self.wallet_addresses[i]\<close>, the
  index and the address it got.
\<close>

datatype event = Call rpc_request | Resolved int json

text \<open>
  The state of a run: the fields of \<^verbatim>\<open>Generator\<close> and of \<^verbatim>\<open>WalletSyncGenerator\<close>
  (\<^verbatim>\<open>self.config\<close> is mutable and shared with nobody else; Python's \<^verbatim>\<open>None\<close>
  as a value is \<open>JNull\<close>), then the world outside
  the object: the operating system, the files written, the state of the environment with
  the function that answers the requests and the one that draws
  \<^verbatim>\<open>random.random() < 0.01\<close>, and the record of events.
\<close>

record 'e Generator =
  config :: Config
  keep_temp :: bool
  dashd_manager :: "DashdManager option"
  rpc :: "DashRPCClient option"
  wallets :: "wallet_record list"
  utxo_count :: int
  output_dir :: "path option"
  mining_address :: json
  stats :: stats_record
  wallet_addresses :: "int \<rightharpoonup> json"
  os_state :: os_world
  files_written :: "path \<rightharpoonup> json"
  node_state :: 'e
  node_answers :: "'e node_rpc"
  random_below :: "'e \<Rightarrow> bool \<times> 'e"
  events :: "event list"

text \<open>\<^verbatim>\<open>Generator.__init__\<close> and \<^verbatim>\<open>WalletSyncGenerator.__init__\<close>, in a given world.\<close>

definition Generator_init ::
  "Config \<Rightarrow> bool \<Rightarrow> os_world \<Rightarrow> 'e \<Rightarrow> 'e node_rpc \<Rightarrow> ('e \<Rightarrow> bool \<times> 'e) \<Rightarrow> 'e Generator" where
  "Generator_init cfg keep w e answers draw =
     \<lparr>config = cfg, keep_temp = keep, dashd_manager = None, rpc = None, wallets = [],
      utxo_count = 0, output_dir = None, mining_address = JNull,
      stats = \<lparr>blocks_generated = 0, transactions_created = 0, coinbase_rewards = 0,
               utxo_replenishments = 0\<rparr>,
      wallet_addresses = Map.empty, os_state = w, files_written = Map.empty,
      node_state = e, node_answers = answers, random_below = draw, events = []\<rparr>"

subsection \<open>Statements that may raise\<close>

text \<open>
  A method is a function from the state to an outcome, a value or a raised exception, and
  the state it leaves; what was done before an exception stays done.
\<close>

type_synonym ('e, 'a) stmt = "'e Generator \<Rightarrow> (py_exception + 'a) \<times> 'e Generator"

definition ret :: "'a \<Rightarrow> ('e, 'a) stmt" where
  "ret x = (\<lambda>s. (Inr x, s))"

definition raise :: "py_exception \<Rightarrow> ('e, 'a) stmt" where
  "raise e = (\<lambda>s. (Inl e, s))"

definition bnd :: "('e, 'a) stmt \<Rightarrow> ('a \<Rightarrow> ('e, 'b) stmt) \<Rightarrow> ('e, 'b) stmt" where
  "bnd m f = (\<lambda>s. case m s of (Inl e, s') \<Rightarrow> (Inl e, s') | (Inr x, s') \<Rightarrow> f x s')"

definition lift :: "py_exception + 'a \<Rightarrow> ('e, 'a) stmt" where
  "lift r = (\<lambda>s. (r, s))"

definition modify :: "('e Generator \<Rightarrow> 'e Generator) \<Rightarrow> ('e, unit) stmt" where
  "modify f = (\<lambda>s. (Inr (), f s))"

definition reads :: "('e Generator \<Rightarrow> 'a) \<Rightarrow> ('e, 'a) stmt" where
  "reads f = (\<lambda>s. (Inr (f s), s))"

text \<open>Statements one after the other.\<close>

fun seq :: "('e, unit) stmt list \<Rightarrow> ('e, unit) stmt" where
  "seq [] = ret ()"
| "seq (m # ms) = bnd m (\<lambda>u. seq ms)"

text \<open>\<^verbatim>\<open>try: m except C as e: handler(e)\<close> for the exceptions of class \<open>C\<close>.\<close>

definition try_except ::
  "('e, 'a) stmt \<Rightarrow> (py_exception \<Rightarrow> bool) \<Rightarrow> (py_exception \<Rightarrow> ('e, 'a) stmt)
    \<Rightarrow> ('e, 'a) stmt" where
  "try_except m caught handler =
     (\<lambda>s. case m s of
             (Inl e, s') \<Rightarrow> (if caught e then handler e s' else (Inl e, s'))
           | (Inr x, s') \<Rightarrow> (Inr x, s'))"

text \<open>\<^verbatim>\<open>try: m finally: c\<close>: an exception of the cleanup replaces the outcome.\<close>

definition try_finally :: "('e, 'a) stmt \<Rightarrow> ('e, unit) stmt \<Rightarrow> ('e, 'a) stmt" where
  "try_finally m c =
     (\<lambda>s. case m s of
             (r, s') \<Rightarrow> (case c s' of (Inl e, s'') \<Rightarrow> (Inl e, s'') | (Inr u, s'') \<Rightarrow> (r, s'')))"

fun is_RPCError :: "py_exception \<Rightarrow> bool" where
  "is_RPCError (RPCError m) = True"
| "is_RPCError _ = False"

fun is_DashdConnectionError :: "py_exception \<Rightarrow> bool" where
  "is_DashdConnectionError (DashdConnectionError m) = True"
| "is_DashdConnectionError _ = False"

fun is_KeyboardInterrupt :: "py_exception \<Rightarrow> bool" where
  "is_KeyboardInterrupt KeyboardInterrupt = True"
| "is_KeyboardInterrupt _ = False"

subsection \<open>Calls of the command client\<close>

text \<open>\<^verbatim>\<open>client.call(name, *args, wallet=w)\<close>: the environment answers and moves on.\<close>

definition call :: "DashRPCClient \<Rightarrow> string \<Rightarrow> json list \<Rightarrow> string option \<Rightarrow> ('e, json) stmt" where
  "call client name args wallet =
     (\<lambda>s. case node_answers s client (Request name args wallet) (node_state s) of
             (r, e') \<Rightarrow>
               (r, s\<lparr>node_state := e', events := events s @ [Call (Request name args wallet)]\<rparr>))"

text \<open>\<^verbatim>\<open>self.rpc.call(...)\<close>; without a client the attribute access fails.\<close>

definition rpc_call :: "string \<Rightarrow> json list \<Rightarrow> string option \<Rightarrow> ('e, json) stmt" where
  "rpc_call name args wallet =
     (\<lambda>s. case rpc s of
             None \<Rightarrow> (Inl AttributeError, s)
           | Some client \<Rightarrow> call client name args wallet s)"

text \<open>\<^verbatim>\<open>self.wallet_addresses[i]\<close>.\<close>

definition lookup_address :: "int \<Rightarrow> ('e, json) stmt" where
  "lookup_address i =
     (\<lambda>s. case wallet_addresses s i of
             None \<Rightarrow> (Inl (KeyError (str_int i)), s)
           | Some a \<Rightarrow> (Inr a, s\<lparr>events := events s @ [Resolved i a]\<rparr>))"

text \<open>\<^verbatim>\<open>self.stats[key] += n\<close> for the two counters the phases touch.\<close>

definition add_transactions_created :: "int \<Rightarrow> ('e, unit) stmt" where
  "add_transactions_created n =
     modify (\<lambda>s. s\<lparr>stats := (stats s)\<lparr>transactions_created := transactions_created (stats s) + n\<rparr>\<rparr>)"

definition add_coinbase_rewards :: "int \<Rightarrow> ('e, unit) stmt" where
  "add_coinbase_rewards n =
     modify (\<lambda>s. s\<lparr>stats := (stats s)\<lparr>coinbase_rewards := coinbase_rewards (stats s) + n\<rparr>\<rparr>)"

section \<open>Wallet statistics\<close>

text \<open>Sequencing of computations that may raise but have no state.\<close>

definition and_then :: "py_exception + 'a \<Rightarrow> ('a \<Rightarrow> py_exception + 'b) \<Rightarrow> py_exception + 'b" where
  "and_then r f = (case r of Inl e \<Rightarrow> Inl e | Inr x \<Rightarrow> f x)"

text \<open>A comprehension \<^verbatim>\<open>[f(x) for x in xs]\<close>: the first element that raises ends it.\<close>

fun map_raising :: "('a \<Rightarrow> py_exception + 'b) \<Rightarrow> 'a list \<Rightarrow> py_exception + 'b list" where
  "map_raising f [] = Inr []"
| "map_raising f (x # xs) =
     (case f x of
        Inl e \<Rightarrow> Inl e
      | Inr y \<Rightarrow> (case map_raising f xs of Inl e \<Rightarrow> Inl e | Inr ys \<Rightarrow> Inr (y # ys)))"

text \<open>The dictionaries \<^verbatim>\<open>collect_wallet_stats\<close> builds for a transaction and for an
  unspent output; the entries are evaluated in the order written.\<close>

definition transaction_entry :: "json \<Rightarrow> py_exception + json" where
  "transaction_entry tx =
     and_then (py_getitem tx ''txid'') (\<lambda>txid.
     and_then (py_get tx ''address'' (JStr [])) (\<lambda>address.
     and_then (py_getitem tx ''amount'') (\<lambda>amount.
     and_then (py_get tx ''confirmations'' (JNum 0)) (\<lambda>confirmations.
     and_then (py_get tx ''blockhash'' (JStr [])) (\<lambda>blockhash.
     and_then (py_get tx ''time'' (JNum 0)) (\<lambda>time.
       Inr (JDict [(''txid'', txid), (''address'', address), (''amount'', amount),
                   (''confirmations'', confirmations), (''blockhash'', blockhash),
                   (''time'', time)])))))))"

definition utxo_entry :: "json \<Rightarrow> py_exception + json" where
  "utxo_entry u =
     and_then (py_getitem u ''txid'') (\<lambda>txid.
     and_then (py_getitem u ''vout'') (\<lambda>vout.
     and_then (py_get u ''address'' JNull) (\<lambda>address.
     and_then (py_getitem u ''amount'') (\<lambda>amount.
     and_then (py_get u ''confirmations'' (JNum 0)) (\<lambda>confirmations.
       Inr (JDict [(''txid'', txid), (''vout'', vout), (''address'', address),
                   (''amount'', amount), (''confirmations'', confirmations)]))))))"

text \<open>\<^verbatim>\<open>sum(u["amount"] for u in wallet_utxos)\<close>, element by element from 0.\<close>

fun sum_amounts :: "rat \<Rightarrow> json list \<Rightarrow> py_exception + rat" where
  "sum_amounts acc [] = Inr acc"
| "sum_amounts acc (u # us) =
     (case py_getitem u ''amount'' of
        Inl e \<Rightarrow> Inl e
      | Inr a \<Rightarrow> (case py_number a of Inl e \<Rightarrow> Inl e | Inr r \<Rightarrow> sum_amounts (acc + r) us))"

text \<open>The dictionary \<^verbatim>\<open>collect_wallet_stats\<close> returns.\<close>

record wallet_stats =
  stats_wallet_name :: string
  stats_mnemonic :: json
  stats_transactions :: "json list"
  stats_utxos :: "json list"
  stats_balance :: json

text \<open>The three \<^verbatim>\<open>try\<close> blocks of \<^verbatim>\<open>collect_wallet_stats\<close>, each catching
  \<^verbatim>\<open>RPCError\<close> only, and the function itself.\<close>

definition collect_transactions :: "DashRPCClient \<Rightarrow> string \<Rightarrow> ('e, json list) stmt" where
  "collect_transactions client name =
     try_except
       (bnd (call client ''listtransactions''
               [JStr ''*'', JNum 999999999, JNum 0, JBool True] (Some name))
          (\<lambda>txs. lift (and_then (py_iter txs) (map_raising transaction_entry))))
       is_RPCError (\<lambda>e. ret [])"

definition collect_utxos :: "DashRPCClient \<Rightarrow> string \<Rightarrow> ('e, json list \<times> json) stmt" where
  "collect_utxos client name =
     try_except
       (bnd (call client ''listunspent'' [JNum 1, JNum 9999999, JList []] (Some name))
          (\<lambda>wallet_utxos. lift
             (and_then (py_iter wallet_utxos) (\<lambda>us.
              and_then (map_raising utxo_entry us) (\<lambda>entries.
              and_then (sum_amounts 0 us) (\<lambda>total. Inr (entries, JNum total)))))))
       is_RPCError (\<lambda>e. ret ([], JNum 0))"

definition collect_mnemonic :: "DashRPCClient \<Rightarrow> string \<Rightarrow> ('e, json) stmt" where
  "collect_mnemonic client name =
     try_except
       (bnd (call client ''dumphdinfo'' [] (Some name))
          (\<lambda>hd_info. lift (py_get hd_info ''mnemonic'' (JStr []))))
       is_RPCError (\<lambda>e. ret (JStr []))"

definition collect_wallet_stats :: "DashRPCClient \<Rightarrow> string \<Rightarrow> ('e, wallet_stats) stmt" where
  "collect_wallet_stats client name =
     bnd (collect_transactions client name) (\<lambda>txs.
     bnd (collect_utxos client name) (\<lambda>found.
     bnd (collect_mnemonic client name) (\<lambda>words.
       ret \<lparr>stats_wallet_name = name, stats_mnemonic = words, stats_transactions = txs,
            stats_utxos = fst found, stats_balance = snd found\<rparr>)))"

text \<open>Whether a value can be a member of a \<^verbatim>\<open>set\<close>, and Python's truth value of it.\<close>

fun py_hashable :: "json \<Rightarrow> bool" where
  "py_hashable (JList xs) = False"
| "py_hashable (JDict kvs) = False"
| "py_hashable _ = True"

fun py_truthy :: "json \<Rightarrow> bool" where
  "py_truthy JNull = False"
| "py_truthy (JBool b) = b"
| "py_truthy (JNum r) = (r \<noteq> 0)"
| "py_truthy (JStr s) = (s \<noteq> [])"
| "py_truthy (JList xs) = (xs \<noteq> [])"
| "py_truthy (JDict kvs) = (kvs \<noteq> [])"

text \<open>
  \<^verbatim>\<open>save_wallet_file\<close>: the document written for a wallet entry.  The file itself is
  recorded under its path; that \<^verbatim>\<open>open\<close> can fail is not modelled.
\<close>

definition export_document :: "wallet_record \<Rightarrow> py_exception + json" where
  "export_document wallet_data =
     and_then (map_raising (\<lambda>tx. py_getitem tx ''txid'') (transactions wallet_data)) (\<lambda>txids.
       if list_all py_hashable txids
       then Inr (JDict
              [(''wallet_name'', JStr (wallet_name wallet_data)),
               (''mnemonic'', mnemonic wallet_data),
               (''balance'', balance wallet_data),
               (''transaction_count'', JNum (of_nat (length (transactions wallet_data)))),
               (''unique_transaction_count'', JNum (of_nat (length (remdups txids)))),
               (''utxo_count'', JNum (of_nat (length (utxos wallet_data)))),
               (''transactions'', JList (transactions wallet_data)),
               (''utxos'', JList (utxos wallet_data))])
       else Inl TypeError)"

definition save_wallet_file :: "wallet_record \<Rightarrow> path \<Rightarrow> ('e, unit) stmt" where
  "save_wallet_file wallet_data output_path =
     bnd (lift (export_document wallet_data)) (\<lambda>doc.
       modify (\<lambda>s. s\<lparr>files_written := (files_written s)(output_path \<mapsto> doc)\<rparr>))"

section \<open>Setup and the first phases\<close>

definition WALLET_NAME :: string where
  "WALLET_NAME = ''wallet''"

definition NUM_ADDRESSES :: int where
  "NUM_ADDRESSES = 50"

text \<open>\<^verbatim>\<open>self.config.dashd_wallet\<close>, the name of the faucet wallet.\<close>

definition faucet :: "'e Generator \<Rightarrow> string option" where
  "faucet s = Some (dashd_wallet (config s))"

text \<open>A call whose result is not used.\<close>

definition rpc_do :: "string \<Rightarrow> json list \<Rightarrow> string option \<Rightarrow> ('e, unit) stmt" where
  "rpc_do name args wallet = bnd (rpc_call name args wallet) (\<lambda>r. ret ())"

text \<open>\<^verbatim>\<open>Generator._ensure_dashd_running\<close>: the manager is stored in the generator
  before it is started, so it is there whatever \<^verbatim>\<open>start\<close> does.\<close>

definition ensure_dashd_running :: "('e, unit) stmt" where
  "ensure_dashd_running =
     (\<lambda>s. if \<not> auto_start_dashd (config s) then (Inr (), s)
          else (case start (node_answers s) (keep_temp s)
                       (DashdManager_init (config_dashd_executable (config s))
                          (rpc_port (config s)) (extra_dashd_args (config s)))
                       (os_state s, node_state s) of
                  (Inl e, mgr, w, e') \<Rightarrow>
                    (Inl e, s\<lparr>dashd_manager := Some mgr, os_state := w, node_state := e'\<rparr>)
                | (Inr (port, dir), mgr, w, e') \<Rightarrow>
                    (Inr (), s\<lparr>dashd_manager := Some mgr, os_state := w, node_state := e',
                               config := (config s)\<lparr>rpc_port := port,
                                 dashd_datadir := Some (str_of_path dir)\<rparr>\<rparr>)))"

text \<open>\<^verbatim>\<open>Generator._initialize_rpc_client\<close>.\<close>

definition initialize_rpc_client :: "('e, unit) stmt" where
  "initialize_rpc_client =
     modify (\<lambda>s. s\<lparr>rpc := Some \<lparr>client_dashcli_path = dashcli_path (config s),
                                  datadir = dashd_datadir (config s),
                                  client_rpc_port = rpc_port (config s)\<rparr>\<rparr>)"

text \<open>
  \<^verbatim>\<open>Generator._verify_dashd\<close>.  The handler of the first \<^verbatim>\<open>try\<close> only prints and
  raises again.  The second catches \<^verbatim>\<open>RPCError\<close> and looks into the lowered message;
  \<^verbatim>\<open>x in msg\<close> on strings is \<^const>\<open>sublist\<close>.
\<close>

definition load_wallet_handler :: "py_exception \<Rightarrow> ('e, unit) stmt" where
  "load_wallet_handler e =
     (let error_msg = lower (str_of_exception e)
      in if sublist ''already loaded'' error_msg then ret ()
         else if sublist ''not found'' error_msg \<or> sublist ''does not exist'' error_msg
         then bnd (reads (\<lambda>s. dashd_wallet (config s)))
                (\<lambda>w. rpc_do ''createwallet'' [JStr w] None)
         else raise e)"

definition load_faucet_wallet :: "('e, unit) stmt" where
  "load_faucet_wallet =
     try_except
       (bnd (reads (\<lambda>s. dashd_wallet (config s))) (\<lambda>w. rpc_do ''loadwallet'' [JStr w] None))
       is_RPCError load_wallet_handler"

definition verify_dashd :: "('e, unit) stmt" where
  "verify_dashd = bnd (rpc_call ''getblockcount'' [] None) (\<lambda>block_count. load_faucet_wallet)"

text \<open>
  \<^verbatim>\<open>WalletSyncGenerator._load_addresses\<close>: the placeholder for the faucet, the test
  wallet, its recovery phrase, and the loop that pre-generates the addresses and stores
  each under its index.
\<close>

definition create_wallet_handler :: "py_exception \<Rightarrow> ('e, unit) stmt" where
  "create_wallet_handler e =
     (let error_msg = lower (str_of_exception e)
      in if sublist ''already exists'' error_msg \<or> sublist ''already loaded'' error_msg
         then ret () else raise e)"

definition create_test_wallet :: "('e, unit) stmt" where
  "create_test_wallet =
     try_except (rpc_do ''createwallet'' [JStr WALLET_NAME] None) is_RPCError create_wallet_handler"

fun generate_addresses :: "int list \<Rightarrow> (json \<times> int) list \<Rightarrow> ('e, (json \<times> int) list) stmt" where
  "generate_addresses [] found = ret found"
| "generate_addresses (i # rest) found =
     bnd (rpc_call ''getnewaddress'' [JStr (''addr_'' @ str_int i)] (Some WALLET_NAME))
       (\<lambda>address.
          bnd (modify (\<lambda>s. s\<lparr>wallet_addresses := (wallet_addresses s)(i \<mapsto> address)\<rparr>))
            (\<lambda>u. generate_addresses rest (found @ [(address, i)])))"

definition empty_wallet :: "string \<Rightarrow> json \<Rightarrow> (json \<times> int) list \<Rightarrow> string \<Rightarrow> wallet_record" where
  "empty_wallet name words addrs role =
     \<lparr>wallet_name = name, mnemonic = words, addresses = addrs, tier = role,
      transactions = [], utxos = [], balance = JNum 0\<rparr>"

definition load_addresses :: "('e, unit) stmt" where
  "load_addresses =
     bnd (modify (\<lambda>s. s\<lparr>wallets := wallets s
                         @ [empty_wallet (dashd_wallet (config s)) (JStr []) [] ''faucet'']\<rparr>))
       (\<lambda>u. bnd create_test_wallet
       (\<lambda>u. bnd (rpc_call ''dumphdinfo'' [] (Some WALLET_NAME))
       (\<lambda>hd_info. bnd (lift (py_get hd_info ''mnemonic'' (JStr [])))
       (\<lambda>words. bnd (generate_addresses (py_range 0 NUM_ADDRESSES 1) [])
       (\<lambda>found. modify (\<lambda>s. s\<lparr>wallets := wallets s
                                 @ [empty_wallet WALLET_NAME words found ''test'']\<rparr>))))))"

text \<open>
  A dictionary of recipients, from address to amount, in the order of insertion.  An
  address has to be a string here: another value as a key is taken to raise
  \<^verbatim>\<open>TypeError\<close>.
\<close>

definition add_recipient ::
  "json \<Rightarrow> rat \<Rightarrow> (string \<times> json) list \<Rightarrow> py_exception + (string \<times> json) list" where
  "add_recipient address amount recipients =
     (case address of
        JStr a \<Rightarrow> Inr (AList.update a (JNum amount) recipients)
      | _ \<Rightarrow> Inl TypeError)"

text \<open>\<^verbatim>\<open>WalletSyncGenerator._initialize_utxo_pool\<close>.\<close>

fun faucet_recipients :: "int list \<Rightarrow> (string \<times> json) list \<Rightarrow> ('e, (string \<times> json) list) stmt" where
  "faucet_recipients [] recipients = ret recipients"
| "faucet_recipients (i # rest) recipients =
     bnd (reads faucet) (\<lambda>w. bnd (rpc_call ''getnewaddress'' [] w)
       (\<lambda>addr. bnd (lift (add_recipient addr 10.0 recipients))
       (\<lambda>recipients'. faucet_recipients rest recipients')))"

definition initialize_utxo_pool :: "('e, unit) stmt" where
  "initialize_utxo_pool =
     bnd (reads faucet) (\<lambda>w.
     bnd (rpc_call ''getnewaddress'' [] w) (\<lambda>address.
     bnd (modify (\<lambda>s. s\<lparr>mining_address := address\<rparr>)) (\<lambda>u.
     bnd (rpc_do ''generatetoaddress'' [JNum 110, address] None) (\<lambda>u.
     bnd (rpc_call ''getblockcount'' [] None) (\<lambda>current_height.
     bnd (faucet_recipients (py_range 0 50 1) []) (\<lambda>recipients.
     bnd (rpc_do ''sendmany'' [JStr [], JDict recipients] w) (\<lambda>u.
     bnd (reads mining_address) (\<lambda>address'.
     bnd (rpc_do ''generatetoaddress'' [JNum 1, address'] None) (\<lambda>u.
     bnd (rpc_call ''listunspent'' [JNum 1] w) (\<lambda>unspent.
     bnd (lift (py_len unspent)) (\<lambda>utxo_count. ret ())))))))))))"

text \<open>
  \<^verbatim>\<open>_send_to_wallet\<close>, \<^verbatim>\<open>_mine_blocks\<close> and \<^verbatim>\<open>_mine_and_log\<close>.  The description
  of a send is only printed and is left out.
\<close>

definition send_to_wallet :: "int \<Rightarrow> rat \<Rightarrow> ('e, unit) stmt" where
  "send_to_wallet index amount =
     bnd (lookup_address index) (\<lambda>address.
     bnd (reads faucet) (\<lambda>w.
     bnd (rpc_do ''sendtoaddress'' [address, JNum amount] w) (\<lambda>u.
       add_transactions_created 1)))"

definition mine_blocks :: "int \<Rightarrow> json \<Rightarrow> ('e, unit) stmt" where
  "mine_blocks count address =
     bnd (if address = JNull then reads mining_address else ret address)
       (\<lambda>a. rpc_do ''generatetoaddress'' [JNum (of_int count), a] None)"

definition mine_and_log :: "int \<Rightarrow> ('e, unit) stmt" where
  "mine_and_log count =
     bnd (mine_blocks count JNull) (\<lambda>u. rpc_do ''getblockcount'' [] None)"

text \<open>Phase 2, \<^verbatim>\<open>_phase_normal_activity\<close>.\<close>

definition sendmany_recipients :: "('e, (string \<times> json) list) stmt" where
  "sendmany_recipients =
     bnd (lookup_address 3) (\<lambda>a3.
     bnd (lift (add_recipient a3 0.1 [])) (\<lambda>r1.
     bnd (lookup_address 7) (\<lambda>a7.
     bnd (lift (add_recipient a7 0.2 r1)) (\<lambda>r2.
     bnd (lookup_address 14) (\<lambda>a14.
       lift (add_recipient a14 0.3 r2))))))"

definition phase_normal_activity :: "('e, unit) stmt" where
  "phase_normal_activity =
     seq [send_to_wallet 0 0.00001,
          mine_blocks 2 JNull,
          send_to_wallet 2 0.05,
          send_to_wallet 5 0.5,
          mine_blocks 2 JNull,
          send_to_wallet 8 1.0,
          send_to_wallet 12 2.5,
          mine_blocks 2 JNull,
          send_to_wallet 15 100.0,
          send_to_wallet 20 0.1,
          mine_blocks 2 JNull,
          send_to_wallet 5 0.25,
          mine_blocks 1 JNull,
          bnd sendmany_recipients (\<lambda>recipients.
            bnd (reads faucet) (\<lambda>w. rpc_do ''sendmany'' [JStr [], JDict recipients] w)),
          add_transactions_created 1,
          mine_blocks 1 JNull,
          mine_and_log 10,
          rpc_do ''getblockcount'' [] None]"

text \<open>Phase 3, \<^verbatim>\<open>_phase_gap_limit_boundary\<close>, and phase 4,
  \<^verbatim>\<open>_phase_beyond_gap_limit\<close>.\<close>

definition phase_gap_limit_boundary :: "('e, unit) stmt" where
  "phase_gap_limit_boundary =
     seq [send_to_wallet 27 0.3,
          mine_blocks 3 JNull,
          send_to_wallet 28 0.4,
          mine_blocks 3 JNull,
          send_to_wallet 29 0.5,
          mine_blocks 3 JNull,
          mine_and_log 10,
          rpc_do ''getblockcount'' [] None]"

definition phase_beyond_gap_limit :: "('e, unit) stmt" where
  "phase_beyond_gap_limit =
     seq [send_to_wallet 32 0.6,
          mine_blocks 5 JNull,
          send_to_wallet 35 0.7,
          mine_blocks 5 JNull,
          mine_and_log 10,
          rpc_do ''getblockcount'' [] None]"

section \<open>Transaction variety and bulk generation\<close>

text \<open>\<^verbatim>\<open>round(x, 8)\<close> on the exact value, halves rounded up (Python rounds the
  float).\<close>

definition py_round8 :: "rat \<Rightarrow> rat" where
  "py_round8 x = of_int \<lfloor>x * 100000000 + 1 / 2\<rfloor> / 100000000"

text \<open>
  The consolidation of phase 5: with at least two unspent outputs, the two of the smallest
  amount (\<^verbatim>\<open>sorted\<close> is stable, as \<^const>\<open>sort_key\<close>) are merged by a raw transaction
  when their sum exceeds the fee.
\<close>

definition amount_key :: "json \<Rightarrow> py_exception + rat" where
  "amount_key u = and_then (py_getitem u ''amount'') py_number"

definition outpoint :: "json \<Rightarrow> py_exception + json" where
  "outpoint u =
     and_then (py_getitem u ''txid'') (\<lambda>txid.
     and_then (py_getitem u ''vout'') (\<lambda>vout.
       Inr (JDict [(''txid'', txid), (''vout'', vout)])))"

definition broadcast_consolidation :: "json list \<Rightarrow> rat \<Rightarrow> ('e, unit) stmt" where
  "broadcast_consolidation selected amount =
     bnd (lift (map_raising outpoint selected)) (\<lambda>inputs.
     bnd (rpc_call ''getnewaddress'' [] (Some WALLET_NAME)) (\<lambda>dest.
     bnd (lift (add_recipient dest (py_round8 amount) [])) (\<lambda>outputs.
     bnd (rpc_call ''createrawtransaction'' [JList inputs, JDict outputs] None) (\<lambda>raw_tx.
     bnd (rpc_call ''signrawtransactionwithwallet'' [raw_tx] (Some WALLET_NAME)) (\<lambda>signed.
     bnd (lift (py_get signed ''complete'' (JBool False))) (\<lambda>complete.
       if py_truthy complete
       then bnd (lift (py_getitem signed ''hex'')) (\<lambda>hex.
            bnd (rpc_do ''sendrawtransaction'' [hex] None) (\<lambda>u.
              add_transactions_created 1))
       else ret ()))))))"

definition consolidate :: "('e, unit) stmt" where
  "consolidate =
     bnd (rpc_call ''listunspent'' [JNum 1, JNum 9999999, JList []] (Some WALLET_NAME))
       (\<lambda>wallet_utxos.
     bnd (lift (py_len wallet_utxos)) (\<lambda>n.
       if n \<ge> 2
       then bnd (lift (py_iter wallet_utxos)) (\<lambda>us.
            bnd (lift (map_raising amount_key us)) (\<lambda>keys.
            bnd (ret (take 2 (map fst (sort_key snd (zip us keys))))) (\<lambda>selected.
            bnd (lift (sum_amounts 0 selected)) (\<lambda>tot.
              if tot > 0.0001 then broadcast_consolidation selected (tot - 0.0001)
              else ret ()))))
       else ret ()))"

text \<open>Phase 5, \<^verbatim>\<open>_phase_transaction_variety\<close>: both \<^verbatim>\<open>try\<close> blocks catch
  \<^verbatim>\<open>RPCError\<close> and go on.\<close>

definition spend_from_wallet :: "('e, unit) stmt" where
  "spend_from_wallet =
     bnd (reads faucet) (\<lambda>w.
     bnd (rpc_call ''getnewaddress'' [] w) (\<lambda>faucet_addr.
       try_except
         (bnd (rpc_do ''sendtoaddress'' [faucet_addr, JNum 1.0] (Some WALLET_NAME))
            (\<lambda>u. add_transactions_created 1))
         is_RPCError (\<lambda>e. ret ())))"

definition phase_transaction_variety :: "('e, unit) stmt" where
  "phase_transaction_variety =
     seq [send_to_wallet 0 5.0,
          mine_blocks 1 JNull,
          spend_from_wallet,
          mine_blocks 3 JNull,
          try_except consolidate is_RPCError (\<lambda>e. ret ()),
          mine_blocks 3 JNull,
          mine_and_log 10,
          rpc_do ''getblockcount'' [] None]"

subsection \<open>Phase 6: the bulk loop\<close>

text \<open>The variables of \<^verbatim>\<open>_phase_bulk_generation\<close> that the loop changes.\<close>

record bulk_locals =
  current_height :: int
  batch_boundaries :: "int list"
  boundary_addr_index :: int
  next_periodic_height :: int
  periodic_counter :: nat

definition periodic_addresses :: "int list" where
  "periodic_addresses = [1, 4, 6, 9, 10, 13, 16, 18, 21, 23, 25, 30, 33, 36, 38]"

definition periodic_amounts :: "rat list" where
  "periodic_amounts =
     [0.02, 0.15, 0.5, 1.0, 0.001, 3.0, 0.08, 0.25, 0.75, 2.0, 0.005, 0.4, 1.5, 0.03, 0.1]"

text \<open>The coinbase windows, relative to the target.\<close>

definition mature_coinbase_start :: "int \<Rightarrow> int" where
  "mature_coinbase_start target = target - 200"

definition mature_coinbase_end :: "int \<Rightarrow> int" where
  "mature_coinbase_end target = target - 101"

definition immature_coinbase_start :: "int \<Rightarrow> int" where
  "immature_coinbase_start target = target - 99"

text \<open>
  The height the next batch runs to: the target, or the nearest scheduled boundary above
  the current height, cut back to the start or end of the mature coinbase window or to the
  start of the immature one when that lies ahead and nearer.
\<close>

definition next_important_height :: "int \<Rightarrow> bulk_locals \<Rightarrow> int" where
  "next_important_height target l =
     (let c = current_height l;
          n0 = fold (\<lambda>boundary n. if boundary > c then min n boundary else n)
                 (batch_boundaries l) target;
          n1 = (if c < mature_coinbase_start target \<and> mature_coinbase_start target < n0
                then mature_coinbase_start target else n0);
          n2 = (if c < mature_coinbase_end target \<and> mature_coinbase_end target < n1
                then mature_coinbase_end target else n1);
          n3 = (if c < immature_coinbase_start target \<and> immature_coinbase_start target < n2
                then immature_coinbase_start target else n2)
      in n3)"

definition blocks_to_mine :: "int \<Rightarrow> bulk_locals \<Rightarrow> int" where
  "blocks_to_mine target l =
     max (min (next_important_height target l - current_height l) 500) 1"

text \<open>
  A coinbase window: some blocks (at most five) are mined to the address of index 0 of the
  test wallet and the rest, up to \<open>stop_at\<close>, to the faucet; then the loop continues.
\<close>

definition mine_coinbase_window :: "json \<Rightarrow> int \<Rightarrow> bulk_locals \<Rightarrow> ('e, bulk_locals) stmt" where
  "mine_coinbase_window coinbase_wallet_addr stop_at l =
     (let wallet_blocks = min 5 (stop_at - current_height l)
      in bnd (mine_blocks wallet_blocks coinbase_wallet_addr) (\<lambda>u.
         bnd (add_coinbase_rewards wallet_blocks) (\<lambda>u.
           (let reached = current_height l + wallet_blocks;
                remaining = stop_at - reached
            in if remaining > 0
               then bnd (mine_blocks remaining JNull)
                      (\<lambda>u. ret (l\<lparr>current_height := reached + remaining\<rparr>))
               else ret (l\<lparr>current_height := reached\<rparr>)))))"

text \<open>
  The loop over a copy of the schedule after a normal batch: a boundary at or below the
  current height gets its marker, a send to the next address from index 40 followed by
  one block, while that index is below \<open>NUM_ADDRESSES\<close>; it leaves the schedule either
  way.
\<close>

fun place_boundary_transactions :: "int list \<Rightarrow> bulk_locals \<Rightarrow> ('e, bulk_locals) stmt" where
  "place_boundary_transactions [] l = ret l"
| "place_boundary_transactions (boundary # rest) l =
     (if boundary \<le> current_height l
      then bnd (if boundary_addr_index l < NUM_ADDRESSES
                then bnd (send_to_wallet (boundary_addr_index l) 0.01) (\<lambda>u.
                     bnd (mine_blocks 1 JNull) (\<lambda>u.
                       ret (l\<lparr>current_height := current_height l + 1,
                              boundary_addr_index := boundary_addr_index l + 1\<rparr>)))
                else ret l)
             (\<lambda>l'. place_boundary_transactions rest
                     (l'\<lparr>batch_boundaries := remove1 boundary (batch_boundaries l')\<rparr>))
      else place_boundary_transactions rest l)"

text \<open>The periodic send, about every 1000 blocks; a \<^verbatim>\<open>RPCError\<close> in it is dropped.\<close>

definition periodic_send :: "bulk_locals \<Rightarrow> ('e, bulk_locals) stmt" where
  "periodic_send l =
     (if current_height l \<ge> next_periodic_height l
      then (let idx = periodic_addresses ! (periodic_counter l mod length periodic_addresses);
                amt = periodic_amounts ! (periodic_counter l mod length periodic_amounts)
            in bnd (try_except
                      (bnd (send_to_wallet idx amt) (\<lambda>u.
                       bnd (mine_blocks 1 JNull) (\<lambda>u.
                         ret (l\<lparr>current_height := current_height l + 1\<rparr>))))
                      is_RPCError (\<lambda>e. ret l))
                 (\<lambda>l'. ret (l'\<lparr>periodic_counter := periodic_counter l' + 1,
                               next_periodic_height := current_height l' + 1000\<rparr>)))
      else ret l)"

text \<open>\<^verbatim>\<open>random.random() < 0.01\<close> is drawn from the environment; the self-payment of the
  faucet that follows a hit drops a \<^verbatim>\<open>RPCError\<close> as well.\<close>

definition draw_random :: "('e, bool) stmt" where
  "draw_random = (\<lambda>s. case random_below s (node_state s) of
                        (b, e') \<Rightarrow> (Inr b, s\<lparr>node_state := e'\<rparr>))"

definition faucet_self_send :: "bulk_locals \<Rightarrow> ('e, bulk_locals) stmt" where
  "faucet_self_send l =
     bnd draw_random (\<lambda>hit.
       if hit
       then try_except
              (bnd (reads faucet) (\<lambda>w.
               bnd (rpc_call ''getnewaddress'' [] w) (\<lambda>faucet_addr.
               bnd (rpc_do ''sendtoaddress'' [faucet_addr, JNum 1.0] w) (\<lambda>u.
               bnd (mine_blocks 1 JNull) (\<lambda>u.
                 ret (l\<lparr>current_height := current_height l + 1\<rparr>))))))
              is_RPCError (\<lambda>e. ret l)
       else ret l)"

text \<open>
  One round of the \<^verbatim>\<open>while\<close> loop.  The two coinbase windows end their round with
  \<^verbatim>\<open>continue\<close>; only a normal batch is followed by the boundary markers, the periodic
  send and the self-payment.  The progress report is only printed.
\<close>

definition bulk_round :: "int \<Rightarrow> json \<Rightarrow> bulk_locals \<Rightarrow> ('e, bulk_locals) stmt" where
  "bulk_round target coinbase_wallet_addr l =
     (let n = blocks_to_mine target l;
          batch_end = current_height l + n
      in if mature_coinbase_start target \<le> current_height l
            \<and> current_height l < mature_coinbase_end target
         then mine_coinbase_window coinbase_wallet_addr batch_end l
         else if immature_coinbase_start target \<le> current_height l
         then mine_coinbase_window coinbase_wallet_addr target l
         else bnd (mine_blocks n JNull) (\<lambda>u.
              bnd (place_boundary_transactions (batch_boundaries l)
                     (l\<lparr>current_height := current_height l + n\<rparr>)) (\<lambda>l1.
              bnd (periodic_send l1) (\<lambda>l2.
                faucet_self_send l2))))"

text \<open>
  Every round of the loop raises the current height: each of its three branches mines at
  least one block.  This is what ends the \<^verbatim>\<open>while\<close> loop.
\<close>

lemma mine_coinbase_window_height:
  "mine_coinbase_window addr stop_at l s = (Inr l', s') \<Longrightarrow> current_height l < stop_at \<Longrightarrow>
     current_height l < current_height l'"
  by (auto simp: mine_coinbase_window_def bnd_def ret_def Let_def
           split: sum.splits prod.splits if_splits)

lemma place_boundary_transactions_height:
  "place_boundary_transactions bs l s = (Inr l', s') \<Longrightarrow> current_height l \<le> current_height l'"
proof (induction bs arbitrary: l s)
  case Nil
  then show ?case by (simp add: ret_def)
next
  case (Cons boundary rest)
  show ?case
  proof (cases "boundary \<le> current_height l")
    case False
    with Cons show ?thesis by simp
  next
    case True
    with Cons.prems obtain l1 s1 where
      step: "(if boundary_addr_index l < NUM_ADDRESSES
              then bnd (send_to_wallet (boundary_addr_index l) 0.01) (\<lambda>u.
                   bnd (mine_blocks 1 JNull) (\<lambda>u.
                     ret (l\<lparr>current_height := current_height l + 1,
                            boundary_addr_index := boundary_addr_index l + 1\<rparr>)))
              else ret l) s = (Inr l1, s1)"
      and rest: "place_boundary_transactions rest
                   (l1\<lparr>batch_boundaries := remove1 boundary (batch_boundaries l1)\<rparr>) s1
                 = (Inr l', s')"
      by (auto simp: bnd_def [of "if _ then _ else _"] split: sum.splits prod.splits)
    from step have "current_height l \<le> current_height l1"
      by (auto simp: bnd_def ret_def split: sum.splits prod.splits if_splits)
    with Cons.IH [OF rest] show ?thesis by simp
  qed
qed

lemma periodic_send_height:
  "periodic_send l s = (Inr l', s') \<Longrightarrow> current_height l \<le> current_height l'"
  by (auto simp: periodic_send_def bnd_def ret_def try_except_def Let_def
           split: sum.splits prod.splits if_splits)

lemma faucet_self_send_height:
  "faucet_self_send l s = (Inr l', s') \<Longrightarrow> current_height l \<le> current_height l'"
  by (auto simp: faucet_self_send_def bnd_def ret_def try_except_def
           split: sum.splits prod.splits if_splits)

lemma blocks_to_mine_positive: "1 \<le> blocks_to_mine target l"
  by (simp add: blocks_to_mine_def)

lemma bulk_round_height:
  assumes "bulk_round target addr l s = (Inr l', s')" and "current_height l < target"
  shows "current_height l < current_height l'"
proof -
  have pos: "1 \<le> blocks_to_mine target l" by (rule blocks_to_mine_positive)
  consider (mature) "mature_coinbase_start target \<le> current_height l
                     \<and> current_height l < mature_coinbase_end target"
    | (immature) "\<not> (mature_coinbase_start target \<le> current_height l
                     \<and> current_height l < mature_coinbase_end target)"
                 "immature_coinbase_start target \<le> current_height l"
    | (normal) "\<not> (mature_coinbase_start target \<le> current_height l
                     \<and> current_height l < mature_coinbase_end target)"
               "\<not> immature_coinbase_start target \<le> current_height l"
    by blast
  then show ?thesis
  proof cases
    case mature
    with assms(1) have "mine_coinbase_window addr (current_height l + blocks_to_mine target l) l s
                        = (Inr l', s')"
      by (simp add: bulk_round_def Let_def)
    then show ?thesis using pos by (intro mine_coinbase_window_height) auto
  next
    case immature
    with assms(1) have "mine_coinbase_window addr target l s = (Inr l', s')"
      by (simp add: bulk_round_def Let_def)
    then show ?thesis using assms(2) by (rule mine_coinbase_window_height)
  next
    case normal
    with assms(1) obtain l1 s1 l2 s2 s0 where
      "place_boundary_transactions (batch_boundaries l)
         (l\<lparr>current_height := current_height l + blocks_to_mine target l\<rparr>) s0 = (Inr l1, s1)"
      "periodic_send l1 s1 = (Inr l2, s2)"
      "faucet_self_send l2 s2 = (Inr l', s')"
      by (auto simp: bulk_round_def Let_def bnd_def split: sum.splits prod.splits)
    from place_boundary_transactions_height [OF this(1)] periodic_send_height [OF this(2)]
      faucet_self_send_height [OF this(3)] pos
    show ?thesis by simp
  qed
qed

text \<open>The \<^verbatim>\<open>while current_height < target\<close> loop.\<close>

function bulk_loop :: "int \<Rightarrow> json \<Rightarrow> bulk_locals \<Rightarrow> ('e, bulk_locals) stmt" where
  "bulk_loop target coinbase_wallet_addr l s =
     (if current_height l < target
      then (case bulk_round target coinbase_wallet_addr l s of
              (Inl e, s') \<Rightarrow> (Inl e, s')
            | (Inr l', s') \<Rightarrow> bulk_loop target coinbase_wallet_addr l' s')
      else (Inr l, s))"
  by pat_completeness auto
termination
proof (relation "measure (\<lambda>(target, addr, l, s). nat (target - current_height l))")
  show "wf (measure (\<lambda>(target, addr, l, s :: 'e Generator). nat (target - current_height l)))"
    by simp
next
  fix target addr l and s :: "'e Generator" and x s' l'
  assume "current_height l < target" "(x, s') = bulk_round target addr l s" "x = Inr l'"
  then have "current_height l < current_height l'"
    using bulk_round_height [of target addr l s l' s'] by simp
  with \<open>current_height l < target\<close>
  show "((target, addr, l', s'), (target, addr, l, s))
          \<in> measure (\<lambda>(target, addr, l, s). nat (target - current_height l))"
    by simp
qed

declare bulk_loop.simps [simp del]

text \<open>
  Phase 6, \<^verbatim>\<open>_phase_bulk_generation\<close>.  The heights have to be integers: the schedule
  is computed with \<^verbatim>\<open>range\<close>.
\<close>

definition initial_locals :: "int \<Rightarrow> int \<Rightarrow> bulk_locals" where
  "initial_locals current target =
     \<lparr>current_height = current,
      batch_boundaries = calculate_batch_boundaries current target,
      boundary_addr_index = 40,
      next_periodic_height = current + 1000,
      periodic_counter = 0\<rparr>"

definition verify_final_height :: "int \<Rightarrow> ('e, unit) stmt" where
  "verify_final_height target =
     bnd (rpc_call ''getblockcount'' [] None) (\<lambda>h.
     bnd (lift (py_int h)) (\<lambda>actual.
       if actual > target then ret ()
       else if actual < target
       then bnd (mine_blocks (target - actual) JNull) (\<lambda>u. rpc_do ''getblockcount'' [] None)
       else ret ()))"

definition phase_bulk_generation :: "('e, unit) stmt" where
  "phase_bulk_generation =
     bnd (rpc_call ''getblockcount'' [] None) (\<lambda>h.
     bnd (lift (py_int h)) (\<lambda>current.
     bnd (reads (\<lambda>s. target_blocks (config s))) (\<lambda>target.
       if target - current \<le> 0 then ret ()
       else bnd (lookup_address 0) (\<lambda>coinbase_wallet_addr.
            bnd (bulk_loop target coinbase_wallet_addr (initial_locals current target)) (\<lambda>l.
              verify_final_height target)))))"

text \<open>\<^verbatim>\<open>WalletSyncGenerator._generate_blocks\<close>.\<close>

definition generate_blocks :: "('e, unit) stmt" where
  "generate_blocks =
     bnd (rpc_call ''getblockcount'' [] None) (\<lambda>h0.
     bnd (seq [phase_normal_activity,
               phase_gap_limit_boundary,
               phase_beyond_gap_limit,
               phase_transaction_variety,
               phase_bulk_generation]) (\<lambda>u.
     bnd (rpc_call ''getblockcount'' [] None) (\<lambda>h1.
     bnd (lift (py_int h1)) (\<lambda>final_height.
     bnd (lift (py_int h0)) (\<lambda>start_height.
       modify (\<lambda>s. s\<lparr>stats := (stats s)\<lparr>blocks_generated := final_height - start_height\<rparr>\<rparr>))))))"

section \<open>Export, the workflow and the command line\<close>

text \<open>
  The file system as \<^verbatim>\<open>_export_data\<close> uses it: \<^verbatim>\<open>shutil.rmtree(p)\<close> without
  \<^verbatim>\<open>ignore_errors\<close> raises when the removal fails; \<^verbatim>\<open>mkdir\<close> and \<^verbatim>\<open>copytree\<close>
  are taken to succeed.
\<close>

definition path_exists :: "path \<Rightarrow> ('e, bool) stmt" where
  "path_exists p = reads (\<lambda>s. p \<in> dirs (os_state s))"

definition rmtree :: "path \<Rightarrow> ('e, unit) stmt" where
  "rmtree p =
     (\<lambda>s. let w = log_action (Rmtree p) (os_state s)
          in case rmtree_result w p of
               Removed \<Rightarrow>
                 (Inr (), s\<lparr>os_state := w\<lparr>dirs := Set.filter (\<lambda>q. \<not> under p q) (dirs w)\<rparr>\<rparr>)
             | NotRemoved \<Rightarrow> (Inl (OtherException ''OSError''), s\<lparr>os_state := w\<rparr>)
             | RmtreeRaised e \<Rightarrow> (Inl e, s\<lparr>os_state := w\<rparr>))"

definition mkdir :: "path \<Rightarrow> ('e, unit) stmt" where
  "mkdir p =
     modify (\<lambda>s. s\<lparr>os_state := (log_action (Mkdir p) (os_state s))
                                   \<lparr>dirs := insert p (dirs (os_state s))\<rparr>\<rparr>)"

definition copytree :: "path \<Rightarrow> path \<Rightarrow> ('e, unit) stmt" where
  "copytree src dst =
     modify (\<lambda>s. s\<lparr>os_state := (log_action (Copytree src dst) (os_state s))
                      \<lparr>dirs := dirs (os_state s)
                         \<union> (\<lambda>q. dst @ drop (length src) q) ` Set.filter (under src) (dirs (os_state s))\<rparr>\<rparr>)"

text \<open>\<^verbatim>\<open>Generator._collect_wallet_statistics\<close>: each entry of \<^verbatim>\<open>self.wallets\<close> is
  updated in place; the recovery phrase only by one that is not empty.\<close>

definition record_stats :: "wallet_stats \<Rightarrow> wallet_record \<Rightarrow> wallet_record" where
  "record_stats st wallet =
     wallet\<lparr>transactions := stats_transactions st, utxos := stats_utxos st,
            balance := stats_balance st,
            mnemonic := (if py_truthy (stats_mnemonic st) then stats_mnemonic st
                         else mnemonic wallet)\<rparr>"

fun collect_loop :: "nat list \<Rightarrow> ('e, unit) stmt" where
  "collect_loop [] = ret ()"
| "collect_loop (i # rest) =
     bnd (reads (\<lambda>s. (rpc s, wallets s ! i))) (\<lambda>found.
       case fst found of
         None \<Rightarrow> raise AttributeError
       | Some client \<Rightarrow>
           bnd (collect_wallet_stats client (wallet_name (snd found))) (\<lambda>st.
           bnd (modify (\<lambda>s. s\<lparr>wallets := (wallets s)[i := record_stats st (wallets s ! i)]\<rparr>))
             (\<lambda>u. collect_loop rest)))"

definition collect_wallet_statistics :: "('e, unit) stmt" where
  "collect_wallet_statistics =
     bnd (reads (\<lambda>s. length (wallets s))) (\<lambda>n. collect_loop [0..<n])"

text \<open>\<^verbatim>\<open>Generator._save_wallet_files\<close>.\<close>

fun save_loop :: "path \<Rightarrow> wallet_record list \<Rightarrow> ('e, unit) stmt" where
  "save_loop wallets_dir [] = ret ()"
| "save_loop wallets_dir (wallet # rest) =
     bnd (save_wallet_file wallet (path_join wallets_dir (wallet_name wallet @ ''.json'')))
       (\<lambda>u. save_loop wallets_dir rest)"

definition save_wallet_files :: "('e, unit) stmt" where
  "save_wallet_files =
     bnd (reads output_dir) (\<lambda>out.
       case out of
         None \<Rightarrow> raise TypeError
       | Some d \<Rightarrow>
           bnd (mkdir (path_join d ''wallets'')) (\<lambda>u.
           bnd (reads wallets) (\<lambda>ws. save_loop (path_join d ''wallets'') ws)))"

text \<open>
  The stop inside \<^verbatim>\<open>_export_data\<close>: \<^verbatim>\<open>terminate(); wait(timeout=10)\<close> with every
  \<^verbatim>\<open>Exception\<close>, the timeout too, only reported, the handle cleared on every path, and
  two seconds of sleep.
\<close>

definition stop_for_copy :: "('e, unit) stmt" where
  "stop_for_copy =
     (\<lambda>s. case dashd_manager s of
             None \<Rightarrow> (Inr (), s)
           | Some mgr \<Rightarrow>
               (let w = os_state s;
                    rested = (\<lambda>w'. (log_action Sleep w')\<lparr>clock := clock w' + 2000\<rparr>)
                in case process mgr of
                     None \<Rightarrow> (Inr (), s\<lparr>os_state := rested w\<rparr>)
                   | Some pid \<Rightarrow>
                       (let w1 = log_action (WaitTimeout pid) (log_action (Terminate pid) w);
                            s1 = s\<lparr>dashd_manager := Some (mgr\<lparr>process := None\<rparr>)\<rparr>
                        in case graceful_stop w of
                             Exited \<Rightarrow>
                               (Inr (), s1\<lparr>os_state := rested (w1\<lparr>running := running w1 - {pid}\<rparr>)\<rparr>)
                           | TimeoutExpired \<Rightarrow> (Inr (), s1\<lparr>os_state := rested w1\<rparr>)
                           | WaitRaised e \<Rightarrow>
                               (if is_Exception e then (Inr (), s1\<lparr>os_state := rested w1\<rparr>)
                                else (Inl e, s1\<lparr>os_state := w1\<rparr>)))))"

text \<open>\<^verbatim>\<open>Generator._copy_dashd_datadir\<close>; the sizes and the wallet directories found
  are only printed.\<close>

definition copy_dashd_datadir :: "path \<Rightarrow> ('e, unit) stmt" where
  "copy_dashd_datadir out =
     bnd (reads (\<lambda>s. dashd_datadir (config s))) (\<lambda>dd.
       case dd of
         None \<Rightarrow> ret ()
       | Some source_dir \<Rightarrow>
           if source_dir = [] then ret ()
           else bnd (path_exists source_dir) (\<lambda>there.
             if \<not> there then ret ()
             else bnd (path_exists (path_join source_dir ''regtest'')) (\<lambda>has_regtest.
               if has_regtest
               then bnd (path_exists (path_join out ''regtest'')) (\<lambda>dest_there.
                    bnd (if dest_there then rmtree (path_join out ''regtest'') else ret ()) (\<lambda>u.
                      copytree (path_join source_dir ''regtest'') (path_join out ''regtest'')))
               else ret ())))"

text \<open>The removal of the temporary directory at the end of \<^verbatim>\<open>_export_data\<close>.\<close>

definition cleanup_after_export :: "('e, unit) stmt" where
  "cleanup_after_export =
     (\<lambda>s. case dashd_manager s of
             None \<Rightarrow> (Inr (), s)
           | Some mgr \<Rightarrow>
               (case cleanup_temp_dir mgr (os_state s) of
                  (Some e, mgr', w') \<Rightarrow> (Inl e, s\<lparr>dashd_manager := Some mgr', os_state := w'\<rparr>)
                | (None, mgr', w') \<Rightarrow> (Inr (), s\<lparr>dashd_manager := Some mgr', os_state := w'\<rparr>)))"

text \<open>\<^verbatim>\<open>Generator._export_data\<close>.\<close>

definition export_data :: "('e, unit) stmt" where
  "export_data =
     bnd (rpc_call ''getblockcount'' [] None) (\<lambda>final_height.
     bnd (reads (\<lambda>s. path_join (output_base (config s))
                        (''regtest-'' @ str_int (target_blocks (config s))))) (\<lambda>out.
     bnd (modify (\<lambda>s. s\<lparr>output_dir := Some out\<rparr>)) (\<lambda>u.
     bnd (path_exists out) (\<lambda>there.
     bnd (if there then rmtree out else ret ()) (\<lambda>u.
       seq [mkdir out,
            collect_wallet_statistics,
            save_wallet_files,
            stop_for_copy,
            copy_dashd_datadir out,
            cleanup_after_export])))))"

text \<open>
  \<^verbatim>\<open>Generator.generate\<close> for the wallet-sync strategy: the steps inside \<^verbatim>\<open>try\<close>,
  the handler that turns \<^verbatim>\<open>KeyboardInterrupt\<close> into a \<^verbatim>\<open>GeneratorError\<close>, and the
  \<^verbatim>\<open>finally\<close> clause, whose \<^verbatim>\<open>rmtree\<close> is guarded by \<^verbatim>\<open>except OSError\<close> only.
\<close>

definition generate_steps :: "('e, unit) stmt" where
  "generate_steps =
     seq [ensure_dashd_running,
          initialize_rpc_client,
          verify_dashd,
          load_addresses,
          initialize_utxo_pool,
          generate_blocks,
          export_data]"

definition generate_cleanup :: "('e, unit) stmt" where
  "generate_cleanup =
     (\<lambda>s. case dashd_manager s of
             None \<Rightarrow> (Inr (), s)
           | Some mgr \<Rightarrow>
               (case process mgr of
                  Some pid \<Rightarrow>
                    (case stop mgr (os_state s) of
                       (r, mgr', w') \<Rightarrow> (r, s\<lparr>dashd_manager := Some mgr', os_state := w'\<rparr>))
                | None \<Rightarrow>
                    (case temp_dir mgr of
                       None \<Rightarrow> (Inr (), s)
                     | Some d \<Rightarrow>
                         (if should_cleanup mgr
                          then (let w = log_action (Rmtree d) (os_state s)
                                in case rmtree_result w d of
                                     Removed \<Rightarrow>
                                       (Inr (), s\<lparr>os_state :=
                                          w\<lparr>dirs := Set.filter (\<lambda>q. \<not> under d q) (dirs w)\<rparr>\<rparr>)
                                   | NotRemoved \<Rightarrow> (Inr (), s\<lparr>os_state := w\<rparr>)
                                   | RmtreeRaised e \<Rightarrow> (Inl e, s\<lparr>os_state := w\<rparr>))
                          else (Inr (), s)))))"

definition generate :: "('e, unit) stmt" where
  "generate =
     try_finally
       (try_except generate_steps is_KeyboardInterrupt
          (\<lambda>e. raise (GeneratorError ''User interrupted'')))
       generate_cleanup"

text \<open>
  \<^verbatim>\<open>main\<close>, from the parsed arguments on.  \<open>script_dir\<close> is the directory of
  \<^verbatim>\<open>generate.py\<close>.  The exit status is the argument of \<^verbatim>\<open>sys.exit\<close> in the handler
  that catches the exception, 0 when \<^verbatim>\<open>generate\<close> returns, and 1, the status of the
  interpreter after a traceback, for an exception no handler catches.
\<close>

record cli_args =
  arg_blocks :: int
  arg_dashd_path :: "string option"
  arg_no_auto_start :: bool
  arg_rpc_port :: "int option"
  arg_keep_temp :: bool
  arg_output_dir :: "string option"

definition config_of_args :: "path \<Rightarrow> cli_args \<Rightarrow> Config" where
  "config_of_args script_dir args =
     (let given = (case arg_dashd_path args of None \<Rightarrow> [] | Some p \<Rightarrow> p);
          out = (case arg_output_dir args of None \<Rightarrow> [] | Some p \<Rightarrow> p)
      in \<lparr>target_blocks = arg_blocks args,
          dashcli_path = (if given \<noteq> [] then path_join (path_parent given) ''dash-cli''
                          else ''dash-cli''),
          config_dashd_executable = (if given \<noteq> [] then given else ''dashd''),
          auto_start_dashd = (\<not> arg_no_auto_start args),
          dashd_datadir = None,
          dashd_wallet = ''default'',
          rpc_port = arg_rpc_port args,
          output_base = (if out \<noteq> [] then out else path_join script_dir ''data''),
          extra_dashd_args = [''-blockfilterindex=1'', ''-peerblockfilters=1'']\<rparr>)"

fun exit_code_of :: "py_exception \<Rightarrow> int" where
  "exit_code_of (ConfigError m) = 1"
| "exit_code_of (DashdConnectionError m) = 2"
| "exit_code_of (InsufficientFundsError m) = 3"
| "exit_code_of (GeneratorError m) = 4"
| "exit_code_of (RPCError m) = 4"
| "exit_code_of KeyboardInterrupt = 130"
| "exit_code_of _ = 1"

definition main ::
  "path \<Rightarrow> cli_args \<Rightarrow> os_world \<Rightarrow> 'e \<Rightarrow> 'e node_rpc \<Rightarrow> ('e \<Rightarrow> bool \<times> 'e) \<Rightarrow> int" where
  "main script_dir args w e answers draw =
     (if arg_blocks args < 120 then 1
      else (case generate (Generator_init (config_of_args script_dir args) (arg_keep_temp args)
                             w e answers draw) of
              (Inr u, s) \<Rightarrow> 0
            | (Inl exc, s) \<Rightarrow> exit_code_of exc))"

section \<open>What a method may do to the address mapping\<close>

text \<open>
  A later state \<open>s'\<close> has the address mapping of \<open>s\<close> untouched when
  \<^verbatim>\<open>self.wallet_addresses\<close> is the same in both, the record of events of \<open>s'\<close> extends
  that of \<open>s\<close>, and every address resolved from an index in between is the one the mapping
  held for that index.  A method keeps the address mapping when this holds between every
  state and the state the method leaves.
\<close>

definition untouched :: "'e Generator \<Rightarrow> 'e Generator \<Rightarrow> bool" where
  "untouched s s' =
     (wallet_addresses s' = wallet_addresses s
      \<and> (\<exists>later. events s' = events s @ later
            \<and> (\<forall>i a. Resolved i a \<in> set later \<longrightarrow> wallet_addresses s i = Some a)))"

definition keeps_addresses :: "('e, 'a) stmt \<Rightarrow> bool" where
  "keeps_addresses m = (\<forall>s. untouched s (snd (m s)))"

section \<open>Boundary markers in the record of events\<close>

text \<open>
  What the marker for the boundary address index \<open>i\<close> leaves in the record of events, in
  a state \<open>s\<close>: the address resolved from \<open>i\<close>, the send of 0.01 to it from the faucet, and
  the block mined to the faucet's mining address.  A marker send is recognised by its
  amount, which no other send of the engine uses.
\<close>

definition marker_events :: "'e Generator \<Rightarrow> int \<Rightarrow> event list" where
  "marker_events s i =
     (case wallet_addresses s i of
        None \<Rightarrow> []
      | Some a \<Rightarrow>
          [Resolved i a,
           Call (Request ''sendtoaddress'' [a, JNum 0.01] (Some (dashd_wallet (config s)))),
           Call (Request ''generatetoaddress'' [JNum 1, mining_address s] None)])"

fun is_marker :: "event \<Rightarrow> bool" where
  "is_marker (Call (Request name args wallet)) =
     (name = ''sendtoaddress'' \<and> (case args of [a, amount] \<Rightarrow> amount = JNum 0.01 | _ \<Rightarrow> False))"
| "is_marker (Resolved i a) = False"

text \<open>The events of the markers for the indices from \<open>i\<close> up to, not including, \<open>j\<close>.\<close>

definition marker_trail :: "'e Generator \<Rightarrow> int \<Rightarrow> int \<Rightarrow> event list" where
  "marker_trail s i j = concat (map (marker_events s) (map (\<lambda>k. i + int k) [0..<nat (j - i)]))"

text \<open>A statement that adds to the record of events, and adds no marker send.\<close>

definition no_marker :: "('e, 'a) stmt \<Rightarrow> bool" where
  "no_marker m =
     (\<forall>s. \<exists>later. events (snd (m s)) = events s @ later \<and> filter is_marker later = [])"

section \<open>Concrete environments\<close>

text \<open>
  A machine on which \<^verbatim>\<open>/opt/dash/bin/dashd\<close> is installed, every port is free and
  stopping works; its node never exits by itself.  The variants below change one script
  each.
\<close>

definition demo_world :: os_world where
  "demo_world =
     \<lparr>is_executable_file = (\<lambda>p. p = ''/opt/dash/bin/dashd''),
      which = (\<lambda>name. None),
      port_free = (\<lambda>port. True),
      mkdtemp_result = ''/tmp/dash-testdata-k3x'',
      popen_result = Some 4242,
      exit_code_at = (\<lambda>t. None),
      stderr_output = [],
      latency_at = (\<lambda>t. 20),
      graceful_stop = Exited,
      kill_raises = None,
      rmtree_result = (\<lambda>d. Removed),
      clock = 0,
      dirs = {''/tmp''},
      running = {},
      atexit_hooks = 0,
      actions = []\<rparr>"

definition demo_manager :: DashdManager where
  "demo_manager = DashdManager_init ''/opt/dash/bin/dashd'' None [''-blockfilterindex=1'']"

text \<open>A node that never answers, and one that answers every call with the number 0.\<close>

definition deaf_node :: "unit node_rpc" where
  "deaf_node client request env = (Inl (DashdConnectionError ''Could not connect to dashd''), env)"

definition idle_node :: "unit node_rpc" where
  "idle_node client request env = (Inr (JNum 0), env)"

text \<open>The manager and the world after a successful \<^verbatim>\<open>start\<close> there, and after
  the \<^verbatim>\<open>stop\<close> that follows.\<close>

definition started :: "DashdManager \<times> os_world" where
  "started = (let r = start idle_node False demo_manager (demo_world, ())
              in (fst (snd r), fst (snd (snd r))))"

definition stopped :: "DashdManager \<times> os_world" where
  "stopped = (let r = stop (fst started) (snd started) in (fst (snd r), snd (snd r)))"

text \<open>
  The machine after that \<^verbatim>\<open>start\<close>, changed in one script: on one the wait for the
  terminated process raises an \<^verbatim>\<open>OSError\<close>, on the other \<^verbatim>\<open>rmtree\<close> fails to remove
  the directory and, told to ignore errors, says nothing.
\<close>

definition stubborn_world :: os_world where
  "stubborn_world =
     (snd started)\<lparr>graceful_stop :=
                      WaitRaised (OtherException ''[Errno 1] Operation not permitted'')\<rparr>"

definition sticky_world :: os_world where
  "sticky_world = (snd started)\<lparr>rmtree_result := (\<lambda>d. NotRemoved)\<rparr>"

text \<open>Two failing machines: on one the node exits at once, leaving a message on its
  error output; on the other it stays alive, each liveness call taking 14.6 seconds.\<close>

definition crashing_world :: os_world where
  "crashing_world =
     demo_world\<lparr>exit_code_at := (\<lambda>t. Some 1),
                 stderr_output := ''Error: Cannot obtain a lock on data directory''\<rparr>"

definition hanging_world :: os_world where
  "hanging_world = demo_world\<lparr>latency_at := (\<lambda>t. 14600)\<rparr>"

text \<open>A machine without the executable.\<close>

definition bare_world :: os_world where
  "bare_world = demo_world\<lparr>is_executable_file := (\<lambda>p. False)\<rparr>"

text \<open>
  A node that keeps a chain height and a counter of addresses handed out: it answers
  \<^verbatim>\<open>getblockcount\<close> with the height, mines what \<^verbatim>\<open>generatetoaddress\<close> asks for,
  numbers the addresses of \<^verbatim>\<open>getnewaddress\<close>, has a recovery phrase and no unspent
  outputs, and accepts everything else.
\<close>

fun chain_node :: "(int \<times> nat) node_rpc" where
  "chain_node client (Request name args wallet) (height, handed_out) =
     (if name = ''getblockcount'' then (Inr (JNum (of_int height)), (height, handed_out))
      else if name = ''generatetoaddress''
      then (case args of
              JNum n # rest \<Rightarrow> (Inr (JList []), (height + \<lfloor>n\<rfloor>, handed_out))
            | _ \<Rightarrow> (Inl (RPCError ''Invalid parameter''), (height, handed_out)))
      else if name = ''getnewaddress''
      then (Inr (JStr (''yAddr'' @ str_nat handed_out)), (height, Suc handed_out))
      else if name = ''dumphdinfo''
      then (Inr (JDict [(''mnemonic'', JStr ''abandon ability able about above absent'')]),
            (height, handed_out))
      else if name = ''listunspent'' \<or> name = ''listtransactions''
      then (Inr (JList []), (height, handed_out))
      else (Inr (JStr ''ok''), (height, handed_out)))"

definition demo_config :: "int \<Rightarrow> Config" where
  "demo_config target =
     \<lparr>target_blocks = target, dashcli_path = ''dash-cli'',
      config_dashd_executable = ''dashd'', auto_start_dashd = False, dashd_datadir = None,
      dashd_wallet = ''default'', rpc_port = None, output_base = ''/tmp/out'',
      extra_dashd_args = [''-blockfilterindex=1'', ''-peerblockfilters=1'']\<rparr>"

definition demo_client :: DashRPCClient where
  "demo_client = \<lparr>client_dashcli_path = ''dash-cli'', datadir = None, client_rpc_port = None\<rparr>"

text \<open>A run with the given target against that node, with no random hit, as it stands
  before \<^verbatim>\<open>generate\<close> is called.\<close>

definition never :: "'e \<Rightarrow> bool \<times> 'e" where
  "never e = (False, e)"

definition fresh_run :: "int \<Rightarrow> (int \<times> nat) Generator" where
  "fresh_run target = Generator_init (demo_config target) False demo_world (0, 0) chain_node never"

text \<open>
  The same run at the start of the bulk phase: the client is there, the fifty addresses
  \<^verbatim>\<open>yAddr0\<close> to \<^verbatim>\<open>yAddr49\<close> are loaded, the faucet mines to \<^verbatim>\<open>yAddr50\<close>, the chain
  stands at \<open>height\<close>; \<open>sent\<close> and \<open>rewards\<close> are the two counters the phase moves and
  \<open>trail\<close> is the record of events, latest first.
\<close>

definition bulk_state :: "int \<Rightarrow> int \<Rightarrow> int \<Rightarrow> int \<Rightarrow> event list \<Rightarrow> (int \<times> nat) Generator" where
  "bulk_state target height sent rewards trail =
     (Generator_init (demo_config target) False demo_world (height, 51) chain_node never)
       \<lparr>rpc := Some demo_client,
        mining_address := JStr ''yAddr50'',
        stats := \<lparr>blocks_generated = 0, transactions_created = sent,
                  coinbase_rewards = rewards, utxo_replenishments = 0\<rparr>,
        wallet_addresses :=
          (\<lambda>i. if 0 \<le> i \<and> i < 50 then Some (JStr (''yAddr'' @ str_int i)) else None),
        events := rev trail\<rparr>"

text \<open>A node whose wallet holds two unspent outputs, and one whose wallet refuses the
  query for them.\<close>

definition two_utxos :: "json list" where
  "two_utxos =
     [JDict [(''txid'', JStr ''a1''), (''vout'', JNum 0), (''address'', JStr ''yAddr3''),
             (''amount'', JNum 1.5), (''confirmations'', JNum 12)],
      JDict [(''txid'', JStr ''b2''), (''vout'', JNum 1), (''amount'', JNum 2)]]"

fun wallet_node :: "unit node_rpc" where
  "wallet_node client (Request name args wallet) e =
     (if name = ''listunspent'' then (Inr (JList two_utxos), e)
      else if name = ''listtransactions'' then (Inr (JList []), e)
      else if name = ''dumphdinfo'' then (Inr (JDict [(''mnemonic'', JStr ''abandon able'')]), e)
      else (Inr JNull, e))"

fun locked_node :: "unit node_rpc" where
  "locked_node client (Request name args wallet) e =
     (if name = ''listunspent'' then (Inl (RPCError ''Wallet is locked''), e)
      else wallet_node client (Request name args wallet) e)"


definition wallet_run :: "unit node_rpc \<Rightarrow> unit Generator" where
  "wallet_run answers = Generator_init (demo_config 200) False demo_world () answers never"

text \<open>A node that has both wallets already, and says so in capitals or not.\<close>

fun reloading_node :: "unit node_rpc" where
  "reloading_node client (Request name args wallet) e =
     (if name = ''loadwallet''
      then (Inl (RPCError ''error code: -35 Wallet default is Already Loaded.''), e)
      else if name = ''createwallet''
      then (Inl (RPCError ''error code: -4 Wallet wallet already exists.''), e)
      else (Inr (JNum 0), e))"

definition reloading_run :: "unit Generator" where
  "reloading_run = (wallet_run reloading_node)\<lparr>rpc := Some demo_client\<rparr>"


text \<open>
  The command line \<^verbatim>\<open>generate.py --dashd-path /opt/dash/bin/dashd\<close>, and a node that
  answers the first call and is interrupted by the user at the second one: the first call
  is the readiness probe of \<^verbatim>\<open>start\<close>, the second the \<^verbatim>\<open>getblockcount\<close> of
  \<^verbatim>\<open>_verify_dashd\<close>.
\<close>

definition demo_args :: cli_args where
  "demo_args =
     \<lparr>arg_blocks = 200, arg_dashd_path = Some ''/opt/dash/bin/dashd'',
      arg_no_auto_start = False, arg_rpc_port = None, arg_keep_temp = False,
      arg_output_dir = None\<rparr>"

definition interrupted_node :: "nat node_rpc" where
  "interrupted_node client request calls =
     (if calls = 0 then (Inr (JNum 0), Suc calls) else (Inl KeyboardInterrupt, Suc calls))"

text \<open>
  The events that the bulk phase leaves in the record of such a run: an index resolved to
  its address, a send from the faucet to it, and blocks mined to an address or, by
  default, to the mining address of the faucet.
\<close>

definition resolve_event :: "int \<Rightarrow> event" where
  "resolve_event i = Resolved i (JStr (''yAddr'' @ str_int i))"

definition send_event :: "int \<Rightarrow> rat \<Rightarrow> event" where
  "send_event i amount =
     Call (Request ''sendtoaddress'' [JStr (''yAddr'' @ str_int i), JNum amount] (Some ''default''))"

definition mine_event :: "int \<Rightarrow> json \<Rightarrow> event" where
  "mine_event n address = Call (Request ''generatetoaddress'' [JNum (of_int n), address] None)"

definition faucet_mine_event :: "int \<Rightarrow> event" where
  "faucet_mine_event n = mine_event n (JStr ''yAddr50'')"
section \<open>Properties of the boundary scheduler\<close>

lemma boundaries_loop_filter:
  "boundaries_loop c t xs acc =
     acc @ map (\<lambda>b. b - 1) (filter (\<lambda>b. b - 1 > c \<and> b - 1 < t) xs)"
  by (induction xs arbitrary: acc) (simp_all add: Let_def)

lemma py_range_nth:
  "i < length (py_range a b s) \<Longrightarrow> py_range a b s ! i = a + s * int i"
proof (induction a b s arbitrary: i rule: py_range.induct)
  case (1 start stop step)
  show ?case
  proof (cases "0 < step \<and> start < stop")
    case True
    then have unfold: "py_range start stop step = start # py_range (start + step) stop step"
      by (simp add: py_range.simps [of start stop step])
    show ?thesis
    proof (cases i)
      case 0
      then show ?thesis by (simp add: unfold)
    next
      case (Suc j)
      with "1.prems" unfold have "j < length (py_range (start + step) stop step)" by simp
      from "1.IH" [OF True this] Suc show ?thesis
        by (simp add: unfold algebra_simps)
    qed
  next
    case False
    then have "py_range start stop step = []"
      by (simp add: py_range.simps [of start stop step])
    with "1.prems" show ?thesis by simp
  qed
qed

lemma py_range_upper: "x \<in> set (py_range a b s) \<Longrightarrow> x < b"
proof (induction a b s rule: py_range.induct)
  case (1 start stop step)
  then show ?case
    by (cases "0 < step \<and> start < stop") (auto simp: py_range.simps [of start stop step])
qed

lemma py_range_empty_iff: "py_range a b s = [] \<longleftrightarrow> \<not> (0 < s \<and> a < b)"
  by (simp add: py_range.simps [of a b s])

lemma py_range_in_set:
  assumes "x \<in> set (py_range a b s)"
  obtains i where "x = a + s * int i" "0 < s" "x < b"
proof -
  from assms obtain i where i: "i < length (py_range a b s)" "py_range a b s ! i = x"
    by (auto simp: in_set_conv_nth)
  then have "py_range a b s \<noteq> []" by auto
  then have "0 < s" by (simp add: py_range_empty_iff)
  with i py_range_nth [OF i(1)] py_range_upper [OF assms] that show thesis by auto
qed

lemma next_boundary_above: "(c::int) < (c div 5000 + 1) * 5000"
proof -
  have "c mod 5000 < 5000" by simp
  then have "c - c mod 5000 + 5000 > c" by linarith
  moreover have "(c div 5000 + 1) * 5000 = c - c mod 5000 + 5000"
    by (simp add: algebra_simps minus_mod_eq_mult_div)
  ultimately show ?thesis by simp
qed

lemma calculate_batch_boundaries_range:
  "calculate_batch_boundaries c t =
     map (\<lambda>b. b - 1)
       (py_range (if c + 1 < (c div 5000 + 1) * 5000 then (c div 5000 + 1) * 5000
                  else (c div 5000 + 1) * 5000 + 5000) (t + 1) 5000)"
proof -
  define F where "F = (c div 5000 + 1) * 5000"
  have F_gt: "c < F" unfolding F_def by (rule next_boundary_above)
  let ?P = "\<lambda>b. b - 1 > c \<and> b - 1 < t"
  have keep: "filter ?P (py_range a (t + 1) 5000) = py_range a (t + 1) 5000" if "c + 1 < a" for a
  proof (rule filter_True, rule ballI)
    fix x assume "x \<in> set (py_range a (t + 1) 5000)"
    then obtain i where "x = a + 5000 * int i" "x < t + 1" by (rule py_range_in_set)
    with that show "?P x" by simp
  qed
  have "filter ?P (py_range F (t + 1) 5000) =
        py_range (if c + 1 < F then F else F + 5000) (t + 1) 5000"
  proof (cases "c + 1 < F")
    case True
    then show ?thesis by (simp add: keep)
  next
    case False
    with F_gt have eq: "F = c + 1" by simp
    show ?thesis
    proof (cases "F < t + 1")
      case True
      then have "py_range F (t + 1) 5000 = F # py_range (F + 5000) (t + 1) 5000"
        by (simp add: py_range.simps [of F "t + 1" 5000])
      moreover have "filter ?P (py_range (F + 5000) (t + 1) 5000) = py_range (F + 5000) (t + 1) 5000"
        by (rule keep) (simp add: eq)
      ultimately show ?thesis using False eq by simp
    next
      case False
      then have "py_range F (t + 1) 5000 = []" "py_range (F + 5000) (t + 1) 5000 = []"
        by (simp_all add: py_range_empty_iff)
      then show ?thesis by simp
    qed
  qed
  then show ?thesis
    by (simp add: calculate_batch_boundaries_def boundaries_loop_filter F_def Let_def)
qed

text \<open>
  Claim C1.  For every pair of heights with \<open>current < target\<close>, the list returned by
  \<^verbatim>\<open>_calculate_batch_boundaries(current, target)\<close> is strictly increasing, every
  returned height \<open>h\<close> satisfies \<open>current < h < target\<close> and is one less than a multiple
  of 5000, consecutive returned heights differ by exactly 5000, and the list is empty
  when no height of the form (multiple of 5000) - 1 lies strictly between \<open>current\<close> and
  \<open>target\<close>.
\<close>

theorem batch_boundaries_properties:
  assumes "current < target"
  shows "sorted_wrt (<) (calculate_batch_boundaries current target)
    \<and> (\<forall>h \<in> set (calculate_batch_boundaries current target).
          current < h \<and> h < target \<and> (h + 1) mod 5000 = 0)
    \<and> (\<forall>i. Suc i < length (calculate_batch_boundaries current target) \<longrightarrow>
          calculate_batch_boundaries current target ! Suc i
            - calculate_batch_boundaries current target ! i = 5000)
    \<and> ((\<forall>h. current < h \<and> h < target \<longrightarrow> (h + 1) mod 5000 \<noteq> 0) \<longrightarrow>
          calculate_batch_boundaries current target = [])"
proof -
  define F where "F = (current div 5000 + 1) * 5000"
  define A where "A = (if current + 1 < F then F else F + 5000)"
  define R where "R = py_range A (target + 1) 5000"
  have cbb: "calculate_batch_boundaries current target = map (\<lambda>b. b - 1) R"
    unfolding R_def A_def F_def by (rule calculate_batch_boundaries_range)
  have F_gt: "current < F" unfolding F_def by (rule next_boundary_above)
  have A_gt: "current + 1 < A" unfolding A_def using F_gt by simp
  have A_mod: "A mod 5000 = 0" unfolding A_def F_def by simp
  have nth: "R ! i = A + 5000 * int i" if "i < length R" for i
    using that unfolding R_def by (rule py_range_nth)
  have "sorted_wrt (<) (map (\<lambda>b. b - 1) R)"
    by (simp add: sorted_wrt_iff_nth_less nth)
  moreover have "\<forall>h \<in> set (map (\<lambda>b. b - 1) R). current < h \<and> h < target \<and> (h + 1) mod 5000 = 0"
  proof
    fix h assume "h \<in> set (map (\<lambda>b. b - 1) R)"
    then obtain b where b: "b \<in> set R" "h = b - 1" by auto
    from b(1) obtain i where "b = A + 5000 * int i" "b < target + 1"
      unfolding R_def by (rule py_range_in_set)
    with b(2) A_gt A_mod show "current < h \<and> h < target \<and> (h + 1) mod 5000 = 0"
      by simp
  qed
  moreover have "\<forall>i. Suc i < length (map (\<lambda>b. b - 1) R) \<longrightarrow>
      map (\<lambda>b. b - 1) R ! Suc i - map (\<lambda>b. b - 1) R ! i = 5000"
    by (simp add: nth)
  moreover have "(\<forall>h. current < h \<and> h < target \<longrightarrow> (h + 1) mod 5000 \<noteq> 0) \<longrightarrow> map (\<lambda>b. b - 1) R = []"
  proof
    assume none: "\<forall>h. current < h \<and> h < target \<longrightarrow> (h + 1) mod 5000 \<noteq> 0"
    have "\<not> (A - 1 < target)"
    proof
      assume "A - 1 < target"
      with A_gt have "current < A - 1 \<and> A - 1 < target" by simp
      with none [rule_format, of "A - 1"] have "(A - 1 + 1) mod 5000 \<noteq> 0" by simp
      with A_mod show False by simp
    qed
    then have "R = []" unfolding R_def by (simp add: py_range_empty_iff)
    then show "map (\<lambda>b. b - 1) R = []" by simp
  qed
  ultimately show ?thesis unfolding cbb by blast
qed

theorem batch_boundaries_properties_witness:
  "(200::int) < 40000
   \<and> sorted_wrt (<) (calculate_batch_boundaries 200 40000)
   \<and> list_all (\<lambda>h. 200 < h \<and> h < 40000 \<and> (h + 1) mod 5000 = 0) (calculate_batch_boundaries 200 40000)
   \<and> calculate_batch_boundaries 200 40000 ! 1 - calculate_batch_boundaries 200 40000 ! 0 = 5000
   \<and> calculate_batch_boundaries 200 1000 = []"
proof -
  have lt: "(200::int) < 40000" by simp
  have len: "Suc 0 < length (calculate_batch_boundaries 200 40000)" by code_simp
  have none: "\<forall>h::int. 200 < h \<and> h < 1000 \<longrightarrow> (h + 1) mod 5000 \<noteq> 0"
  proof (intro allI impI)
    fix h :: int assume "200 < h \<and> h < 1000"
    then have "(h + 1) mod 5000 = h + 1" by simp
    with \<open>200 < h \<and> h < 1000\<close> show "(h + 1) mod 5000 \<noteq> 0" by simp
  qed
  note big = batch_boundaries_properties [OF lt]
  note small = batch_boundaries_properties [of 200 1000]
  from big have "sorted_wrt (<) (calculate_batch_boundaries 200 40000)" by blast
  moreover from big have "list_all (\<lambda>h. 200 < h \<and> h < 40000 \<and> (h + 1) mod 5000 = 0) (calculate_batch_boundaries 200 40000)"
    unfolding list_all_iff by blast
  moreover from big len have "calculate_batch_boundaries 200 40000 ! 1 - calculate_batch_boundaries 200 40000 ! 0 = 5000"
    by (metis One_nat_def)
  moreover from small none have "calculate_batch_boundaries 200 1000 = []" by simp
  ultimately show ?thesis using lt by blast
qed

text \<open>
  Claim C2.  The worked examples: for (200, 40000) eight values, the first 4999 and the
  last 39999; for (200, 10000) exactly 4999 and 9999; for (200, 1000) nothing; for
  (5000, 15000) exactly 9999 and 14999, so a current height that is itself a multiple of
  5000 does not yield the boundary 4999 below it.
\<close>

theorem batch_boundaries_examples:
  "calculate_batch_boundaries 200 40000
      = [4999, 9999, 14999, 19999, 24999, 29999, 34999, 39999]
   \<and> length (calculate_batch_boundaries 200 40000) = 8
   \<and> calculate_batch_boundaries 200 40000 ! 0 = 4999
   \<and> last (calculate_batch_boundaries 200 40000) = 39999
   \<and> calculate_batch_boundaries 200 10000 = [4999, 9999]
   \<and> calculate_batch_boundaries 200 1000 = []
   \<and> calculate_batch_boundaries 5000 15000 = [9999, 14999]"
proof -
  have big: "calculate_batch_boundaries 200 40000
      = [4999, 9999, 14999, 19999, 24999, 29999, 34999, 39999]"
    by (simp add: calculate_batch_boundaries_def py_range.simps)
  have "calculate_batch_boundaries 200 10000 = [4999, 9999]"
    by (simp add: calculate_batch_boundaries_def py_range.simps)
  moreover have "calculate_batch_boundaries 200 1000 = []"
    by (simp add: calculate_batch_boundaries_def py_range.simps)
  moreover have "calculate_batch_boundaries 5000 15000 = [9999, 14999]"
    by (simp add: calculate_batch_boundaries_def py_range.simps)
  ultimately show ?thesis by (simp add: big)
qed

section \<open>Properties of the process lifecycle manager\<close>

lemma stop_process_cleared:
  "stop_process self w = (r, self', w') \<Longrightarrow>
     process self' = None \<and> temp_dir self' = temp_dir self
     \<and> should_cleanup self' = should_cleanup self"
  by (auto simp: stop_process_def Let_def split: option.splits wait_outcome.splits if_splits)

lemma stop_process_not_running:
  "stop_process self w = (None, self', w') \<Longrightarrow> process self = Some pid \<Longrightarrow>
     \<forall>e. graceful_stop w \<noteq> WaitRaised e \<Longrightarrow> pid \<notin> running w'"
  by (auto simp: stop_process_def Let_def split: option.splits wait_outcome.splits if_splits)

lemma stop_process_dirs:
  "stop_process self w = (r, self', w') \<Longrightarrow>
     dirs w' = dirs w \<and> rmtree_result w' = rmtree_result w"
  by (auto simp: stop_process_def Let_def log_action_def
           split: option.splits wait_outcome.splits if_splits)

lemma cleanup_temp_dir_cleared:
  "cleanup_temp_dir self w = (None, self', w') \<Longrightarrow>
     process self' = process self \<and> should_cleanup self' = should_cleanup self
     \<and> (should_cleanup self \<longrightarrow> temp_dir self' = None)
     \<and> running w' = running w"
  by (auto simp: cleanup_temp_dir_def rmtree_ignore_errors_def log_action_def
           split: option.splits if_splits rmtree_outcome.splits prod.splits)

lemma cleanup_temp_dir_removed:
  "cleanup_temp_dir self w = (None, self', w') \<Longrightarrow> temp_dir self = Some d \<Longrightarrow>
     should_cleanup self \<Longrightarrow> rmtree_result w d = Removed \<Longrightarrow> \<forall>p \<in> dirs w'. \<not> under d p"
  by (auto simp: cleanup_temp_dir_def rmtree_ignore_errors_def log_action_def
           split: option.splits if_splits rmtree_outcome.splits prod.splits)

lemma stop_nothing_to_do:
  "process self = None \<Longrightarrow> temp_dir self = None \<or> \<not> should_cleanup self \<Longrightarrow>
     stop self w = (Inr (), self, w)"
  by (auto simp: stop_def stop_process_def cleanup_temp_dir_def split: option.splits)

lemmas manager_eval =
  start_def launch_def await_ready_def wait_for_ready_def resolve_rpc_port_def
  find_free_port_def is_port_available_def verify_dashd_executable_def
  poll_process_def log_action_def dashd_command_def str_of_path_def
  stop_def stop_process_def cleanup_temp_dir_def rmtree_ignore_errors_def
  DashdManager_init_def is_absolute_def path_join_def path_parent_def under_def
  str_int_def str_nat.simps py_range.simps wait_loop.simps Let_def

lemma started_value:
  "started =
     (\<lparr>dashd_executable = ''/opt/dash/bin/dashd'', requested_port = None,
       extra_args = [''-blockfilterindex=1''], actual_port = Some 19998,
       p2p_port = Some 19999, temp_dir = Some ''/tmp/dash-testdata-k3x'',
       process = Some 4242, should_cleanup = True\<rparr>,
      demo_world\<lparr>clock := 20,
        dirs := {''/tmp/dash-testdata-k3x/regtest'', ''/tmp/dash-testdata-k3x'', ''/tmp''},
        running := {4242}, atexit_hooks := 1,
        actions := [ProbePort 19998, ProbePort 19999, Mkdtemp ''/tmp/dash-testdata-k3x'',
          Mkdir ''/tmp/dash-testdata-k3x/regtest'',
          Popen [''/opt/dash/bin/dashd'', ''-regtest'',
            ''-datadir=/tmp/dash-testdata-k3x'', ''-port=19999'',
            ''-rpcport=19998'', ''-server=1'', ''-daemon=0'',
            ''-fallbackfee=0.00001'', ''-rpcbind=127.0.0.1'',
            ''-rpcallowip=127.0.0.1'', ''-listen=1'', ''-txindex=0'',
            ''-addressindex=0'', ''-spentindex=0'', ''-timestampindex=0'',
            ''-blockfilterindex=1''] ''/tmp/dash-testdata-k3x'',
          AtexitRegister, Poll 4242, Probe]\<rparr>)"
  by (simp add: started_def demo_manager_def demo_world_def idle_node_def manager_eval)

lemma stop_process_running:
  "stop_process self w = (None, self', w') \<Longrightarrow> process self = Some pid \<Longrightarrow>
     running w' = (if \<exists>e. graceful_stop w = WaitRaised e then running w else running w - {pid})"
  by (auto simp: stop_process_def Let_def log_action_def
           split: option.splits wait_outcome.splits if_splits)

lemma cleanup_temp_dir_dirs:
  "cleanup_temp_dir self w = (None, self', w') \<Longrightarrow> temp_dir self = Some d \<Longrightarrow>
     should_cleanup self \<Longrightarrow>
     dirs w' = (if rmtree_result w d = Removed then Set.filter (\<lambda>p. \<not> under d p) (dirs w)
                else dirs w)"
  by (auto simp: cleanup_temp_dir_def rmtree_ignore_errors_def log_action_def
           split: option.splits if_splits rmtree_outcome.splits prod.splits)

text \<open>
  Claim C4, as stated, fails in its last part.  \<^verbatim>\<open>stop\<close> catches every
  \<^verbatim>\<open>Exception\<close> of \<^verbatim>\<open>terminate(); wait(timeout=10)\<close> and only prints a warning, and it
  calls \<^verbatim>\<open>rmtree\<close> with \<^verbatim>\<open>ignore_errors=True\<close>; in both cases it clears its
  references and returns normally.  On the started machine where the wait raises, \<^verbatim>\<open>stop\<close>
  returns with the handle cleared and the process 4242 still running; on the one where
  \<^verbatim>\<open>rmtree\<close> fails, \<^verbatim>\<open>stop\<close> returns with the reference cleared, cleanup enabled,
  and the temporary directory still there.
\<close>

theorem stop_leaves_process_or_directory:
  "process (fst started) = Some 4242
   \<and> temp_dir (fst started) = Some ''/tmp/dash-testdata-k3x''
   \<and> should_cleanup (fst started)
   \<and> fst (stop (fst started) stubborn_world) = Inr ()
   \<and> process (fst (snd (stop (fst started) stubborn_world))) = None
   \<and> 4242 \<in> running (snd (snd (stop (fst started) stubborn_world)))
   \<and> fst (stop (fst started) sticky_world) = Inr ()
   \<and> temp_dir (fst (snd (stop (fst started) sticky_world))) = None
   \<and> ''/tmp/dash-testdata-k3x'' \<in> dirs (snd (snd (stop (fst started) sticky_world)))"
  by (simp add: stubborn_world_def sticky_world_def started_value demo_world_def stop_def
        stop_process_def cleanup_temp_dir_def rmtree_ignore_errors_def log_action_def Let_def)

text \<open>
  Claim C4, amended.  \<^verbatim>\<open>DashdManager.stop\<close> is idempotent.  When a call of \<^verbatim>\<open>stop\<close>
  has returned, a second call returns without doing anything: the manager and the
  operating system, its log of actions included, stay as they are.  \<^verbatim>\<open>stop\<close> on a
  manager that was never started does nothing either.  After \<^verbatim>\<open>stop\<close> has returned
  the handle tracks no process, and the reference to the temporary directory is cleared
  when cleanup is enabled.  What is left on the machine depends on the two calls whose
  failures \<^verbatim>\<open>stop\<close> does not pass on: the tracked process is gone from the running
  processes exactly when \<^verbatim>\<open>terminate(); wait(timeout=10)\<close> raised nothing but the
  timeout (after which the process is killed), and stays running otherwise; with cleanup
  enabled the directory and everything below it are gone exactly when \<^verbatim>\<open>rmtree\<close> did
  remove them, and stay otherwise.
\<close>

theorem stop_idempotent:
  assumes "stop self w = (Inr (), self', w')"
  shows "stop self' w' = (Inr (), self', w')
    \<and> stop (DashdManager_init executable port extra) w
        = (Inr (), DashdManager_init executable port extra, w)
    \<and> process self' = None
    \<and> (should_cleanup self \<longrightarrow> temp_dir self' = None)
    \<and> (\<forall>pid. process self = Some pid \<and> (\<forall>e. graceful_stop w \<noteq> WaitRaised e)
          \<longrightarrow> pid \<notin> running w')
    \<and> (\<forall>d. temp_dir self = Some d \<and> should_cleanup self \<and> rmtree_result w d = Removed
          \<longrightarrow> (\<forall>p \<in> dirs w'. \<not> under d p))
    \<and> (\<forall>pid. process self = Some pid
          \<longrightarrow> running w' = (if \<exists>e. graceful_stop w = WaitRaised e then running w
                             else running w - {pid}))
    \<and> (\<forall>d. temp_dir self = Some d \<and> should_cleanup self
          \<longrightarrow> dirs w' = (if rmtree_result w d = Removed
                          then Set.filter (\<lambda>p. \<not> under d p) (dirs w) else dirs w))"
proof -
  from assms obtain self1 w1 where
    sp: "stop_process self w = (None, self1, w1)" and
    ct: "cleanup_temp_dir self1 w1 = (None, self', w')"
    by (auto simp: stop_def split: prod.splits option.splits)
  note a = stop_process_cleared [OF sp] and b = cleanup_temp_dir_cleared [OF ct]
    and c = stop_process_dirs [OF sp]
  have handle: "process self' = None" using a b by simp
  have dir: "should_cleanup self \<longrightarrow> temp_dir self' = None" using a b by simp
  have again: "stop self' w' = (Inr (), self', w')"
  proof (rule stop_nothing_to_do [OF handle])
    show "temp_dir self' = None \<or> \<not> should_cleanup self'" using a b by auto
  qed
  have fresh: "stop (DashdManager_init executable port extra) w
        = (Inr (), DashdManager_init executable port extra, w)"
    by (rule stop_nothing_to_do) (simp_all add: DashdManager_init_def)
  have gone: "\<forall>pid. process self = Some pid \<and> (\<forall>e. graceful_stop w \<noteq> WaitRaised e)
          \<longrightarrow> pid \<notin> running w'"
    using stop_process_not_running [OF sp] b by auto
  have removed: "\<forall>d. temp_dir self = Some d \<and> should_cleanup self \<and> rmtree_result w d = Removed
          \<longrightarrow> (\<forall>p \<in> dirs w'. \<not> under d p)"
    using cleanup_temp_dir_removed [OF ct] a c by auto
  have processes: "\<forall>pid. process self = Some pid
          \<longrightarrow> running w' = (if \<exists>e. graceful_stop w = WaitRaised e then running w
                             else running w - {pid})"
  proof (intro allI impI)
    fix pid assume "process self = Some pid"
    from stop_process_running [OF sp this] b
    show "running w' = (if \<exists>e. graceful_stop w = WaitRaised e then running w
                        else running w - {pid})"
      by simp
  qed
  have directories: "\<forall>d. temp_dir self = Some d \<and> should_cleanup self
          \<longrightarrow> dirs w' = (if rmtree_result w d = Removed
                          then Set.filter (\<lambda>p. \<not> under d p) (dirs w) else dirs w)"
  proof (intro allI impI)
    fix d assume d: "temp_dir self = Some d \<and> should_cleanup self"
    with a have "temp_dir self1 = Some d" "should_cleanup self1" by simp_all
    from cleanup_temp_dir_dirs [OF ct this] c
    show "dirs w' = (if rmtree_result w d = Removed
                     then Set.filter (\<lambda>p. \<not> under d p) (dirs w) else dirs w)"
      by simp
  qed
  from again fresh handle dir gone removed processes directories show ?thesis
    by (intro conjI)
qed

theorem stop_idempotent_witness:
  "stop (fst started) (snd started) = (Inr (), fst stopped, snd stopped)
   \<and> stop (fst stopped) (snd stopped) = (Inr (), fst stopped, snd stopped)
   \<and> process (fst started) = Some 4242
   \<and> temp_dir (fst started) = Some ''/tmp/dash-testdata-k3x''
   \<and> process (fst stopped) = None
   \<and> temp_dir (fst stopped) = None
   \<and> 4242 \<notin> running (snd stopped)
   \<and> ''/tmp/dash-testdata-k3x'' \<notin> dirs (snd stopped)"
proof -
  have ok: "fst (stop (fst started) (snd started)) = Inr ()"
    by (simp add: started_value demo_world_def stop_def stop_process_def cleanup_temp_dir_def
        rmtree_ignore_errors_def log_action_def Let_def)
  have run: "stop (fst started) (snd started) = (Inr (), fst stopped, snd stopped)"
    using ok by (simp add: stopped_def Let_def prod_eq_iff)
  have facts: "process (fst started) = Some 4242"
    "temp_dir (fst started) = Some ''/tmp/dash-testdata-k3x''"
    "should_cleanup (fst started)" "graceful_stop (snd started) = Exited"
    "rmtree_result (snd started) ''/tmp/dash-testdata-k3x'' = Removed"
    by (simp_all add: started_value demo_world_def)
  note idem = stop_idempotent [OF run]
  from idem have "stop (fst stopped) (snd stopped) = (Inr (), fst stopped, snd stopped)" by blast
  moreover from idem have "process (fst stopped) = None" by blast
  moreover from idem facts have "temp_dir (fst stopped) = None" by blast
  moreover from idem facts have "4242 \<notin> running (snd stopped)" by simp
  moreover from idem facts have "\<forall>p \<in> dirs (snd stopped). \<not> under ''/tmp/dash-testdata-k3x'' p"
    by blast
  then have "''/tmp/dash-testdata-k3x'' \<notin> dirs (snd stopped)" by (auto simp: under_def)
  ultimately show ?thesis using run facts by simp
qed


text \<open>
  Claim C5.  When the configured executable is absent or not executable, \<^verbatim>\<open>start\<close>
  fails with the startup error of the code, a \<^verbatim>\<open>DashdConnectionError\<close>, and hands
  the manager and the operating system back exactly as they were: no port was probed, no
  directory created, no process launched, nothing logged.  A manager that had no process
  and no temporary directory, as every manager fresh from \<^verbatim>\<open>__init__\<close>, still has
  none, and a \<^verbatim>\<open>stop\<close> that follows removes nothing.
\<close>

theorem start_without_executable:
  assumes "\<not> verify_dashd_executable self w"
  shows "(\<exists>msg. start answers keep_temp_arg self (w, env)
                 = (Inl (DashdConnectionError msg), self, w, env))
    \<and> (process self = None \<and> temp_dir self = None \<longrightarrow> stop self w = (Inr (), self, w))"
  using assms by (simp add: start_def stop_nothing_to_do)

theorem start_without_executable_witness:
  "\<not> verify_dashd_executable demo_manager bare_world
   \<and> fst (start idle_node False demo_manager (bare_world, ()))
       = Inl (DashdConnectionError
               (''dashd executable not found or not runnable: /opt/dash/bin/dashd''
                  @ [CHR 0x0A]
                  @ ''Please ensure dashd is installed and accessible, or use --dashd-path to specify location''))
   \<and> snd (start idle_node False demo_manager (bare_world, ())) = (demo_manager, bare_world, ())
   \<and> temp_dir demo_manager = None
   \<and> actions bare_world = []
   \<and> stop demo_manager bare_world = (Inr (), demo_manager, bare_world)"
proof -
  have missing: "\<not> verify_dashd_executable demo_manager bare_world"
    by (simp add: verify_dashd_executable_def demo_manager_def DashdManager_init_def
          bare_world_def demo_world_def is_absolute_def)
  have fresh: "process demo_manager = None \<and> temp_dir demo_manager = None"
    by (simp add: demo_manager_def DashdManager_init_def)
  from start_without_executable [OF missing, of idle_node False "()"] fresh
  have "snd (start idle_node False demo_manager (bare_world, ())) = (demo_manager, bare_world, ())"
    and "stop demo_manager bare_world = (Inr (), demo_manager, bare_world)"
    by auto
  moreover have "fst (start idle_node False demo_manager (bare_world, ()))
       = Inl (DashdConnectionError
               (''dashd executable not found or not runnable: /opt/dash/bin/dashd''
                  @ [CHR 0x0A]
                  @ ''Please ensure dashd is installed and accessible, or use --dashd-path to specify location''))"
    using missing by (simp add: start_def demo_manager_def DashdManager_init_def)
  moreover have "actions bare_world = []" by (simp add: bare_world_def demo_world_def)
  ultimately show ?thesis using missing fresh by simp
qed

text \<open>
  Claim C6, as stated, fails: \<^verbatim>\<open>_wait_for_ready\<close> answers \<^verbatim>\<open>False\<close> both for a
  process that exited and for a timeout, and \<^verbatim>\<open>start\<close> raises one and the same
  \<^verbatim>\<open>DashdConnectionError\<close> for both; the error output of the process is read and
  printed, not carried by the error.  On the machine whose node exits at once with a
  message on its error output and on the machine whose node hangs, \<^verbatim>\<open>start\<close> fails
  with the same error.
\<close>

theorem start_failure_not_distinguished:
  "fst (start deaf_node False demo_manager (crashing_world, ())) = Inl startup_failed
   \<and> fst (start deaf_node False demo_manager (hanging_world, ())) = Inl startup_failed
   \<and> stderr_output crashing_world = ''Error: Cannot obtain a lock on data directory''
   \<and> \<not> sublist (stderr_output crashing_world) (str_of_exception startup_failed)"
proof -
  have "fst (start deaf_node False demo_manager (crashing_world, ())) = Inl startup_failed"
    by (simp add: crashing_world_def demo_manager_def demo_world_def deaf_node_def manager_eval)
  moreover have "fst (start deaf_node False demo_manager (hanging_world, ())) = Inl startup_failed"
    by (simp add: hanging_world_def demo_manager_def demo_world_def deaf_node_def manager_eval)
  moreover have "\<not> sublist (stderr_output crashing_world) (str_of_exception startup_failed)"
    by (simp add: crashing_world_def demo_world_def startup_failed_def sublist_code)
  ultimately show ?thesis by (simp add: crashing_world_def)
qed

text \<open>
  The time bound behind the amended claim: when the process is dead from time \<open>t0\<close> on and
  a liveness call takes at most \<open>L\<close> milliseconds, the poll ends no later than one call
  and one sleep after \<open>t0\<close>, whatever the deadline.
\<close>

lemma wait_loop_ends_after_exit:
  assumes "process self = Some pid"
    and "\<forall>t \<ge> t0. exit_code_at w t \<noteq> None"
    and "\<forall>t. latency_at w t \<le> L"
    and "wait_loop answers client self deadline (w, env) = (r, w', env')"
  shows "clock w' \<le> max (clock w) (t0 + L + 500)"
  using assms
proof (induction answers client self deadline "(w, env)" arbitrary: w env rule: wait_loop.induct)
  case (1 answers client self deadline w env)
  show ?case
  proof (cases "clock w < deadline")
    case False
    with "1.prems"(4) show ?thesis by (simp add: wait_loop.simps)
  next
    case True
    show ?thesis
    proof (cases "exit_code_at w (clock w)")
      case (Some code)
      with True "1.prems"(1,4) show ?thesis
        by (auto simp: wait_loop.simps poll_process_def log_action_def)
    next
      case None
      with "1.prems"(2) have before: "clock w < t0" by (metis not_le_imp_less)
      define w1 where "w1 = log_action (Poll pid) w"
      have poll: "poll_process self w = (None, w1)"
        using None "1.prems"(1) by (simp add: poll_process_def w1_def)
      obtain res env1 where call: "answers client (Request ''getblockcount'' [] None) env = (res, env1)"
        by (cases "answers client (Request ''getblockcount'' [] None) env")
      define w2 where "w2 = (log_action Probe w1)\<lparr>clock := clock w1 + latency_at w1 (clock w1)\<rparr>"
      have c2: "clock w2 = clock w + latency_at w (clock w)"
        by (simp add: w2_def w1_def log_action_def)
      have lat: "latency_at w (clock w) \<le> L" using "1.prems"(3) by simp
      show ?thesis
      proof (cases res)
        case (Inr v)
        with True poll call "1.prems"(4) have "w' = w2"
          by (simp add: wait_loop.simps w2_def Let_def)
        with c2 lat before show ?thesis by simp
      next
        case (Inl e)
        show ?thesis
        proof (cases "is_Exception e")
          case False
          with Inl True poll call "1.prems"(4) have "w' = w2"
            by (simp add: wait_loop.simps w2_def Let_def)
          with c2 lat before show ?thesis by simp
        next
          case exc: True
          define w3 where "w3 = (log_action Sleep w2)\<lparr>clock := clock w2 + 500\<rparr>"
          have rec: "wait_loop answers client self deadline (w3, env1) = (r, w', env')"
            using Inl exc True poll call "1.prems"(4)
            by (simp add: wait_loop.simps [of answers client self deadline w env] w2_def w3_def Let_def)
          have scripts: "exit_code_at w3 = exit_code_at w" "latency_at w3 = latency_at w"
            by (simp_all add: w3_def w2_def w1_def log_action_def)
          have "clock w' \<le> max (clock w3) (t0 + L + 500)"
            using "1.hyps" [OF True poll [symmetric] refl call [symmetric] refl Inl exc
                "1.prems"(1)] "1.prems"(2,3) rec scripts
            by (simp add: w3_def w2_def)
          moreover have "clock w3 \<le> t0 + L + 500"
            using c2 lat before by (simp add: w3_def log_action_def)
          ultimately show ?thesis by simp
        qed
      qed
    qed
  qed
qed

text \<open>
  Claim C6, amended.  The readiness poll checks the process at the start of every round:
  a round that finds the process exited answers \<^verbatim>\<open>False\<close> at once, after reading the
  error output, with no further liveness call and no sleep; so the poll ends at most one
  liveness call and one sleep after the process died, not at the timeout.  \<^verbatim>\<open>start\<close>
  then stops the manager and fails with the same \<^verbatim>\<open>DashdConnectionError\<close> (``dashd
  failed to start within 30 seconds'') that it raises when the timeout elapses.
\<close>

theorem readiness_poll_fails_fast:
  "(process self = Some pid \<and> clock w < deadline \<and> exit_code_at w (clock w) = Some code
      \<longrightarrow> wait_loop answers client self deadline (w, env)
            = (Inr False,
               (log_action (ReadStderr pid) (log_action (Poll pid) w))
                 \<lparr>running := running w - {pid}\<rparr>, env))
   \<and> (process self = Some pid \<and> (\<forall>t \<ge> t0. exit_code_at w t \<noteq> None)
        \<and> (\<forall>t. latency_at w t \<le> L)
        \<and> wait_loop answers client self deadline (w, env) = (r, w1, env1)
      \<longrightarrow> clock w1 \<le> max (clock w) (t0 + L + 500))
   \<and> (wait_for_ready answers self 30 we = (Inr False, w', env') \<and> stop self w' = (Inr (), self', w'')
      \<longrightarrow> await_ready answers self we = (Inl startup_failed, self', w'', env'))"
proof -
  have "process self = Some pid \<and> clock w < deadline \<and> exit_code_at w (clock w) = Some code
      \<longrightarrow> wait_loop answers client self deadline (w, env)
            = (Inr False,
               (log_action (ReadStderr pid) (log_action (Poll pid) w))
                 \<lparr>running := running w - {pid}\<rparr>, env)"
    by (simp add: wait_loop.simps poll_process_def log_action_def)
  moreover have "process self = Some pid \<and> (\<forall>t \<ge> t0. exit_code_at w t \<noteq> None)
        \<and> (\<forall>t. latency_at w t \<le> L)
        \<and> wait_loop answers client self deadline (w, env) = (r, w1, env1)
      \<longrightarrow> clock w1 \<le> max (clock w) (t0 + L + 500)"
    using wait_loop_ends_after_exit [of self pid t0 w L answers client deadline env r w1 env1]
    by blast
  moreover have "wait_for_ready answers self 30 we = (Inr False, w', env')
        \<and> stop self w' = (Inr (), self', w'')
      \<longrightarrow> await_ready answers self we = (Inl startup_failed, self', w'', env')"
    by (simp add: await_ready_def)
  ultimately show ?thesis by blast
qed

theorem readiness_poll_fails_fast_witness:
  "process (fst started) = Some 4242
   \<and> clock crashing_world < 30000
   \<and> exit_code_at crashing_world (clock crashing_world) = Some 1
   \<and> wait_loop deaf_node \<lparr>client_dashcli_path = ''dash-cli'', datadir = None, client_rpc_port = None\<rparr>
         (fst started) 30000 (crashing_world, ())
       = (Inr False,
          (log_action (ReadStderr 4242) (log_action (Poll 4242) crashing_world))
            \<lparr>running := running crashing_world - {4242}\<rparr>, ())
   \<and> clock (fst (snd (wait_loop deaf_node
                  \<lparr>client_dashcli_path = ''dash-cli'', datadir = None, client_rpc_port = None\<rparr>
                  (fst started) 30000 (crashing_world, ()))))
       \<le> max (clock crashing_world) (0 + 20 + 500)
   \<and> fst (await_ready deaf_node (fst started) (crashing_world, ())) = Inl startup_failed"
proof -
  let ?c = "\<lparr>client_dashcli_path = ''dash-cli'', datadir = None, client_rpc_port = None\<rparr>"
  let ?loop = "wait_loop deaf_node ?c (fst started) 30000 (crashing_world, ())"
  let ?ready = "wait_for_ready deaf_node (fst started) 30 (crashing_world, ())"
  let ?stop = "stop (fst started) (fst (snd ?ready))"
  have pid: "process (fst started) = Some 4242" by (simp add: started_value)
  have now: "clock crashing_world < 30000"
    and dead: "exit_code_at crashing_world (clock crashing_world) = Some 1"
    and dead_on: "\<forall>t \<ge> 0. exit_code_at crashing_world t \<noteq> None"
    and quick: "\<forall>t. latency_at crashing_world t \<le> 20"
    by (simp_all add: crashing_world_def demo_world_def)
  have ready: "?ready = (Inr False, fst (snd ?ready), snd (snd ?ready))"
  proof -
    have "fst ?ready = Inr False"
      by (simp add: started_value crashing_world_def demo_world_def deaf_node_def manager_eval)
    then show ?thesis by (simp add: prod_eq_iff)
  qed
  have stops: "?stop = (Inr (), fst (snd ?stop), snd (snd ?stop))"
  proof -
    have "fst ?stop = Inr ()"
      by (simp add: started_value crashing_world_def demo_world_def deaf_node_def manager_eval)
    then show ?thesis by (simp add: prod_eq_iff)
  qed
  have loop: "?loop = (fst ?loop, fst (snd ?loop), snd (snd ?loop))" by (simp add: prod_eq_iff)
  note poll = readiness_poll_fails_fast [of "fst started" 4242 crashing_world 30000 1
      deaf_node ?c "()" 0 20 "fst ?loop" "fst (snd ?loop)" "snd (snd ?loop)"
      "(crashing_world, ())" "fst (snd ?ready)" "snd (snd ?ready)"
      "fst (snd ?stop)" "snd (snd ?stop)"]
  from poll pid now dead have "?loop = (Inr False,
          (log_action (ReadStderr 4242) (log_action (Poll 4242) crashing_world))
            \<lparr>running := running crashing_world - {4242}\<rparr>, ())"
    by blast
  moreover from poll pid dead_on quick loop
  have "clock (fst (snd ?loop)) \<le> max (clock crashing_world) (0 + 20 + 500)"
    by blast
  moreover from poll ready stops
  have "await_ready deaf_node (fst started) (crashing_world, ())
          = (Inl startup_failed, fst (snd ?stop), snd (snd ?stop), snd (snd ?ready))"
    by blast
  then have "fst (await_ready deaf_node (fst started) (crashing_world, ())) = Inl startup_failed"
    by simp
  ultimately show ?thesis using pid now dead by blast
qed

section \<open>Properties of the wallet statistics\<close>

lemma utxo_entry_amount:
  "utxo_entry u = Inr entry \<Longrightarrow> py_getitem entry ''amount'' = py_getitem u ''amount''"
  by (auto simp: utxo_entry_def and_then_def split: sum.splits)

lemma entries_amounts:
  "map_raising utxo_entry us = Inr entries \<Longrightarrow>
     \<exists>amounts. map_raising (\<lambda>u. py_getitem u ''amount'') us = Inr amounts
        \<and> map_raising (\<lambda>u. py_getitem u ''amount'') entries = Inr amounts"
proof (induction us arbitrary: entries)
  case Nil
  then show ?case by simp
next
  case (Cons u us)
  from Cons.prems obtain entry rest where
    entry: "utxo_entry u = Inr entry" and rest: "map_raising utxo_entry us = Inr rest"
    and entries: "entries = entry # rest"
    by (auto split: sum.splits)
  from entry obtain a where a: "py_getitem u ''amount'' = Inr a"
    by (auto simp: utxo_entry_def and_then_def split: sum.splits)
  from Cons.IH [OF rest] obtain amounts where
    "map_raising (\<lambda>u. py_getitem u ''amount'') us = Inr amounts"
    "map_raising (\<lambda>u. py_getitem u ''amount'') rest = Inr amounts"
    by blast
  with a utxo_entry_amount [OF entry] entries show ?case by simp
qed

lemma sum_amounts_values:
  "map_raising (\<lambda>u. py_getitem u ''amount'') us = Inr amounts \<Longrightarrow>
     sum_amounts acc us = py_sum_from acc amounts"
proof (induction us arbitrary: amounts acc)
  case Nil
  then show ?case by simp
next
  case (Cons u us)
  then show ?case by (auto split: sum.splits)
qed

lemma sum_amounts_entries:
  assumes "map_raising utxo_entry us = Inr entries"
  shows "sum_amounts acc us
       = and_then (map_raising (\<lambda>u. py_getitem u ''amount'') entries) (py_sum_from acc)"
proof -
  from entries_amounts [OF assms] obtain amounts where
    "map_raising (\<lambda>u. py_getitem u ''amount'') us = Inr amounts"
    "map_raising (\<lambda>u. py_getitem u ''amount'') entries = Inr amounts"
    by blast
  then show ?thesis by (simp add: sum_amounts_values and_then_def)
qed

lemma py_sum_eta: "py_sum = py_sum_from 0"
  by (rule ext) (simp add: py_sum_def)

lemma collect_utxos_result:
  assumes "collect_utxos client name s = (Inr (entries, tot), s')"
  shows "\<exists>b. tot = JNum b
           \<and> and_then (map_raising (\<lambda>u. py_getitem u ''amount'') entries) py_sum = Inr b"
proof -
  from assms consider
      (handled) "entries = []" "tot = JNum 0"
    | (computed) us b where "map_raising utxo_entry us = Inr entries"
        "sum_amounts 0 us = Inr b" "tot = JNum b"
    by (auto simp: collect_utxos_def try_except_def bnd_def call_def lift_def and_then_def
               ret_def split: sum.splits if_splits prod.splits)
  then show ?thesis
  proof cases
    case handled
    then show ?thesis by (simp add: and_then_def py_sum_def)
  next
    case computed
    with sum_amounts_entries [of us entries 0] show ?thesis by (simp add: py_sum_eta)
  qed
qed

lemma collect_utxos_error:
  assumes "fst (node_answers s client
                 (Request ''listunspent'' [JNum 1, JNum 9999999, JList []] (Some name))
                 (node_state s)) = Inl (RPCError m)"
  shows "fst (collect_utxos client name s) = Inr ([], JNum 0)"
  using assms
  by (auto simp: collect_utxos_def try_except_def bnd_def call_def ret_def split: prod.splits)

text \<open>
  Claim C10.  Whenever \<^verbatim>\<open>collect_wallet_stats\<close> returns, the balance it reports is
  the sum of the \<^verbatim>\<open>amount\<close> fields of the list of unspent outputs it reports; and when
  the query for the unspent outputs raises an \<^verbatim>\<open>RPCError\<close>, that list is empty and
  the balance is 0.
\<close>

theorem collect_wallet_stats_balance:
  "(collect_wallet_stats client name s = (Inr st, s') \<longrightarrow>
      (\<exists>b. stats_balance st = JNum b
         \<and> and_then (map_raising (\<lambda>u. py_getitem u ''amount'') (stats_utxos st)) py_sum = Inr b))
   \<and> (collect_wallet_stats client name s = (Inr st, s')
        \<and> collect_transactions client name s = (Inr txs, s1)
        \<and> fst (node_answers s1 client
                 (Request ''listunspent'' [JNum 1, JNum 9999999, JList []] (Some name))
                 (node_state s1)) = Inl (RPCError m)
      \<longrightarrow> stats_utxos st = [] \<and> stats_balance st = JNum 0)"
proof -
  have consistent: "\<exists>b. stats_balance st = JNum b
         \<and> and_then (map_raising (\<lambda>u. py_getitem u ''amount'') (stats_utxos st)) py_sum = Inr b"
    if run: "collect_wallet_stats client name s = (Inr st, s')"
  proof -
    from run obtain txs0 s10 found s2 where
      "collect_transactions client name s = (Inr txs0, s10)"
      "collect_utxos client name s10 = (Inr found, s2)"
      "stats_utxos st = fst found" "stats_balance st = snd found"
      by (auto simp: collect_wallet_stats_def bnd_def ret_def split: sum.splits prod.splits)
    with collect_utxos_result [of client name s10 "fst found" "snd found" s2]
    show ?thesis by simp
  qed
  have failed: "stats_utxos st = [] \<and> stats_balance st = JNum 0"
    if run: "collect_wallet_stats client name s = (Inr st, s')"
      and txs: "collect_transactions client name s = (Inr txs, s1)"
      and err: "fst (node_answers s1 client
                 (Request ''listunspent'' [JNum 1, JNum 9999999, JList []] (Some name))
                 (node_state s1)) = Inl (RPCError m)"
  proof -
    from run txs obtain found s2 where
      "collect_utxos client name s1 = (Inr found, s2)"
      "stats_utxos st = fst found" "stats_balance st = snd found"
      by (auto simp: collect_wallet_stats_def bnd_def ret_def split: sum.splits prod.splits)
    with collect_utxos_error [OF err] show ?thesis by simp
  qed
  from consistent failed show ?thesis by blast
qed


theorem collect_wallet_stats_balance_witness:
  "fst (collect_wallet_stats demo_client ''wallet'' (wallet_run wallet_node))
     = Inr \<lparr>stats_wallet_name = ''wallet'', stats_mnemonic = JStr ''abandon able'',
            stats_transactions = [],
            stats_utxos =
              [JDict [(''txid'', JStr ''a1''), (''vout'', JNum 0), (''address'', JStr ''yAddr3''),
                      (''amount'', JNum 1.5), (''confirmations'', JNum 12)],
               JDict [(''txid'', JStr ''b2''), (''vout'', JNum 1), (''address'', JNull),
                      (''amount'', JNum 2), (''confirmations'', JNum 0)]],
            stats_balance = JNum 3.5\<rparr>
   \<and> and_then (map_raising (\<lambda>u. py_getitem u ''amount'')
         [JDict [(''txid'', JStr ''a1''), (''vout'', JNum 0), (''address'', JStr ''yAddr3''),
                 (''amount'', JNum 1.5), (''confirmations'', JNum 12)],
          JDict [(''txid'', JStr ''b2''), (''vout'', JNum 1), (''address'', JNull),
                 (''amount'', JNum 2), (''confirmations'', JNum 0)]]) py_sum = Inr 3.5
   \<and> fst (collect_wallet_stats demo_client ''wallet'' (wallet_run locked_node))
     = Inr \<lparr>stats_wallet_name = ''wallet'', stats_mnemonic = JStr ''abandon able'',
            stats_transactions = [], stats_utxos = [], stats_balance = JNum 0\<rparr>"
proof -
  let ?good = "collect_wallet_stats demo_client ''wallet'' (wallet_run wallet_node)"
  let ?bad = "collect_wallet_stats demo_client ''wallet'' (wallet_run locked_node)"
  let ?txs = "collect_transactions demo_client ''wallet'' (wallet_run locked_node)"
  let ?st = "\<lparr>stats_wallet_name = ''wallet'', stats_mnemonic = JStr ''abandon able'',
            stats_transactions = [],
            stats_utxos =
              [JDict [(''txid'', JStr ''a1''), (''vout'', JNum 0), (''address'', JStr ''yAddr3''),
                      (''amount'', JNum 1.5), (''confirmations'', JNum 12)],
               JDict [(''txid'', JStr ''b2''), (''vout'', JNum 1), (''address'', JNull),
                      (''amount'', JNum 2), (''confirmations'', JNum 0)]],
            stats_balance = JNum 3.5\<rparr>"
  note defs = collect_wallet_stats_def collect_transactions_def collect_utxos_def
    collect_mnemonic_def try_except_def bnd_def ret_def lift_def call_def and_then_def
    utxo_entry_def transaction_entry_def wallet_run_def Generator_init_def two_utxos_def
  have good_fst: "fst ?good = Inr ?st" by (simp add: defs)
  then have good: "?good = (Inr ?st, snd ?good)" by (simp add: prod_eq_iff)
  obtain st' where bad_fst: "fst ?bad = Inr st'" by (simp add: defs)
  then have bad: "?bad = (Inr st', snd ?bad)" by (simp add: prod_eq_iff)
  have txs: "?txs = (Inr [], snd ?txs)" by (simp add: prod_eq_iff defs)
  have refused: "fst (node_answers (snd ?txs) demo_client
                 (Request ''listunspent'' [JNum 1, JNum 9999999, JList []] (Some ''wallet''))
                 (node_state (snd ?txs))) = Inl (RPCError ''Wallet is locked'')"
    by (simp add: defs)
  have "\<exists>b. stats_balance ?st = JNum b
      \<and> and_then (map_raising (\<lambda>u. py_getitem u ''amount'') (stats_utxos ?st)) py_sum = Inr b"
    using collect_wallet_stats_balance [of demo_client "''wallet''" "wallet_run wallet_node" ?st
      "snd ?good"] good by blast
  then obtain b where b: "stats_balance ?st = JNum b"
    and sum_b: "and_then (map_raising (\<lambda>u. py_getitem u ''amount'') (stats_utxos ?st)) py_sum
      = Inr b"
    by blast
  from b have "b = 3.5" by simp
  with sum_b have sum: "and_then (map_raising (\<lambda>u. py_getitem u ''amount'') (stats_utxos ?st)) py_sum
      = Inr 3.5" by simp
  from collect_wallet_stats_balance [of demo_client "''wallet''" "wallet_run locked_node" st'
      "snd ?bad" "[]" "snd ?txs" "''Wallet is locked''"] bad txs refused
  have "stats_utxos st' = [] \<and> stats_balance st' = JNum 0" by blast
  moreover have "stats_wallet_name st' = ''wallet'' \<and> stats_mnemonic st' = JStr ''abandon able''
      \<and> stats_transactions st' = []"
    using bad_fst by (auto simp: defs)
  ultimately have "st' = \<lparr>stats_wallet_name = ''wallet'', stats_mnemonic = JStr ''abandon able'',
            stats_transactions = [], stats_utxos = [], stats_balance = JNum 0\<rparr>"
    by (cases st') simp
  with good_fst sum bad_fst show ?thesis by simp
qed

section \<open>Expected errors during wallet setup\<close>

lemma lower_fixed:
  "lower ''already loaded'' = ''already loaded''"
  "lower ''already exists'' = ''already exists''"
  "lower ''not found'' = ''not found''"
  "lower ''does not exist'' = ''does not exist''"
  by (simp_all add: lower_def lower_char_def)

lemma sublist_lower:
  assumes "sublist p m"
  shows "sublist (lower p) (lower m)"
proof -
  from assms obtain ps ss where "m = ps @ p @ ss" by (auto simp: sublist_def)
  then have "lower m = lower ps @ lower p @ lower ss" by (simp add: lower_def)
  then show ?thesis unfolding sublist_def by blast
qed

text \<open>
  Claim C7.  During wallet setup an \<^verbatim>\<open>RPCError\<close> whose message contains one of the
  anticipated conditions is absorbed: ``already loaded'' on loading the faucet wallet,
  ``already exists'' or ``already loaded'' on creating the test wallet, while ``not
  found'' or ``does not exist'' on loading makes the code create the wallet instead
  (whose own outcome is then the outcome).  Every other \<^verbatim>\<open>RPCError\<close> is raised again.
  The code looks for the condition in the lowered message, so the test ignores the case
  of the letters; a message that holds the condition as written passes it.
\<close>

theorem benign_wallet_errors_absorbed:
  assumes "rpc s = Some client"
  shows
    "(call client ''loadwallet'' [JStr (dashd_wallet (config s))] None s
        = (Inl (RPCError m), s1) \<longrightarrow>
      load_faucet_wallet s =
        (if sublist ''already loaded'' (lower m) then (Inr (), s1)
         else if sublist ''not found'' (lower m) \<or> sublist ''does not exist'' (lower m)
         then rpc_do ''createwallet'' [JStr (dashd_wallet (config s))] None s1
         else (Inl (RPCError m), s1)))
     \<and> (call client ''createwallet'' [JStr WALLET_NAME] None s = (Inl (RPCError m), s1) \<longrightarrow>
      create_test_wallet s =
        (if sublist ''already exists'' (lower m) \<or> sublist ''already loaded'' (lower m)
         then (Inr (), s1) else (Inl (RPCError m), s1)))
     \<and> (sublist ''already loaded'' m \<longrightarrow> sublist ''already loaded'' (lower m))
     \<and> (sublist ''already exists'' m \<longrightarrow> sublist ''already exists'' (lower m))
     \<and> (sublist ''not found'' m \<longrightarrow> sublist ''not found'' (lower m))
     \<and> (sublist ''does not exist'' m \<longrightarrow> sublist ''does not exist'' (lower m))"
proof -
  have load: "load_faucet_wallet s =
        (if sublist ''already loaded'' (lower m) then (Inr (), s1)
         else if sublist ''not found'' (lower m) \<or> sublist ''does not exist'' (lower m)
         then rpc_do ''createwallet'' [JStr (dashd_wallet (config s))] None s1
         else (Inl (RPCError m), s1))"
    if answer: "call client ''loadwallet'' [JStr (dashd_wallet (config s))] None s
                  = (Inl (RPCError m), s1)"
  proof -
    from answer have same: "config s1 = config s"
      by (auto simp: call_def split: prod.splits)
    from answer assms have "load_faucet_wallet s = load_wallet_handler (RPCError m) s1"
      by (simp add: load_faucet_wallet_def try_except_def bnd_def reads_def rpc_do_def
            rpc_call_def)
    then show ?thesis
      by (simp add: load_wallet_handler_def Let_def ret_def raise_def bnd_def reads_def same)
  qed
  have create: "create_test_wallet s =
        (if sublist ''already exists'' (lower m) \<or> sublist ''already loaded'' (lower m)
         then (Inr (), s1) else (Inl (RPCError m), s1))"
    if answer: "call client ''createwallet'' [JStr WALLET_NAME] None s = (Inl (RPCError m), s1)"
  proof -
    from answer assms have "create_test_wallet s = create_wallet_handler (RPCError m) s1"
      by (simp add: create_test_wallet_def try_except_def bnd_def rpc_do_def rpc_call_def)
    then show ?thesis
      by (simp add: create_wallet_handler_def Let_def ret_def raise_def)
  qed
  from load create sublist_lower [of _ m] show ?thesis
    by (metis lower_fixed)
qed

theorem benign_wallet_errors_absorbed_witness:
  "rpc reloading_run = Some demo_client
   \<and> fst (call demo_client ''loadwallet'' [JStr (dashd_wallet (config reloading_run))] None
            reloading_run)
       = Inl (RPCError ''error code: -35 Wallet default is Already Loaded.'')
   \<and> sublist ''already loaded'' (lower ''error code: -35 Wallet default is Already Loaded.'')
   \<and> fst (load_faucet_wallet reloading_run) = Inr ()
   \<and> fst (call demo_client ''createwallet'' [JStr WALLET_NAME] None reloading_run)
       = Inl (RPCError ''error code: -4 Wallet wallet already exists.'')
   \<and> sublist ''already exists'' ''error code: -4 Wallet wallet already exists.''
   \<and> fst (create_test_wallet reloading_run) = Inr ()"
proof -
  let ?load = "call demo_client ''loadwallet'' [JStr (dashd_wallet (config reloading_run))] None
                 reloading_run"
  let ?create = "call demo_client ''createwallet'' [JStr WALLET_NAME] None reloading_run"
  note defs = reloading_run_def wallet_run_def Generator_init_def call_def demo_config_def
  have client: "rpc reloading_run = Some demo_client" by (simp add: defs)
  have load_fst: "fst ?load = Inl (RPCError ''error code: -35 Wallet default is Already Loaded.'')"
    by (simp add: defs)
  then have load: "?load = (Inl (RPCError ''error code: -35 Wallet default is Already Loaded.''),
                            snd ?load)"
    by (simp add: prod_eq_iff)
  have create_fst: "fst ?create = Inl (RPCError ''error code: -4 Wallet wallet already exists.'')"
    by (simp add: defs)
  then have create: "?create = (Inl (RPCError ''error code: -4 Wallet wallet already exists.''),
                                snd ?create)"
    by (simp add: prod_eq_iff)
  have loaded: "sublist ''already loaded''
                  (lower ''error code: -35 Wallet default is Already Loaded.'')"
    by (simp add: lower_def lower_char_def sublist_code)
  have exists: "sublist ''already exists'' ''error code: -4 Wallet wallet already exists.''"
    by (simp add: sublist_code)
  from benign_wallet_errors_absorbed [OF client,
      of "''error code: -35 Wallet default is Already Loaded.''" "snd ?load"] load loaded
  have "load_faucet_wallet reloading_run = (Inr (), snd ?load)" by simp
  moreover
  from benign_wallet_errors_absorbed [OF client,
      of "''error code: -4 Wallet wallet already exists.''" "snd ?create"] create exists
  have "create_test_wallet reloading_run = (Inr (), snd ?create)" by simp
  ultimately show ?thesis using client load_fst create_fst loaded exists by simp
qed

section \<open>The mapping from index to address\<close>

subsection \<open>What a statement leaves untouched\<close>

lemma untouched_refl [simp]: "untouched s s"
  by (simp add: untouched_def)

lemma untouched_trans: "untouched s s1 \<Longrightarrow> untouched s1 s2 \<Longrightarrow> untouched s s2"
  unfolding untouched_def by (elim conjE exE) (rule conjI, simp, rule_tac x = "later @ latera" in exI, auto)

lemma untouched_same:
  "wallet_addresses s' = wallet_addresses s \<Longrightarrow> events s' = events s \<Longrightarrow> untouched s s'"
  by (simp add: untouched_def)

lemma keeps_addressesD: "keeps_addresses m \<Longrightarrow> m s = (r, s') \<Longrightarrow> untouched s s'"
  unfolding keeps_addresses_def by (metis snd_conv)

lemma keeps_silent:
  assumes "\<And>s. wallet_addresses (snd (m s)) = wallet_addresses s"
    and "\<And>s. events (snd (m s)) = events s"
  shows "keeps_addresses m"
  using assms unfolding keeps_addresses_def by (simp add: untouched_same)

lemma keeps_ret [intro!, simp]: "keeps_addresses (ret x)"
  by (rule keeps_silent) (simp_all add: ret_def)

lemma keeps_raise [intro!, simp]: "keeps_addresses (raise e)"
  by (rule keeps_silent) (simp_all add: raise_def)

lemma keeps_lift [intro!, simp]: "keeps_addresses (lift r)"
  by (rule keeps_silent) (simp_all add: lift_def)

lemma keeps_reads [intro!, simp]: "keeps_addresses (reads f)"
  by (rule keeps_silent) (simp_all add: reads_def)

lemma keeps_modify:
  assumes "\<And>s. wallet_addresses (f s) = wallet_addresses s" "\<And>s. events (f s) = events s"
  shows "keeps_addresses (modify f)"
  by (rule keeps_silent) (simp_all add: modify_def assms)

lemma keeps_bnd [intro!]:
  assumes m: "keeps_addresses m" and f: "\<And>x. keeps_addresses (f x)"
  shows "keeps_addresses (bnd m f)"
  unfolding keeps_addresses_def
proof (intro allI)
  fix s
  obtain r s1 where run: "m s = (r, s1)" by (cases "m s")
  note first = keeps_addressesD [OF m run]
  show "untouched s (snd (bnd m f s))"
  proof (cases r)
    case (Inl e)
    with run first show ?thesis by (simp add: bnd_def)
  next
    case (Inr x)
    have "untouched s1 (snd (f x s1))" using f [of x] by (simp add: keeps_addresses_def)
    with first have "untouched s (snd (f x s1))" by (rule untouched_trans)
    with run Inr show ?thesis by (simp add: bnd_def)
  qed
qed

lemma keeps_seq [intro!]:
  assumes "\<And>m. m \<in> set ms \<Longrightarrow> keeps_addresses m"
  shows "keeps_addresses (seq ms)"
  using assms by (induction ms) auto

lemma keeps_try_except [intro!]:
  assumes m: "keeps_addresses m" and h: "\<And>e. keeps_addresses (handler e)"
  shows "keeps_addresses (try_except m caught handler)"
  unfolding keeps_addresses_def
proof (intro allI)
  fix s
  obtain r s1 where run: "m s = (r, s1)" by (cases "m s")
  note first = keeps_addressesD [OF m run]
  show "untouched s (snd (try_except m caught handler s))"
  proof (cases "\<exists>e. r = Inl e \<and> caught e")
    case False
    with run have "snd (try_except m caught handler s) = s1"
      by (cases r) (auto simp: try_except_def)
    with first show ?thesis by simp
  next
    case True
    then obtain e where e: "r = Inl e" "caught e" by blast
    have "untouched s1 (snd (handler e s1))" using h [of e] by (simp add: keeps_addresses_def)
    with first have "untouched s (snd (handler e s1))" by (rule untouched_trans)
    with run e show ?thesis by (simp add: try_except_def)
  qed
qed

lemma keeps_try_finally [intro!]:
  assumes m: "keeps_addresses m" and c: "keeps_addresses c"
  shows "keeps_addresses (try_finally m c)"
  unfolding keeps_addresses_def
proof (intro allI)
  fix s
  obtain r s1 where run: "m s = (r, s1)" by (cases "m s")
  obtain r2 s2 where fin: "c s1 = (r2, s2)" by (cases "c s1")
  from keeps_addressesD [OF m run] keeps_addressesD [OF c fin]
  have "untouched s s2" by (rule untouched_trans)
  moreover have "snd (try_finally m c s) = s2"
    using run fin by (cases r2) (simp_all add: try_finally_def)
  ultimately show "untouched s (snd (try_finally m c s))" by simp
qed

lemma keeps_if [intro!]:
  "keeps_addresses a \<Longrightarrow> keeps_addresses b \<Longrightarrow> keeps_addresses (if c then a else b)"
  by simp

lemma keeps_call [intro!, simp]: "keeps_addresses (call client name args wallet)"
  unfolding keeps_addresses_def untouched_def
  by (auto simp: call_def split: prod.splits)

lemma keeps_rpc_call [intro!, simp]: "keeps_addresses (rpc_call name args wallet)"
proof -
  have eq: "rpc_call name args wallet
        = bnd (reads rpc) (\<lambda>c. case c of None \<Rightarrow> raise AttributeError
                                     | Some client \<Rightarrow> call client name args wallet)"
    by (rule ext) (simp add: rpc_call_def bnd_def reads_def raise_def split: option.splits)
  show ?thesis
    unfolding eq by (intro keeps_bnd keeps_reads) (simp split: option.splits)
qed

lemma keeps_rpc_do [intro!, simp]: "keeps_addresses (rpc_do name args wallet)"
  unfolding rpc_do_def by (intro keeps_bnd keeps_rpc_call keeps_ret)

lemma keeps_lookup_address [intro!, simp]: "keeps_addresses (lookup_address i)"
  unfolding keeps_addresses_def untouched_def
  by (auto simp: lookup_address_def split: option.splits)

lemma keeps_add_transactions_created [intro!, simp]:
  "keeps_addresses (add_transactions_created n)"
  unfolding add_transactions_created_def by (rule keeps_modify) simp_all

lemma keeps_add_coinbase_rewards [intro!, simp]: "keeps_addresses (add_coinbase_rewards n)"
  unfolding add_coinbase_rewards_def by (rule keeps_modify) simp_all

lemma keeps_send_to_wallet [intro!, simp]: "keeps_addresses (send_to_wallet i amount)"
  unfolding send_to_wallet_def by (intro keeps_bnd) simp_all

lemma keeps_mine_blocks [intro!, simp]: "keeps_addresses (mine_blocks n address)"
  unfolding mine_blocks_def by (intro keeps_bnd keeps_if) simp_all

lemma keeps_mine_and_log [intro!, simp]: "keeps_addresses (mine_and_log n)"
  unfolding mine_and_log_def by (intro keeps_bnd) simp_all

lemma keeps_phase_normal_activity: "keeps_addresses phase_normal_activity"
  unfolding phase_normal_activity_def sendmany_recipients_def
  by (intro keeps_seq) (auto intro!: keeps_bnd)

lemma keeps_phase_gap_limit_boundary: "keeps_addresses phase_gap_limit_boundary"
  unfolding phase_gap_limit_boundary_def by (intro keeps_seq) auto

lemma keeps_phase_beyond_gap_limit: "keeps_addresses phase_beyond_gap_limit"
  unfolding phase_beyond_gap_limit_def by (intro keeps_seq) auto


lemma keeps_spend_from_wallet: "keeps_addresses spend_from_wallet"
  unfolding spend_from_wallet_def by (intro keeps_bnd keeps_try_except) simp_all

lemma keeps_broadcast_consolidation:
  "keeps_addresses (broadcast_consolidation selected amount)"
  unfolding broadcast_consolidation_def by (intro keeps_bnd keeps_if) simp_all

lemma keeps_consolidate: "keeps_addresses consolidate"
  unfolding consolidate_def
  by (intro keeps_bnd keeps_if keeps_broadcast_consolidation) simp_all

lemma keeps_phase_transaction_variety: "keeps_addresses phase_transaction_variety"
  unfolding phase_transaction_variety_def
  by (intro keeps_seq)
     (auto intro!: keeps_try_except keeps_consolidate keeps_spend_from_wallet)

lemma keeps_faucet_recipients: "keeps_addresses (faucet_recipients xs recipients)"
  by (induction xs arbitrary: recipients) (auto intro!: keeps_bnd)

lemma keeps_initialize_utxo_pool: "keeps_addresses initialize_utxo_pool"
  unfolding initialize_utxo_pool_def
  by (intro keeps_bnd keeps_faucet_recipients keeps_modify) simp_all

lemma keeps_mine_coinbase_window:
  "keeps_addresses (mine_coinbase_window addr stop_at l)"
  unfolding mine_coinbase_window_def Let_def by (intro keeps_bnd keeps_if) simp_all

lemma keeps_place_boundary_transactions:
  "keeps_addresses (place_boundary_transactions bs l)"
  by (induction bs arbitrary: l) (auto intro!: keeps_bnd)

lemma keeps_periodic_send: "keeps_addresses (periodic_send l)"
  unfolding periodic_send_def Let_def
  by (intro keeps_bnd keeps_if keeps_try_except) simp_all

lemma keeps_draw_random: "keeps_addresses draw_random"
  by (rule keeps_silent) (simp_all add: draw_random_def split: prod.splits)

lemma keeps_faucet_self_send: "keeps_addresses (faucet_self_send l)"
  unfolding faucet_self_send_def
  by (intro keeps_bnd keeps_if keeps_try_except keeps_draw_random) simp_all

lemma keeps_bulk_round: "keeps_addresses (bulk_round target addr l)"
  unfolding bulk_round_def Let_def
  by (intro keeps_bnd keeps_if keeps_mine_coinbase_window keeps_place_boundary_transactions
        keeps_periodic_send keeps_faucet_self_send) simp_all

lemma untouched_bulk_loop: "untouched s (snd (bulk_loop target addr l s))"
proof (induction target addr l s rule: bulk_loop.induct)
  case (1 target addr l s)
  show ?case
  proof (cases "current_height l < target")
    case False
    then show ?thesis by (simp add: bulk_loop.simps)
  next
    case True
    obtain r s1 where round: "bulk_round target addr l s = (r, s1)"
      by (cases "bulk_round target addr l s")
    note first = keeps_addressesD [OF keeps_bulk_round round]
    show ?thesis
    proof (cases r)
      case (Inl e)
      with True round first show ?thesis by (simp add: bulk_loop.simps)
    next
      case (Inr l')
      from "1.IH" [OF True round [symmetric] Inr]
      have "untouched s1 (snd (bulk_loop target addr l' s1))" .
      with first have "untouched s (snd (bulk_loop target addr l' s1))"
        by (rule untouched_trans)
      with True round Inr show ?thesis by (simp add: bulk_loop.simps [of target addr l s])
    qed
  qed
qed

lemma keeps_bulk_loop: "keeps_addresses (bulk_loop target addr l)"
  unfolding keeps_addresses_def by (simp add: untouched_bulk_loop)

lemma keeps_verify_final_height: "keeps_addresses (verify_final_height target)"
  unfolding verify_final_height_def by (intro keeps_bnd keeps_if) simp_all

lemma keeps_phase_bulk_generation: "keeps_addresses phase_bulk_generation"
  unfolding phase_bulk_generation_def
  by (intro keeps_bnd keeps_if keeps_bulk_loop keeps_verify_final_height) simp_all

lemma keeps_generate_blocks: "keeps_addresses generate_blocks"
  unfolding generate_blocks_def
  by (intro keeps_bnd keeps_seq keeps_modify)
     (auto intro: keeps_phase_normal_activity keeps_phase_gap_limit_boundary
        keeps_phase_beyond_gap_limit keeps_phase_transaction_variety
        keeps_phase_bulk_generation)

lemma keeps_os_only:
  assumes "\<And>s. \<exists>mgr w. snd (m s) = s\<lparr>dashd_manager := mgr, os_state := w\<rparr>"
  shows "keeps_addresses m"
proof (rule keeps_silent)
  fix s
  from assms [of s] obtain mgr w where "snd (m s) = s\<lparr>dashd_manager := mgr, os_state := w\<rparr>"
    by blast
  then show "wallet_addresses (snd (m s)) = wallet_addresses s" "events (snd (m s)) = events s"
    by simp_all
qed

lemma keeps_path_exists: "keeps_addresses (path_exists p)"
  unfolding path_exists_def by simp

lemma keeps_rmtree: "keeps_addresses (rmtree p)"
  by (rule keeps_silent) (simp_all add: rmtree_def Let_def split: rmtree_outcome.splits)

lemma keeps_mkdir: "keeps_addresses (mkdir p)"
  unfolding mkdir_def by (rule keeps_modify) simp_all

lemma keeps_copytree: "keeps_addresses (copytree src dst)"
  unfolding copytree_def by (rule keeps_modify) simp_all

lemma keeps_collect_wallet_stats: "keeps_addresses (collect_wallet_stats client name)"
  unfolding collect_wallet_stats_def collect_transactions_def collect_utxos_def
    collect_mnemonic_def
  by (intro keeps_bnd keeps_try_except) simp_all

lemma keeps_collect_loop: "keeps_addresses (collect_loop xs)"
proof (induction xs)
  case Nil
  show ?case by simp
next
  case (Cons i rest)
  show ?case
    unfolding collect_loop.simps
    by (intro keeps_bnd keeps_reads)
       (auto split: option.splits intro!: keeps_bnd keeps_collect_wallet_stats keeps_modify Cons)
qed

lemma keeps_collect_wallet_statistics: "keeps_addresses collect_wallet_statistics"
  unfolding collect_wallet_statistics_def by (intro keeps_bnd keeps_collect_loop) simp_all

lemma keeps_save_wallet_file: "keeps_addresses (save_wallet_file wallet p)"
  unfolding save_wallet_file_def by (intro keeps_bnd keeps_modify) simp_all

lemma keeps_save_loop: "keeps_addresses (save_loop d ws)"
  by (induction ws) (auto intro!: keeps_bnd keeps_save_wallet_file)

lemma keeps_save_wallet_files: "keeps_addresses save_wallet_files"
  unfolding save_wallet_files_def
  by (intro keeps_bnd keeps_reads)
     (auto split: option.splits intro!: keeps_bnd keeps_mkdir keeps_save_loop)

lemma keeps_stop_for_copy: "keeps_addresses stop_for_copy"
  by (rule keeps_silent)
     (simp_all add: stop_for_copy_def Let_def split: option.splits wait_outcome.splits)

lemma keeps_copy_dashd_datadir: "keeps_addresses (copy_dashd_datadir out)"
  unfolding copy_dashd_datadir_def
  by (intro keeps_bnd keeps_reads)
     (auto split: option.splits intro!: keeps_bnd keeps_path_exists keeps_rmtree keeps_copytree)

lemma keeps_cleanup_after_export: "keeps_addresses cleanup_after_export"
  by (rule keeps_silent)
     (simp_all add: cleanup_after_export_def split: option.splits prod.splits)

lemma keeps_export_data: "keeps_addresses export_data"
  unfolding export_data_def
  by (intro keeps_bnd keeps_seq keeps_if keeps_modify)
     (auto intro: keeps_path_exists keeps_rmtree keeps_mkdir keeps_collect_wallet_statistics
        keeps_save_wallet_files keeps_stop_for_copy keeps_copy_dashd_datadir
        keeps_cleanup_after_export)

lemma keeps_generate_cleanup: "keeps_addresses generate_cleanup"
  by (rule keeps_silent)
     (simp_all add: generate_cleanup_def Let_def
        split: option.splits prod.splits rmtree_outcome.splits)


lemma seq_append: "seq (xs @ ys) = bnd (seq xs) (\<lambda>u. seq ys)"
proof (induction xs)
  case Nil
  show ?case by (rule ext) (simp add: bnd_def ret_def)
next
  case (Cons m ms)
  show ?case
    by (rule ext) (simp add: Cons bnd_def split: prod.splits sum.splits)
qed

lemma generate_after_setup:
  assumes "seq [ensure_dashd_running, initialize_rpc_client, verify_dashd, load_addresses] s0
             = (Inr (), s)"
  shows "generate s0 =
           try_finally
             (try_except (seq [initialize_utxo_pool, generate_blocks, export_data])
                is_KeyboardInterrupt (\<lambda>e. raise (GeneratorError ''User interrupted'')))
             generate_cleanup s"
proof -
  have "generate_steps =
          seq ([ensure_dashd_running, initialize_rpc_client, verify_dashd, load_addresses]
               @ [initialize_utxo_pool, generate_blocks, export_data])"
    by (simp add: generate_steps_def)
  then have eq: "generate_steps =
          bnd (seq [ensure_dashd_running, initialize_rpc_client, verify_dashd, load_addresses])
            (\<lambda>u. seq [initialize_utxo_pool, generate_blocks, export_data])"
    by (simp only: seq_append)
  have "generate_steps s0 = seq [initialize_utxo_pool, generate_blocks, export_data] s"
    by (simp only: eq bnd_def assms prod.case sum.case)
  then show ?thesis by (simp add: generate_def try_finally_def try_except_def)
qed

lemma py_range_member: "a \<le> x \<Longrightarrow> x < b \<Longrightarrow> x \<in> set (py_range a b 1)"
proof (induction a b "1 :: int" rule: py_range.induct)
  case (1 start stop)
  then have lt: "start < stop" by simp
  then have unfold: "py_range start stop 1 = start # py_range (start + 1) stop 1"
    by (simp add: py_range.simps [of start stop 1])
  show ?case
  proof (cases "x = start")
    case True
    then show ?thesis by (simp add: unfold)
  next
    case False
    with "1.prems" have "start + 1 \<le> x" by simp
    with "1.hyps" lt "1.prems" have "x \<in> set (py_range (start + 1) stop 1)" by simp
    then show ?thesis by (simp add: unfold)
  qed
qed

lemma rpc_call_addresses:
  "rpc_call name args wallet s = (r, s') \<Longrightarrow> wallet_addresses s' = wallet_addresses s"
  by (auto simp: rpc_call_def call_def split: option.splits prod.splits)

lemma generate_addresses_stores:
  "generate_addresses xs found s = (Inr result, s') \<Longrightarrow>
     (\<forall>i \<in> set xs. wallet_addresses s' i \<noteq> None)
     \<and> (\<forall>j. wallet_addresses s j \<noteq> None \<longrightarrow> wallet_addresses s' j \<noteq> None)"
proof (induction xs arbitrary: found s)
  case Nil
  then show ?case by (simp add: ret_def)
next
  case (Cons i rest)
  from Cons.prems obtain address s1 where
    answer: "rpc_call ''getnewaddress'' [JStr (''addr_'' @ str_int i)] (Some WALLET_NAME) s
               = (Inr address, s1)"
    and rest: "generate_addresses rest (found @ [(address, i)])
                 (s1\<lparr>wallet_addresses := (wallet_addresses s1)(i \<mapsto> address)\<rparr>)
               = (Inr result, s')"
    by (auto simp: bnd_def modify_def split: prod.splits sum.splits)
  note same = rpc_call_addresses [OF answer]
  from Cons.IH [OF rest] same show ?case by auto
qed

lemma load_addresses_stores:
  assumes "load_addresses s = (Inr (), s')"
  shows "\<forall>i. 0 \<le> i \<and> i < NUM_ADDRESSES \<longrightarrow> wallet_addresses s' i \<noteq> None"
proof -
  from assms obtain sa found sb ws where
    gen: "generate_addresses (py_range 0 NUM_ADDRESSES 1) [] sa = (Inr found, sb)"
    and last: "s' = sb\<lparr>wallets := ws\<rparr>"
    by (auto simp: load_addresses_def bnd_def modify_def split: prod.splits sum.splits)
  from last have "wallet_addresses s' = wallet_addresses sb" by simp
  with generate_addresses_stores [OF gen] py_range_member [of 0 _ NUM_ADDRESSES]
  show ?thesis by auto
qed

lemma seq_last_step:
  assumes "seq [a, b, c, d] s0 = (Inr (), s)"
  obtains s3 where "d s3 = (Inr (), s)"
  using assms by (auto simp: bnd_def ret_def split: prod.splits sum.splits)

lemma send_to_wallet_events:
  assumes "wallet_addresses t i = Some a" and "rpc t = Some client"
  shows "events (snd (send_to_wallet i amount t))
       = events t @ [Resolved i a,
                     Call (Request ''sendtoaddress'' [a, JNum amount]
                             (Some (dashd_wallet (config t))))]"
  using assms
  by (auto simp: send_to_wallet_def lookup_address_def bnd_def reads_def faucet_def rpc_do_def
        rpc_call_def call_def ret_def add_transactions_created_def modify_def
        split: prod.splits sum.splits)

text \<open>
  Claim C8.  Once the setup of \<^verbatim>\<open>generate\<close> has gone through \<^verbatim>\<open>_load_addresses\<close>, the
  mapping from index to address has an address at every index from 0 to 49 and is the
  same at the end of the run, however the run ends; every address resolved from an index
  later in the run is the address stored at that index by \<^verbatim>\<open>_load_addresses\<close>; and a
  send against an index resolves the index in the mapping and sends to exactly that
  address.
\<close>

theorem address_mapping_stable:
  fixes s0 s :: "'e Generator"
  assumes "seq [ensure_dashd_running, initialize_rpc_client, verify_dashd, load_addresses] s0
             = (Inr (), s)"
  shows "wallet_addresses (snd (generate s0)) = wallet_addresses s
    \<and> (\<exists>later. events (snd (generate s0)) = events s @ later
          \<and> (\<forall>i a. Resolved i a \<in> set later \<longrightarrow> wallet_addresses s i = Some a))
    \<and> (\<forall>i. 0 \<le> i \<and> i < NUM_ADDRESSES \<longrightarrow> wallet_addresses s i \<noteq> None)
    \<and> (\<forall>t i a amount client. wallet_addresses t i = Some a \<and> rpc t = Some client \<longrightarrow>
          events (snd (send_to_wallet i amount (t :: 'e Generator)))
            = events t @ [Resolved i a,
                          Call (Request ''sendtoaddress'' [a, JNum amount]
                                  (Some (dashd_wallet (config t))))])"
proof -
  let ?rest = "try_finally
             (try_except (seq [initialize_utxo_pool, generate_blocks, export_data])
                is_KeyboardInterrupt (\<lambda>e. raise (GeneratorError ''User interrupted'')))
             generate_cleanup :: ('e, unit) stmt"
  have "keeps_addresses ?rest"
    by (intro keeps_try_finally keeps_try_except keeps_seq keeps_generate_cleanup)
       (auto intro: keeps_initialize_utxo_pool keeps_generate_blocks keeps_export_data)
  then have "untouched s (snd (?rest s))"
    by (simp only: keeps_addresses_def)
  then have "untouched s (snd (generate s0))"
    by (simp only: generate_after_setup [OF assms])
  then have run: "wallet_addresses (snd (generate s0)) = wallet_addresses s
    \<and> (\<exists>later. events (snd (generate s0)) = events s @ later
          \<and> (\<forall>i a. Resolved i a \<in> set later \<longrightarrow> wallet_addresses s i = Some a))"
    by (simp add: untouched_def)
  from assms obtain s3 where "load_addresses s3 = (Inr (), s)" by (rule seq_last_step)
  then have stored: "\<forall>i. 0 \<le> i \<and> i < NUM_ADDRESSES \<longrightarrow> wallet_addresses s i \<noteq> None"
    by (rule load_addresses_stores)
  from run stored send_to_wallet_events show ?thesis by blast
qed

lemmas method_eval =
  ret_def raise_def bnd_def lift_def modify_def reads_def try_except_def try_finally_def
  call_def rpc_call_def rpc_do_def lookup_address_def add_transactions_created_def
  add_coinbase_rewards_def faucet_def send_to_wallet_def mine_blocks_def mine_and_log_def

lemma fresh_run_setup:
  "fst (seq [ensure_dashd_running, initialize_rpc_client, verify_dashd, load_addresses]
         (fresh_run 200)) = Inr ()"
  by (simp add: fresh_run_def Generator_init_def demo_config_def ensure_dashd_running_def
      initialize_rpc_client_def verify_dashd_def load_faucet_wallet_def load_addresses_def
      create_test_wallet_def WALLET_NAME_def NUM_ADDRESSES_def py_range.simps method_eval
      never_def str_int_def str_nat.simps empty_wallet_def)

theorem address_mapping_stable_witness:
  "seq [ensure_dashd_running, initialize_rpc_client, verify_dashd, load_addresses] (fresh_run 200)
     = (Inr (), snd (seq [ensure_dashd_running, initialize_rpc_client, verify_dashd,
                          load_addresses] (fresh_run 200)))
   \<and> wallet_addresses (snd (generate (fresh_run 200)))
       = wallet_addresses (snd (seq [ensure_dashd_running, initialize_rpc_client, verify_dashd,
                                     load_addresses] (fresh_run 200)))
   \<and> wallet_addresses (snd (seq [ensure_dashd_running, initialize_rpc_client, verify_dashd,
                                  load_addresses] (fresh_run 200))) 49 \<noteq> None
   \<and> events (snd (send_to_wallet 7 0.5 (bulk_state 200 187 0 0 [])))
       = events (bulk_state 200 187 0 0 [])
         @ [Resolved 7 (JStr ''yAddr7''),
            Call (Request ''sendtoaddress'' [JStr ''yAddr7'', JNum 0.5] (Some ''default''))]"
proof -
  let ?prepared = "seq [ensure_dashd_running, initialize_rpc_client, verify_dashd, load_addresses]
                  (fresh_run 200)"
  have ran: "?prepared = (Inr (), snd ?prepared)"
    using fresh_run_setup by (simp add: prod_eq_iff)
  have stored: "wallet_addresses (bulk_state 200 187 0 0 []) 7 = Some (JStr ''yAddr7'')"
    by (simp add: bulk_state_def Generator_init_def str_int_def str_nat.simps)
  have client: "rpc (bulk_state 200 187 0 0 []) = Some demo_client"
    by (simp add: bulk_state_def Generator_init_def)
  have wallet: "dashd_wallet (config (bulk_state 200 187 0 0 [])) = ''default''"
    by (simp add: bulk_state_def Generator_init_def demo_config_def)
  note stable = address_mapping_stable [OF ran]
  from stable have "wallet_addresses (snd (generate (fresh_run 200)))
       = wallet_addresses (snd ?prepared)"
    by (rule conjunct1)
  moreover from stable have "wallet_addresses (snd ?prepared) 49 \<noteq> None"
    by (simp add: NUM_ADDRESSES_def)
  moreover from stable stored client
  have "events (snd (send_to_wallet 7 0.5 (bulk_state 200 187 0 0 [])))
       = events (bulk_state 200 187 0 0 [])
         @ [Resolved 7 (JStr ''yAddr7''),
            Call (Request ''sendtoaddress'' [JStr ''yAddr7'', JNum 0.5]
                    (Some (dashd_wallet (config (bulk_state 200 187 0 0 [])))))]"
    by blast
  ultimately show ?thesis using ran wallet by simp
qed

section \<open>A user interrupt and the exit status\<close>

lemma seq_raises:
  "seq (m # ms) s = (case m s of (Inl e, s') \<Rightarrow> (Inl e, s') | (Inr u, s') \<Rightarrow> seq ms s')"
  by (cases ms) (auto simp: bnd_def split: prod.splits sum.splits)

text \<open>
  Claim C9.  \<^verbatim>\<open>main\<close> has a handler that exits with 130 on a \<^verbatim>\<open>KeyboardInterrupt\<close>, but
  \<^verbatim>\<open>generate\<close> catches the interrupt first and raises \<^verbatim>\<open>GeneratorError\<close> in its
  place: an interrupt that arrives during the steps of \<^verbatim>\<open>generate\<close>, followed by a
  cleanup that goes through, ends the program with the status 4 of the other generation
  errors, not with 130.
\<close>

theorem interrupt_exit_status:
  assumes "\<not> arg_blocks args < 120"
    and "generate_steps (Generator_init (config_of_args script_dir args) (arg_keep_temp args)
                           w e answers draw) = (Inl KeyboardInterrupt, s1)"
    and "generate_cleanup s1 = (Inr (), s2)"
  shows "generate (Generator_init (config_of_args script_dir args) (arg_keep_temp args)
                     w e answers draw) = (Inl (GeneratorError ''User interrupted''), s2)
       \<and> main script_dir args w e answers draw = 4
       \<and> main script_dir args w e answers draw \<noteq> exit_code_of KeyboardInterrupt"
  using assms
  by (simp add: main_def generate_def try_finally_def try_except_def raise_def)

theorem interrupt_exit_status_witness:
  "fst (generate_steps (Generator_init (config_of_args ''/repo'' demo_args) False
                          demo_world 0 interrupted_node never)) = Inl KeyboardInterrupt
   \<and> fst (generate_cleanup
            (snd (generate_steps (Generator_init (config_of_args ''/repo'' demo_args) False
                                    demo_world 0 interrupted_node never)))) = Inr ()
   \<and> main ''/repo'' demo_args demo_world 0 interrupted_node never = 4"
proof -
  let ?s = "Generator_init (config_of_args ''/repo'' demo_args) False
              demo_world 0 interrupted_node never"
  have steps: "fst (generate_steps ?s) = Inl KeyboardInterrupt"
    by (simp add: generate_steps_def seq_raises ensure_dashd_running_def
          initialize_rpc_client_def verify_dashd_def rpc_call_def call_def bnd_def modify_def
          Generator_init_def config_of_args_def demo_args_def demo_world_def
          interrupted_node_def manager_eval)
  have cleanup: "fst (generate_cleanup (snd (generate_steps ?s))) = Inr ()"
    by (simp add: generate_cleanup_def generate_steps_def seq_raises ensure_dashd_running_def
          initialize_rpc_client_def verify_dashd_def rpc_call_def call_def bnd_def modify_def
          Generator_init_def config_of_args_def demo_args_def demo_world_def
          interrupted_node_def manager_eval)
  have "generate_steps ?s = (Inl KeyboardInterrupt, snd (generate_steps ?s))"
    using steps by (simp add: prod_eq_iff)
  moreover have "generate_cleanup (snd (generate_steps ?s))
                   = (Inr (), snd (generate_cleanup (snd (generate_steps ?s))))"
    using cleanup by (simp add: prod_eq_iff)
  moreover have "\<not> arg_blocks demo_args < 120" "arg_keep_temp demo_args = False"
    by (simp_all add: demo_args_def)
  ultimately show ?thesis
    using steps cleanup
      interrupt_exit_status [of demo_args "''/repo''" demo_world 0 interrupted_node never
        "snd (generate_steps ?s)" "snd (generate_cleanup (snd (generate_steps ?s)))"]
    by simp
qed

section \<open>Boundary markers in the bulk phase\<close>

subsection \<open>The marker step\<close>

text \<open>A call of the node leaves the addresses, the configuration and the client as they
  are, and adds itself to the record of events.\<close>

lemma rpc_do_frame:
  assumes "rpc_do name args wallet s = (r, s')"
  shows "wallet_addresses s' = wallet_addresses s" "config s' = config s"
    "mining_address s' = mining_address s" "rpc s' = rpc s" "stats s' = stats s"
    "node_answers s' = node_answers s"
  using assms
  by (auto simp: rpc_do_def rpc_call_def call_def bnd_def ret_def
           split: option.splits prod.splits sum.splits)

lemma bnd_Inr:
  assumes "bnd m f s = (Inr y, s')"
  obtains x s1 where "m s = (Inr x, s1)" and "f x s1 = (Inr y, s')"
  using assms by (auto simp: bnd_def split: prod.splits sum.splits)

lemma rpc_do_events:
  assumes "rpc_do name args wallet s = (Inr u, s')"
  shows "events s' = events s @ [Call (Request name args wallet)]"
  using assms
  by (auto simp: rpc_do_def rpc_call_def call_def bnd_def ret_def
           split: option.splits prod.splits sum.splits)

lemma lookup_address_result:
  assumes "lookup_address i s = (Inr a, s')"
  shows "wallet_addresses s i = Some a" "s' = s\<lparr>events := events s @ [Resolved i a]\<rparr>"
  using assms by (auto simp: lookup_address_def split: option.splits)

lemma send_to_wallet_result:
  assumes "send_to_wallet i amount s = (Inr u, s')"
  shows "\<exists>a. wallet_addresses s i = Some a
          \<and> events s' = events s @ [Resolved i a,
               Call (Request ''sendtoaddress'' [a, JNum amount] (Some (dashd_wallet (config s))))]"
    and "wallet_addresses s' = wallet_addresses s" and "config s' = config s"
    and "mining_address s' = mining_address s"
proof -
  from assms obtain a s1 where 1: "lookup_address i s = (Inr a, s1)"
    and r1: "bnd (reads faucet) (\<lambda>w.
               bnd (rpc_do ''sendtoaddress'' [a, JNum amount] w) (\<lambda>u.
                 add_transactions_created 1)) s1 = (Inr u, s')"
    unfolding send_to_wallet_def by (rule bnd_Inr)
  from r1 obtain s2 where 2: "rpc_do ''sendtoaddress'' [a, JNum amount] (faucet s1) s1 = (Inr (), s2)"
    and 3: "add_transactions_created 1 s2 = (Inr u, s')"
    by (auto simp: reads_def elim!: bnd_Inr)
  note l = lookup_address_result [OF 1]
  note f = rpc_do_frame [OF 2]
  from 3 have s': "s' = s2\<lparr>stats := (stats s2)\<lparr>transactions_created := transactions_created (stats s2) + 1\<rparr>\<rparr>"
    by (simp add: add_transactions_created_def modify_def)
  show "\<exists>a. wallet_addresses s i = Some a
          \<and> events s' = events s @ [Resolved i a,
               Call (Request ''sendtoaddress'' [a, JNum amount] (Some (dashd_wallet (config s))))]"
    using l rpc_do_events [OF 2] s' by (simp add: faucet_def)
  show "wallet_addresses s' = wallet_addresses s" using l f s' by simp
  show "config s' = config s" using l f s' by simp
  show "mining_address s' = mining_address s" using l f s' by simp
qed

lemma mine_blocks_result:
  assumes "mine_blocks n JNull s = (Inr u, s')"
  shows "events s' = events s @ [Call (Request ''generatetoaddress''
                                    [JNum (of_int n), mining_address s] None)]"
    and "wallet_addresses s' = wallet_addresses s" and "config s' = config s"
    and "mining_address s' = mining_address s"
proof -
  from assms have 1: "rpc_do ''generatetoaddress'' [JNum (of_int n), mining_address s] None s
                        = (Inr u, s')"
    by (simp add: mine_blocks_def bnd_def reads_def)
  show "events s' = events s @ [Call (Request ''generatetoaddress''
                                    [JNum (of_int n), mining_address s] None)]"
    by (rule rpc_do_events [OF 1])
  show "wallet_addresses s' = wallet_addresses s" "config s' = config s"
    "mining_address s' = mining_address s"
    by (rule rpc_do_frame [OF 1])+
qed

lemma place_marker_result:
  assumes "bnd (send_to_wallet i 0.01) (\<lambda>u. bnd (mine_blocks 1 JNull) (\<lambda>u. ret x)) s = (Inr y, s')"
  shows "y = x" "events s' = events s @ marker_events s i"
    "wallet_addresses s' = wallet_addresses s" "config s' = config s"
    "mining_address s' = mining_address s"
proof -
  from assms obtain s1 s2 where 1: "send_to_wallet i 0.01 s = (Inr (), s1)"
    and 2: "mine_blocks 1 JNull s1 = (Inr (), s2)" and 3: "ret x s2 = (Inr y, s')"
    by (auto elim!: bnd_Inr)
  note a = send_to_wallet_result [OF 1] and b = mine_blocks_result [OF 2]
  from 3 show "y = x" by (simp add: ret_def)
  from 3 have "s' = s2" by (simp add: ret_def)
  with a b show "events s' = events s @ marker_events s i"
    by (auto simp: marker_events_def)
  from \<open>s' = s2\<close> a b show "wallet_addresses s' = wallet_addresses s" "config s' = config s"
    "mining_address s' = mining_address s" by simp_all
qed

lemma marker_events_cong:
  "wallet_addresses s' = wallet_addresses s \<Longrightarrow> config s' = config s \<Longrightarrow>
     mining_address s' = mining_address s \<Longrightarrow> marker_events s' = marker_events s"
  by (rule ext) (simp add: marker_events_def cong: option.case_cong)

lemma marker_trail_same [simp]: "marker_trail s i i = []"
  by (simp add: marker_trail_def)

lemma marker_trail_step:
  assumes "i < j"
  shows "marker_trail s i j = marker_events s i @ marker_trail s (i + 1) j"
proof -
  from assms have "nat (j - i) = Suc (nat (j - (i + 1)))" by simp
  then show ?thesis
    by (simp add: marker_trail_def upt_conv_Cons map_Suc_upt [symmetric] comp_def add.assoc
          del: upt_Suc)
qed

lemma place_boundaries_general:
  assumes "place_boundary_transactions bs l s = (Inr l', s')"
    and "batch_boundaries l = kept @ bs" and "distinct (kept @ bs)"
  shows "\<exists>bs'. batch_boundaries l' = kept @ bs'
      \<and> subseq bs' bs
      \<and> (\<forall>b \<in> set bs'. current_height l < b)
      \<and> (\<forall>b \<in> set bs. current_height l' < b \<longrightarrow> b \<in> set bs')
      \<and> boundary_addr_index l \<le> boundary_addr_index l'
      \<and> current_height l' = current_height l + (boundary_addr_index l' - boundary_addr_index l)
      \<and> boundary_addr_index l' - boundary_addr_index l
          = min (int (length bs) - int (length bs'))
                (max 0 (NUM_ADDRESSES - boundary_addr_index l))
      \<and> events s' = events s @ marker_trail s (boundary_addr_index l) (boundary_addr_index l')
      \<and> wallet_addresses s' = wallet_addresses s \<and> config s' = config s
      \<and> mining_address s' = mining_address s"
  using assms
proof (induction bs arbitrary: l s kept)
  case Nil
  then show ?case by (simp add: ret_def)
next
  case (Cons b rest)
  show ?case
  proof (cases "b \<le> current_height l")
    case False
    with Cons.prems(1) have run: "place_boundary_transactions rest l s = (Inr l', s')" by simp
    from Cons.prems(2,3) have "batch_boundaries l = (kept @ [b]) @ rest"
      "distinct ((kept @ [b]) @ rest)" by simp_all
    from Cons.IH [OF run this] obtain bs' where
      IH: "batch_boundaries l' = (kept @ [b]) @ bs'" "subseq bs' rest"
        "\<forall>b \<in> set bs'. current_height l < b"
        "\<forall>b \<in> set rest. current_height l' < b \<longrightarrow> b \<in> set bs'"
        "boundary_addr_index l \<le> boundary_addr_index l'"
        "current_height l' = current_height l + (boundary_addr_index l' - boundary_addr_index l)"
        "boundary_addr_index l' - boundary_addr_index l
          = min (int (length rest) - int (length bs'))
                (max 0 (NUM_ADDRESSES - boundary_addr_index l))"
        "events s' = events s @ marker_trail s (boundary_addr_index l) (boundary_addr_index l')"
        "wallet_addresses s' = wallet_addresses s" "config s' = config s"
        "mining_address s' = mining_address s"
      by blast
    show ?thesis
    proof (intro exI [of _ "b # bs'"] conjI)
      show "batch_boundaries l' = kept @ b # bs'" using IH(1) by simp
      show "subseq (b # bs') (b # rest)" using IH(2) by simp
      show "\<forall>x \<in> set (b # bs'). current_height l < x" using IH(3) False by auto
      show "\<forall>x \<in> set (b # rest). current_height l' < x \<longrightarrow> x \<in> set (b # bs')"
        using IH(4) by auto
      show "boundary_addr_index l' - boundary_addr_index l
          = min (int (length (b # rest)) - int (length (b # bs')))
                (max 0 (NUM_ADDRESSES - boundary_addr_index l))"
        using IH(7) by simp
    qed (use IH in simp_all)
  next
    case True
    define l1 where "l1 = (if boundary_addr_index l < NUM_ADDRESSES
        then l\<lparr>current_height := current_height l + 1,
               boundary_addr_index := boundary_addr_index l + 1\<rparr> else l)"
    from True Cons.prems(1) obtain s1 where
      step: "(if boundary_addr_index l < NUM_ADDRESSES
              then bnd (send_to_wallet (boundary_addr_index l) 0.01) (\<lambda>u.
                   bnd (mine_blocks 1 JNull) (\<lambda>u.
                     ret (l\<lparr>current_height := current_height l + 1,
                            boundary_addr_index := boundary_addr_index l + 1\<rparr>)))
              else ret l) s = (Inr l1, s1)"
      and run: "place_boundary_transactions rest
                  (l1\<lparr>batch_boundaries := remove1 b (batch_boundaries l1)\<rparr>) s1 = (Inr l', s')"
    proof (cases "boundary_addr_index l < NUM_ADDRESSES")
      case marker: True
      with True Cons.prems(1) obtain x s1 where
        a: "bnd (send_to_wallet (boundary_addr_index l) 0.01) (\<lambda>u.
                   bnd (mine_blocks 1 JNull) (\<lambda>u.
                     ret (l\<lparr>current_height := current_height l + 1,
                            boundary_addr_index := boundary_addr_index l + 1\<rparr>))) s = (Inr x, s1)"
        and b: "place_boundary_transactions rest
                  (x\<lparr>batch_boundaries := remove1 b (batch_boundaries x)\<rparr>) s1 = (Inr l', s')"
        by (auto simp: bnd_def [of "bnd _ _"] split: prod.splits sum.splits)
      from place_marker_result(1) [OF a] marker have "x = l1" by (simp add: l1_def)
      with a b marker that show ?thesis by simp
    next
      case none: False
      with True Cons.prems(1) have
        "place_boundary_transactions rest
           (l\<lparr>batch_boundaries := remove1 b (batch_boundaries l)\<rparr>) s = (Inr l', s')"
        by (simp add: bnd_def ret_def)
      with none that [of s] show ?thesis by (simp add: l1_def ret_def)
    qed
    have state: "events s1 = events s @ marker_trail s (boundary_addr_index l) (boundary_addr_index l1)"
      "wallet_addresses s1 = wallet_addresses s" "config s1 = config s"
      "mining_address s1 = mining_address s"
    proof -
      show "events s1 = events s @ marker_trail s (boundary_addr_index l) (boundary_addr_index l1)"
        using step place_marker_result(2) [of "boundary_addr_index l" _ s _ s1]
        by (auto simp: l1_def ret_def marker_trail_step split: if_splits)
      show "wallet_addresses s1 = wallet_addresses s" "config s1 = config s"
        "mining_address s1 = mining_address s"
        using step place_marker_result(3-5) [of "boundary_addr_index l" _ s _ s1]
        by (auto simp: ret_def split: if_splits)
    qed
    have bb: "batch_boundaries l1 = kept @ b # rest" using Cons.prems(2) by (simp add: l1_def)
    from Cons.prems(3) have "b \<notin> set kept" by auto
    then have removed: "remove1 b (kept @ b # rest) = kept @ rest"
      by (simp add: remove1_append)
    have start: "batch_boundaries (l1\<lparr>batch_boundaries := remove1 b (batch_boundaries l1)\<rparr>)
                   = kept @ rest"
      by (simp add: bb removed)
    from Cons.prems(3) have "distinct (kept @ rest)" by simp
    from Cons.IH [OF run start this] obtain bs' where
      IH: "batch_boundaries l' = kept @ bs'" "subseq bs' rest"
        "\<forall>b \<in> set bs'. current_height l1 < b"
        "\<forall>b \<in> set rest. current_height l' < b \<longrightarrow> b \<in> set bs'"
        "boundary_addr_index l1 \<le> boundary_addr_index l'"
        "current_height l' = current_height l1 + (boundary_addr_index l' - boundary_addr_index l1)"
        "boundary_addr_index l' - boundary_addr_index l1
          = min (int (length rest) - int (length bs'))
                (max 0 (NUM_ADDRESSES - boundary_addr_index l1))"
        "events s' = events s1 @ marker_trail s1 (boundary_addr_index l1) (boundary_addr_index l')"
        "wallet_addresses s' = wallet_addresses s1" "config s' = config s1"
        "mining_address s' = mining_address s1"
      by auto
    have h1: "current_height l \<le> current_height l1"
      "current_height l1 = current_height l + (boundary_addr_index l1 - boundary_addr_index l)"
      "boundary_addr_index l \<le> boundary_addr_index l1"
      by (simp_all add: l1_def)
    have len: "length bs' \<le> length rest"
      using IH(2) by (rule list_emb_length)
    show ?thesis
    proof (intro exI [of _ bs'] conjI)
      show "batch_boundaries l' = kept @ bs'" by (rule IH(1))
      show "subseq bs' (b # rest)" using IH(2) by (rule list_emb_Cons)
      show "\<forall>x \<in> set bs'. current_height l < x" using IH(3) h1(1) by auto
      show "\<forall>x \<in> set (b # rest). current_height l' < x \<longrightarrow> x \<in> set bs'"
        using IH(4,5,6) True h1 by auto
      show "boundary_addr_index l \<le> boundary_addr_index l'" using IH(5) h1(3) by simp
      show "current_height l' = current_height l + (boundary_addr_index l' - boundary_addr_index l)"
        using IH(6) h1(2) by simp
      show "boundary_addr_index l' - boundary_addr_index l
          = min (int (length (b # rest)) - int (length bs'))
                (max 0 (NUM_ADDRESSES - boundary_addr_index l))"
        using IH(7) len by (auto simp: l1_def min_def max_def split: if_splits)
      have "marker_trail s1 = marker_trail s"
        by (intro ext) (simp add: marker_trail_def marker_events_cong [OF state(2,3,4)])
      moreover have "marker_trail s (boundary_addr_index l) (boundary_addr_index l1)
                      @ marker_trail s (boundary_addr_index l1) (boundary_addr_index l')
                    = marker_trail s (boundary_addr_index l) (boundary_addr_index l')"
      proof (cases "boundary_addr_index l < NUM_ADDRESSES")
        case True
        then have "boundary_addr_index l1 = boundary_addr_index l + 1" by (simp add: l1_def)
        with IH(5) show ?thesis
          using marker_trail_step [of "boundary_addr_index l" "boundary_addr_index l'" s]
            marker_trail_step [of "boundary_addr_index l" "boundary_addr_index l + 1" s]
          by simp
      next
        case False
        then show ?thesis by (simp add: l1_def)
      qed
      ultimately show "events s' = events s @ marker_trail s (boundary_addr_index l)
                                              (boundary_addr_index l')"
        using IH(8) state(1) by simp
      show "wallet_addresses s' = wallet_addresses s" using IH(9) state(2) by simp
      show "config s' = config s" using IH(10) state(3) by simp
      show "mining_address s' = mining_address s" using IH(11) state(4) by simp
    qed
  qed
qed

subsection \<open>Statements that place no marker\<close>

lemma no_markerD:
  assumes "no_marker m" and "m s = (r, s')"
  obtains later where "events s' = events s @ later" and "filter is_marker later = []"
  using assms unfolding no_marker_def by (metis snd_conv)

lemma no_marker_ret [simp]: "no_marker (ret x)"
  by (simp add: no_marker_def ret_def)

lemma no_marker_raise [simp]: "no_marker (raise e)"
  by (simp add: no_marker_def raise_def)

lemma no_marker_reads [simp]: "no_marker (reads f)"
  by (simp add: no_marker_def reads_def)

lemma no_marker_bnd:
  assumes "no_marker m" and "\<And>x. no_marker (f x)"
  shows "no_marker (bnd m f)"
  unfolding no_marker_def
proof
  fix s
  obtain r s1 where m: "m s = (r, s1)" by (cases "m s")
  from assms(1) m obtain l1 where l1: "events s1 = events s @ l1" "filter is_marker l1 = []"
    by (rule no_markerD)
  show "\<exists>later. events (snd (bnd m f s)) = events s @ later \<and> filter is_marker later = []"
  proof (cases r)
    case (Inl e)
    with m l1 show ?thesis by (auto simp: bnd_def)
  next
    case (Inr x)
    obtain r2 s2 where f: "f x s1 = (r2, s2)" by (cases "f x s1")
    from assms(2) f obtain l2 where l2: "events s2 = events s1 @ l2" "filter is_marker l2 = []"
      by (rule no_markerD)
    from m Inr f have "snd (bnd m f s) = s2" by (simp add: bnd_def)
    with l1 l2 show ?thesis by (intro exI [of _ "l1 @ l2"]) simp
  qed
qed

lemma no_marker_try_except:
  assumes "no_marker m" and "\<And>e. no_marker (handler e)"
  shows "no_marker (try_except m caught handler)"
  unfolding no_marker_def
proof
  fix s
  obtain r s1 where m: "m s = (r, s1)" by (cases "m s")
  from assms(1) m obtain l1 where l1: "events s1 = events s @ l1" "filter is_marker l1 = []"
    by (rule no_markerD)
  show "\<exists>later. events (snd (try_except m caught handler s)) = events s @ later
          \<and> filter is_marker later = []"
  proof (cases r)
    case (Inr x)
    with m l1 show ?thesis by (auto simp: try_except_def)
  next
    case (Inl e)
    show ?thesis
    proof (cases "caught e")
      case False
      with m Inl l1 show ?thesis by (auto simp: try_except_def)
    next
      case True
      obtain r2 s2 where h: "handler e s1 = (r2, s2)" by (cases "handler e s1")
      from assms(2) h obtain l2 where l2: "events s2 = events s1 @ l2" "filter is_marker l2 = []"
        by (rule no_markerD)
      from m Inl True h have "snd (try_except m caught handler s) = s2"
        by (simp add: try_except_def)
      with l1 l2 show ?thesis by (intro exI [of _ "l1 @ l2"]) simp
    qed
  qed
qed

lemma no_marker_rpc_call:
  assumes "\<not> is_marker (Call (Request name args wallet))"
  shows "no_marker (rpc_call name args wallet)"
  using assms
  by (auto simp: no_marker_def rpc_call_def call_def split: option.splits prod.splits)

lemma no_marker_rpc_do:
  assumes "\<not> is_marker (Call (Request name args wallet))"
  shows "no_marker (rpc_do name args wallet)"
  unfolding rpc_do_def by (intro no_marker_bnd no_marker_rpc_call assms no_marker_ret)

lemma no_marker_lookup_address [simp]: "no_marker (lookup_address i)"
  by (auto simp: no_marker_def lookup_address_def split: option.splits)

lemma no_marker_add_transactions_created [simp]: "no_marker (add_transactions_created n)"
  by (simp add: no_marker_def add_transactions_created_def modify_def)

lemma no_marker_send_to_wallet:
  assumes "amount \<noteq> 0.01"
  shows "no_marker (send_to_wallet i amount)"
  unfolding send_to_wallet_def
  by (intro no_marker_bnd no_marker_rpc_do no_marker_lookup_address no_marker_reads
        no_marker_add_transactions_created) (use assms in simp)

lemma no_marker_mine_blocks [simp]: "no_marker (mine_blocks n address)"
  unfolding mine_blocks_def
  by (intro no_marker_bnd no_marker_rpc_do) simp_all

lemma no_marker_draw_random [simp]: "no_marker draw_random"
  by (auto simp: no_marker_def draw_random_def split: prod.splits)

lemma periodic_amount_not_marker:
  "periodic_amounts ! (k mod length periodic_amounts) \<noteq> 0.01"
proof -
  have "periodic_amounts ! (k mod length periodic_amounts) \<in> set periodic_amounts"
    by (rule nth_mem) (simp add: periodic_amounts_def)
  moreover have "0.01 \<notin> set periodic_amounts"
    by (simp add: periodic_amounts_def)
  ultimately show ?thesis by metis
qed

lemma no_marker_periodic_send: "no_marker (periodic_send l)"
  unfolding periodic_send_def Let_def
  by (auto intro!: no_marker_bnd no_marker_try_except no_marker_send_to_wallet
        periodic_amount_not_marker)

lemma no_marker_faucet_self_send: "no_marker (faucet_self_send l)"
  unfolding faucet_self_send_def
  by (auto intro!: no_marker_bnd no_marker_try_except no_marker_rpc_call no_marker_rpc_do)

subsection \<open>What the rest of a round leaves of the schedule\<close>

lemma try_except_Inr:
  assumes "try_except m caught handler s = (Inr y, s')"
  obtains "m s = (Inr y, s')"
  | e s1 where "m s = (Inl e, s1)" and "caught e" and "handler e s1 = (Inr y, s')"
  using assms by (auto simp: try_except_def split: prod.splits sum.splits if_splits)

lemma periodic_send_schedule:
  assumes "periodic_send l s = (Inr l', s')"
  shows "batch_boundaries l' = batch_boundaries l"
    and "boundary_addr_index l' = boundary_addr_index l"
    and "current_height l \<le> current_height l'"
proof -
  have "batch_boundaries l' = batch_boundaries l \<and> boundary_addr_index l' = boundary_addr_index l
      \<and> current_height l \<le> current_height l'"
  proof (cases "current_height l \<ge> next_periodic_height l")
    case False
    with assms show ?thesis by (simp add: periodic_send_def ret_def)
  next
    case True
    with assms obtain l1 s1 where
      body: "try_except
               (bnd (send_to_wallet
                       (periodic_addresses ! (periodic_counter l mod length periodic_addresses))
                       (periodic_amounts ! (periodic_counter l mod length periodic_amounts)))
                  (\<lambda>u. bnd (mine_blocks 1 JNull)
                         (\<lambda>u. ret (l\<lparr>current_height := current_height l + 1\<rparr>))))
               is_RPCError (\<lambda>e. ret l) s = (Inr l1, s1)"
      and rest: "ret (l1\<lparr>periodic_counter := periodic_counter l1 + 1,
                          next_periodic_height := current_height l1 + 1000\<rparr>) s1 = (Inr l', s')"
      by (auto simp: periodic_send_def Let_def elim!: bnd_Inr)
    from body have "l1 = l \<or> l1 = l\<lparr>current_height := current_height l + 1\<rparr>"
      by (auto simp: ret_def elim!: try_except_Inr bnd_Inr)
    with rest show ?thesis by (auto simp: ret_def)
  qed
  then show "batch_boundaries l' = batch_boundaries l"
    and "boundary_addr_index l' = boundary_addr_index l"
    and "current_height l \<le> current_height l'" by simp_all
qed

lemma faucet_self_send_schedule:
  assumes "faucet_self_send l s = (Inr l', s')"
  shows "batch_boundaries l' = batch_boundaries l"
    and "boundary_addr_index l' = boundary_addr_index l"
    and "current_height l \<le> current_height l'"
proof -
  from assms obtain hit s1 where
    rest: "(if hit
            then try_except
              (bnd (reads faucet) (\<lambda>w.
               bnd (rpc_call ''getnewaddress'' [] w) (\<lambda>faucet_addr.
               bnd (rpc_do ''sendtoaddress'' [faucet_addr, JNum 1.0] w) (\<lambda>u.
               bnd (mine_blocks 1 JNull) (\<lambda>u.
                 ret (l\<lparr>current_height := current_height l + 1\<rparr>))))))
              is_RPCError (\<lambda>e. ret l)
            else ret l) s1 = (Inr l', s')"
    unfolding faucet_self_send_def by (auto elim!: bnd_Inr)
  then have "l' = l \<or> l' = l\<lparr>current_height := current_height l + 1\<rparr>"
    by (auto simp: ret_def split: if_splits elim!: try_except_Inr bnd_Inr)
  then show "batch_boundaries l' = batch_boundaries l"
    and "boundary_addr_index l' = boundary_addr_index l"
    and "current_height l \<le> current_height l'" by auto
qed


subsection \<open>The bulk phase on the demonstration node\<close>

lemmas stmt_eval = ret_def raise_def bnd_def lift_def modify_def reads_def call_def rpc_call_def
  rpc_do_def lookup_address_def add_transactions_created_def add_coinbase_rewards_def faucet_def

lemma mine_blocks_bulk_state:
  "mine_blocks c JNull (bulk_state t h n cb tr)
     = (Inr (), bulk_state t (h + c) n cb (faucet_mine_event c # tr))"
  "mine_blocks c (JStr a) (bulk_state t h n cb tr)
     = (Inr (), bulk_state t (h + c) n cb (mine_event c (JStr a) # tr))"
  by (simp_all add: mine_blocks_def bulk_state_def Generator_init_def stmt_eval
        faucet_mine_event_def mine_event_def)

lemma send_to_wallet_bulk_state:
  "0 \<le> i \<Longrightarrow> i < 50 \<Longrightarrow>
   send_to_wallet i amount (bulk_state t h n cb tr)
     = (Inr (), bulk_state t h (n + 1) cb (send_event i amount # resolve_event i # tr))"
  by (simp add: send_to_wallet_def bulk_state_def Generator_init_def stmt_eval demo_config_def
        send_event_def resolve_event_def)

lemma is_marker_events [simp]:
  "is_marker (resolve_event i) = False"
  "is_marker (mine_event c a) = False"
  "is_marker (faucet_mine_event c) = False"
  "is_marker (send_event i amount) = (amount = 0.01)"
  by (simp_all add: resolve_event_def mine_event_def faucet_mine_event_def send_event_def)

lemma add_coinbase_rewards_bulk_state:
  "add_coinbase_rewards k (bulk_state t h n cb tr) = (Inr (), bulk_state t h n (cb + k) tr)"
  by (simp add: bulk_state_def Generator_init_def stmt_eval)

lemma draw_random_bulk_state:
  "draw_random (bulk_state t h n cb tr) = (Inr False, bulk_state t h n cb tr)"
  by (simp add: draw_random_def bulk_state_def Generator_init_def never_def)

lemma getblockcount_bulk_state:
  "rpc_call ''getblockcount'' [] None (bulk_state t h n cb tr)
     = (Inr (JNum (of_int h)),
        bulk_state t h n cb (Call (Request ''getblockcount'' [] None) # tr))"
  by (simp add: bulk_state_def Generator_init_def stmt_eval)

lemma lookup_address_bulk_state:
  "0 \<le> i \<Longrightarrow> i < 50 \<Longrightarrow>
   lookup_address i (bulk_state t h n cb tr)
     = (Inr (JStr (''yAddr'' @ str_int i)), bulk_state t h n cb (resolve_event i # tr))"
  by (simp add: bulk_state_def Generator_init_def stmt_eval resolve_event_def)

lemma target_bulk_state: "target_blocks (config (bulk_state t h n cb tr)) = t"
  by (simp add: bulk_state_def Generator_init_def demo_config_def)

lemma events_bulk_state: "events (bulk_state t h n cb tr) = rev tr"
  by (simp add: bulk_state_def Generator_init_def)

lemma marker_count_bulk_state:
  "length (filter is_marker (events (bulk_state t h n cb tr))) = length (filter is_marker tr)"
  by (simp add: events_bulk_state flip: rev_filter)

lemma mining_address_bulk_state: "mining_address (bulk_state t h n cb tr) = JStr ''yAddr50''"
  by (simp add: bulk_state_def Generator_init_def)

lemma marker_events_bulk_state:
  "0 \<le> i \<Longrightarrow> i < 50 \<Longrightarrow>
   marker_events (bulk_state t h n cb tr) i
     = [resolve_event i, send_event i 0.01, faucet_mine_event 1]"
  by (simp add: marker_events_def bulk_state_def Generator_init_def demo_config_def
        resolve_event_def send_event_def faucet_mine_event_def mine_event_def)

lemmas bulk_eval = bulk_loop.simps bulk_round_def blocks_to_mine_def next_important_height_def
  mature_coinbase_start_def mature_coinbase_end_def immature_coinbase_start_def
  mine_coinbase_window_def periodic_send_def faucet_self_send_def
  periodic_addresses_def periodic_amounts_def try_except_def bnd_def ret_def Let_def
  mine_blocks_bulk_state send_to_wallet_bulk_state add_coinbase_rewards_bulk_state
  draw_random_bulk_state NUM_ADDRESSES_def

text \<open>
  The loop on the demonstration node, from height 187 to the target 56000 with the eleven
  boundaries from 4999 to 54999 on the schedule, whatever the record held before: it
  ends at the target with the schedule empty and the index at 50, and it has added ten
  marker sends to the record.
\<close>

lemma bulk_run:
  "\<exists>l' n cb tr.
     bulk_loop 56000 (JStr ''yAddr0'')
       \<lparr>current_height = 187,
          batch_boundaries = [4999, 9999, 14999, 19999, 24999, 29999, 34999, 39999, 44999,
                              49999, 54999],
          boundary_addr_index = 40, next_periodic_height = 1187, periodic_counter = 0\<rparr>
       (bulk_state 56000 187 n0 cb0 tr0)
     = (Inr l', bulk_state 56000 56000 n cb tr)
     \<and> current_height l' = 56000 \<and> batch_boundaries l' = [] \<and> boundary_addr_index l' = 50
     \<and> length (filter is_marker tr) = length (filter is_marker tr0) + 10"
  apply (intro exI conjI)
      apply (simp add: bulk_eval)
     apply simp_all
  done

text \<open>
  Claim C3, as stated, fails.  A marker is placed only while the index of the next marker
  address is below \<^verbatim>\<open>NUM_ADDRESSES\<close>; the index starts at 40, so a run places ten
  markers at most and every boundary reached after that leaves the schedule without one.
  From height 187 to the target 56000 the schedule holds the eleven boundaries from 4999
  to 54999; at the end of the loop the schedule is empty, the index stands at 50, and the
  record of the run holds ten marker sends, for the loop and for the whole phase alike.
\<close>

theorem boundary_without_marker:
  "batch_boundaries (initial_locals 187 56000)
     = [4999, 9999, 14999, 19999, 24999, 29999, 34999, 39999, 44999, 49999, 54999]
   \<and> (\<exists>l' s'. bulk_loop 56000 (JStr ''yAddr0'') (initial_locals 187 56000)
                  (bulk_state 56000 187 0 0 []) = (Inr l', s')
         \<and> current_height l' = 56000 \<and> batch_boundaries l' = []
         \<and> boundary_addr_index l' = 50
         \<and> length (filter is_marker (events s')) = 10)
   \<and> (\<exists>s'. phase_bulk_generation (bulk_state 56000 187 0 0 []) = (Inr (), s')
         \<and> length (filter is_marker (events s')) = 10)"
proof -
  let ?l0 = "\<lparr>current_height = 187,
          batch_boundaries = [4999, 9999, 14999, 19999, 24999, 29999, 34999, 39999, 44999,
                              49999, 54999],
          boundary_addr_index = 40, next_periodic_height = 1187, periodic_counter = 0\<rparr>"
  have schedule: "calculate_batch_boundaries 187 56000
     = [4999, 9999, 14999, 19999, 24999, 29999, 34999, 39999, 44999, 49999, 54999]"
    by (simp add: calculate_batch_boundaries_def py_range.simps)
  have start: "initial_locals 187 56000 = ?l0"
    by (simp add: initial_locals_def schedule)
  from bulk_run [of 0 0 "[]"] obtain l' n cb tr where
    loop: "bulk_loop 56000 (JStr ''yAddr0'') ?l0 (bulk_state 56000 187 0 0 [])
            = (Inr l', bulk_state 56000 56000 n cb tr)"
    and final: "current_height l' = 56000" "batch_boundaries l' = []"
      "boundary_addr_index l' = 50"
    and count: "length (filter is_marker tr) = 10"
    by auto
  have first: "\<exists>l' s'. bulk_loop 56000 (JStr ''yAddr0'') (initial_locals 187 56000)
                  (bulk_state 56000 187 0 0 []) = (Inr l', s')
         \<and> current_height l' = 56000 \<and> batch_boundaries l' = []
         \<and> boundary_addr_index l' = 50
         \<and> length (filter is_marker (events s')) = 10"
    using loop final count by (simp add: start marker_count_bulk_state)
  from bulk_run [of 0 0 "[resolve_event 0, Call (Request ''getblockcount'' [] None)]"]
  obtain l2 n2 cb2 tr2 where
    loop2: "bulk_loop 56000 (JStr ''yAddr0'') ?l0
              (bulk_state 56000 187 0 0
                 [resolve_event 0, Call (Request ''getblockcount'' [] None)])
            = (Inr l2, bulk_state 56000 56000 n2 cb2 tr2)"
    and count2: "length (filter is_marker tr2) = 10"
    by auto
  have "phase_bulk_generation (bulk_state 56000 187 0 0 [])
          = (Inr (), bulk_state 56000 56000 n2 cb2
                       (Call (Request ''getblockcount'' [] None) # tr2))"
    by (simp add: phase_bulk_generation_def verify_final_height_def start
          getblockcount_bulk_state lookup_address_bulk_state target_bulk_state
          bnd_def ret_def reads_def lift_def str_int_def str_nat.simps loop2)
  then have second: "\<exists>s'. phase_bulk_generation (bulk_state 56000 187 0 0 []) = (Inr (), s')
         \<and> length (filter is_marker (events s')) = 10"
    using count2 by (simp add: marker_count_bulk_state)
  from start first second show ?thesis by simp
qed

text \<open>
  Claim C3, amended.  In a round of normal bulk mining, one outside the two coinbase
  windows, the batch is mined and the markers follow at once: the record of events
  continues with the mining call, then the marker events for the indices used in the
  round, and no marker send after them.  Every scheduled boundary at or below the height
  the batch reached leaves the schedule, the boundaries above the height at the end of the
  round stay, and nothing else changes in the schedule.  The number of markers is the
  number of boundaries removed, cut down to what is left of the indices below
  \<^verbatim>\<open>NUM_ADDRESSES\<close>: a boundary reached when the index stands at 50 is removed without
  a marker.
\<close>

theorem boundary_markers_follow_batch:
  fixes s s' :: "'e Generator"
  assumes "bulk_round target addr l s = (Inr l', s')"
    and "\<not> (mature_coinbase_start target \<le> current_height l
            \<and> current_height l < mature_coinbase_end target)"
    and "\<not> immature_coinbase_start target \<le> current_height l"
    and "distinct (batch_boundaries l)"
  shows "(\<exists>later. events s'
            = events s
              @ Call (Request ''generatetoaddress''
                        [JNum (of_int (blocks_to_mine target l)), mining_address s] None)
              # marker_trail s (boundary_addr_index l) (boundary_addr_index l') @ later
            \<and> filter is_marker later = [])
       \<and> subseq (batch_boundaries l') (batch_boundaries l)
       \<and> (\<forall>b \<in> set (batch_boundaries l).
            b \<le> current_height l + blocks_to_mine target l \<longrightarrow> b \<notin> set (batch_boundaries l'))
       \<and> (\<forall>b \<in> set (batch_boundaries l).
            current_height l' < b \<longrightarrow> b \<in> set (batch_boundaries l'))
       \<and> boundary_addr_index l' - boundary_addr_index l
           = min (int (length (batch_boundaries l)) - int (length (batch_boundaries l')))
                 (max 0 (NUM_ADDRESSES - boundary_addr_index l))"
proof -
  let ?n = "blocks_to_mine target l"
  let ?l0 = "l\<lparr>current_height := current_height l + ?n\<rparr>"
  from assms(1-3) obtain s1 l1 s2 l2 s3 where
    mined: "mine_blocks ?n JNull s = (Inr (), s1)"
    and placed: "place_boundary_transactions (batch_boundaries l) ?l0 s1 = (Inr l1, s2)"
    and periodic: "periodic_send l1 s2 = (Inr l2, s3)"
    and self_send: "faucet_self_send l2 s3 = (Inr l', s')"
    by (auto simp: bulk_round_def Let_def elim!: bnd_Inr)
  note m = mine_blocks_result [OF mined]
  have "batch_boundaries ?l0 = [] @ batch_boundaries l" "distinct ([] @ batch_boundaries l)"
    using assms(4) by simp_all
  from place_boundaries_general [OF placed this] obtain bs' where
    p: "batch_boundaries l1 = bs'" "subseq bs' (batch_boundaries l)"
      "\<forall>b \<in> set bs'. current_height l + ?n < b"
      "\<forall>b \<in> set (batch_boundaries l). current_height l1 < b \<longrightarrow> b \<in> set bs'"
      "boundary_addr_index l1 - boundary_addr_index l
          = min (int (length (batch_boundaries l)) - int (length bs'))
                (max 0 (NUM_ADDRESSES - boundary_addr_index l))"
      "events s2 = events s1 @ marker_trail s1 (boundary_addr_index l) (boundary_addr_index l1)"
    by auto
  note a = periodic_send_schedule [OF periodic]
  note b = faucet_self_send_schedule [OF self_send]
  from no_marker_periodic_send periodic obtain later1 where
    l1: "events s3 = events s2 @ later1" "filter is_marker later1 = []"
    by (rule no_markerD)
  from no_marker_faucet_self_send self_send obtain later2 where
    l2: "events s' = events s3 @ later2" "filter is_marker later2 = []"
    by (rule no_markerD)
  have same: "marker_trail s1 = marker_trail s"
    by (intro ext) (simp add: marker_trail_def marker_events_cong [OF m(2,3,4)])
  have "events s'
            = events s
              @ Call (Request ''generatetoaddress''
                        [JNum (of_int ?n), mining_address s] None)
              # marker_trail s (boundary_addr_index l) (boundary_addr_index l')
                @ (later1 @ later2)
            \<and> filter is_marker (later1 @ later2) = []"
    using m(1) p(6) l1 l2 a(2) b(2) same by simp
  then have first: "\<exists>later. events s'
            = events s
              @ Call (Request ''generatetoaddress''
                        [JNum (of_int ?n), mining_address s] None)
              # marker_trail s (boundary_addr_index l) (boundary_addr_index l') @ later
            \<and> filter is_marker later = []"
    by blast
  have bb: "batch_boundaries l' = bs'" "boundary_addr_index l' = boundary_addr_index l1"
    "current_height l1 \<le> current_height l'"
    using a b p(1) by simp_all
  have second: "subseq (batch_boundaries l') (batch_boundaries l)"
    using p(2) bb(1) by simp
  have third: "\<forall>b \<in> set (batch_boundaries l).
            b \<le> current_height l + ?n \<longrightarrow> b \<notin> set (batch_boundaries l')"
    using p(3) bb(1) by auto
  have fourth: "\<forall>b \<in> set (batch_boundaries l).
            current_height l' < b \<longrightarrow> b \<in> set (batch_boundaries l')"
    using p(4) bb(1,3) by auto
  have fifth: "boundary_addr_index l' - boundary_addr_index l
           = min (int (length (batch_boundaries l)) - int (length (batch_boundaries l')))
                 (max 0 (NUM_ADDRESSES - boundary_addr_index l))"
    using p(5) bb(1,2) by simp
  from first second third fourth fifth show ?thesis by blast
qed

theorem boundary_markers_follow_batch_witness:
  "bulk_round 56000 (JStr ''yAddr0'')
      \<lparr>current_height = 4691, batch_boundaries = [4999, 9999], boundary_addr_index = 40,
         next_periodic_height = 4700, periodic_counter = 4\<rparr>
      (bulk_state 56000 4691 4 0 [])
     = (Inr \<lparr>current_height = 5001, batch_boundaries = [9999], boundary_addr_index = 41,
              next_periodic_height = 6001, periodic_counter = 5\<rparr>,
        bulk_state 56000 5001 6 0
          [faucet_mine_event 1, send_event 10 0.001, resolve_event 10,
           faucet_mine_event 1, send_event 40 0.01, resolve_event 40,
           faucet_mine_event 308])
   \<and> (\<exists>later.
         [faucet_mine_event 308, resolve_event 40, send_event 40 0.01, faucet_mine_event 1,
          resolve_event 10, send_event 10 0.001, faucet_mine_event 1]
         = faucet_mine_event 308 # marker_trail (bulk_state 56000 4691 4 0 []) 40 41 @ later
         \<and> filter is_marker later = [])
   \<and> marker_trail (bulk_state 56000 4691 4 0 []) 40 41
       = [resolve_event 40, send_event 40 0.01, faucet_mine_event 1]
   \<and> subseq [9999] [4999, 9999 :: int]
   \<and> (4999 :: int) \<notin> set [9999]
   \<and> (9999 :: int) \<in> set [9999]"
proof -
  let ?l = "\<lparr>current_height = 4691, batch_boundaries = [4999, 9999], boundary_addr_index = 40,
              next_periodic_height = 4700, periodic_counter = 4\<rparr>"
  let ?l' = "\<lparr>current_height = 5001, batch_boundaries = [9999], boundary_addr_index = 41,
              next_periodic_height = 6001, periodic_counter = 5\<rparr>"
  have n: "blocks_to_mine 56000 ?l = 308"
    by (simp add: blocks_to_mine_def next_important_height_def mature_coinbase_start_def
          mature_coinbase_end_def immature_coinbase_start_def Let_def)
  have run: "bulk_round 56000 (JStr ''yAddr0'') ?l (bulk_state 56000 4691 4 0 [])
     = (Inr ?l',
        bulk_state 56000 5001 6 0
          [faucet_mine_event 1, send_event 10 0.001, resolve_event 10,
           faucet_mine_event 1, send_event 40 0.01, resolve_event 40,
           faucet_mine_event 308])"
    by (simp add: bulk_eval)
  have outside: "\<not> (mature_coinbase_start 56000 \<le> current_height ?l
            \<and> current_height ?l < mature_coinbase_end 56000)"
    "\<not> immature_coinbase_start 56000 \<le> current_height ?l"
    "distinct (batch_boundaries ?l)"
    by (simp_all add: mature_coinbase_start_def mature_coinbase_end_def
          immature_coinbase_start_def)
  have trail: "marker_trail (bulk_state 56000 4691 4 0 []) 40 41
       = [resolve_event 40, send_event 40 0.01, faucet_mine_event 1]"
    by (simp add: marker_trail_def marker_events_bulk_state)
  have mining: "Call (Request ''generatetoaddress'' [JNum 308, JStr ''yAddr50''] None)
                  = faucet_mine_event 308"
    by (simp add: faucet_mine_event_def mine_event_def)
  from boundary_markers_follow_batch [OF run outside]
  have "\<exists>later.
         [faucet_mine_event 308, resolve_event 40, send_event 40 0.01, faucet_mine_event 1,
          resolve_event 10, send_event 10 0.001, faucet_mine_event 1]
         = faucet_mine_event 308 # marker_trail (bulk_state 56000 4691 4 0 []) 40 41 @ later
         \<and> filter is_marker later = []"
    by (simp add: n events_bulk_state mining_address_bulk_state mining)
  with run trail show ?thesis by simp
qed

end
